(* ===== verification/Prelude.thy ===== *)
theory Prelude
  imports Main "HOL-Library.Word" "HOL-Library.List_Lexorder"
begin

text \<open>
  What the components share: machine words and byte strings, big-endian digits, and the
  ordered containers of the Rust standard library. A \<open>BTreeMap\<close> is modelled by the
  strictly increasing association list of its entries and a \<open>BTreeSet\<close> by the strictly
  increasing list of its elements, so that iteration order is list order and every
  operation evaluates. The two locales \<open>ordered_map\<close> and \<open>ordered_set\<close> state what
  a client may rely on; their consequences (undoing an update, commuting updates) are
  proved once inside them and used through the interpretations at the end.
\<close>

named_theorems btree_simps \<open>laws of the ordered containers, for simp\<close>
named_theorems btree_intros \<open>invariants of the ordered containers, for intro\<close>

type_synonym u8 = "8 word"
type_synonym u16 = "16 word"
type_synonym u32 = "32 word"
type_synonym u64 = "64 word"
type_synonym bytes = "8 word list"

section \<open>Lexicographic order on lists\<close>

text \<open>Rust compares \<open>Vec<u8>\<close> lexicographically, as \<open>List_Lexorder\<close> does.\<close>

lemma less_append_same: "(p @ xs < p @ ys) = (xs < (ys :: 'a :: linorder list))"
  by (induction p) auto

lemma less_append_length:
  fixes xs ys :: "'a :: linorder list"
  assumes "length xs = length ys"
  shows "(xs @ s < ys @ t) = (xs < ys \<or> (xs = ys \<and> s < t))"
  using assms by (induction xs ys rule: list_induct2) auto

lemma append_gt_self: "xs < xs @ y # (ys :: 'a :: linorder list)"
  by (induction xs) auto

lemma le_append_self: "xs \<le> xs @ (ys :: 'a :: linorder list)"
  by (cases ys) (auto simp: append_gt_self less_imp_le)

text \<open>Everything from \<open>k\<close> on and below an extension of \<open>k\<close> is an extension of \<open>k\<close>.\<close>

lemma prefix_between:
  fixes k :: "'a :: linorder list"
  assumes "k \<le> e" and "e < k @ s"
  shows "\<exists>r. e = k @ r"
  using assms
proof (induction k arbitrary: e)
  case (Cons x k)
  then obtain y e' where e: "e = y # e'"
    by (cases e) auto
  from Cons.prems have "x = y"
    unfolding e by (auto dest: less_asym)
  with Cons.prems have "k \<le> e'" "e' < k @ s"
    unfolding e by simp_all
  with Cons.IH [of e'] e \<open>x = y\<close> show ?case
    by simp
qed simp

section \<open>Big-endian digits\<close>

definition be_val :: "bytes \<Rightarrow> nat" where
  "be_val bs = foldl (\<lambda>a b. a * 256 + unat b) 0 bs"

lemma be_val_snoc: "be_val (bs @ [b]) = be_val bs * 256 + unat b"
  by (simp add: be_val_def)

lemma be_val_foldl:
  "foldl (\<lambda>a b. a * 256 + unat b) n (bs :: bytes) = n * 256 ^ length bs + be_val bs"
proof (induction bs arbitrary: n rule: rev_induct)
  case (snoc b bs)
  then show ?case
    by (simp add: be_val_snoc algebra_simps)
qed (simp add: be_val_def)

lemma be_val_Nil [simp]: "be_val [] = 0"
  by (simp add: be_val_def)

lemma be_val_Cons [simp]: "be_val (b # bs) = unat b * 256 ^ length bs + be_val bs"
  using be_val_foldl [of "unat b" bs] by (simp add: be_val_def)

lemma be_val_bound: "be_val bs < 256 ^ length bs"
proof (induction bs)
  case (Cons b bs)
  have "unat b < 2 ^ 8"
    using unsigned_less [of b, where ?'a = nat] by simp
  then have "unat b \<le> 255"
    by simp
  then have "unat b * 256 ^ length bs \<le> 255 * 256 ^ length bs"
    by (rule mult_le_mono1)
  with Cons.IH have "unat b * 256 ^ length bs + be_val bs < 256 * 256 ^ length bs"
    by linarith
  then show ?case
    by simp
qed simp

lemma digit_less:
  fixes a b c d m :: nat
  assumes "c < m" and "d < m"
  shows "(a * m + c < b * m + d) = (a < b \<or> (a = b \<and> c < d))"
proof (cases a b rule: linorder_cases)
  case less
  then have "Suc a * m \<le> b * m"
    by (intro mult_le_mono1) simp
  with assms less show ?thesis
    by simp
next
  case greater
  then have "Suc b * m \<le> a * m"
    by (intro mult_le_mono1) simp
  with assms greater show ?thesis
    by simp
qed auto

text \<open>Digit strings of one length compare as the numbers they denote.\<close>

lemma be_val_less:
  assumes "length xs = length ys"
  shows "(xs < ys) = (be_val xs < be_val ys)"
  using assms
proof (induction xs ys rule: list_induct2)
  case (Cons x xs y ys)
  then show ?case
    using be_val_bound [of xs] be_val_bound [of ys]
    by (auto simp: digit_less word_less_nat_alt word_unat_eq_iff)
qed simp

lemma be_val_inj:
  assumes "length xs = length ys" and "be_val xs = be_val ys"
  shows "xs = ys"
  using assms be_val_less [of xs ys] be_val_less [of ys xs] by auto

text \<open>
  \<open>to_be_bytes\<close> and \<open>from_be_bytes\<close> of the integer types: the \<open>k\<close> base-256 digits of
  a number, most significant first, and the number they denote.
\<close>

fun be_digits :: "nat \<Rightarrow> nat \<Rightarrow> bytes" where
  "be_digits 0 n = []"
| "be_digits (Suc k) n = be_digits k (n div 256) @ [of_nat n]"

lemma length_be_digits [simp]: "length (be_digits k n) = k"
  by (induction k arbitrary: n) auto

lemma be_val_be_digits: "be_val (be_digits k n) = n mod 256 ^ k"
proof (induction k arbitrary: n)
  case (Suc k)
  have "unat (of_nat n :: u8) = n mod 256"
    by (simp add: unat_of_nat)
  moreover have "n div 256 mod 256 ^ k * 256 + n mod 256 = n mod 256 ^ Suc k"
    by (simp add: mod_mult2_eq)
  ultimately show ?case
    using Suc by (simp add: be_val_snoc)
qed simp

definition u64_to_be :: "u64 \<Rightarrow> bytes" where
  "u64_to_be w = be_digits 8 (unat w)"

definition u64_from_be :: "bytes \<Rightarrow> u64" where
  "u64_from_be bs = of_nat (be_val bs)"

definition u16_to_be :: "u16 \<Rightarrow> bytes" where
  "u16_to_be w = be_digits 2 (unat w)"

definition u16_from_be :: "bytes \<Rightarrow> u16" where
  "u16_from_be bs = of_nat (be_val bs)"

lemma be_val_u64 [simp]: "be_val (u64_to_be w) = unat w"
  using unsigned_less [of w, where ?'a = nat] by (simp add: u64_to_be_def be_val_be_digits)

lemma be_val_u16 [simp]: "be_val (u16_to_be w) = unat w"
  using unsigned_less [of w, where ?'a = nat] by (simp add: u16_to_be_def be_val_be_digits)

lemma length_u64_to_be [simp]: "length (u64_to_be w) = 8"
  by (simp add: u64_to_be_def)

lemma length_u16_to_be [simp]: "length (u16_to_be w) = 2"
  by (simp add: u16_to_be_def)

lemma u64_from_to_be [simp]: "u64_from_be (u64_to_be w) = w"
  by (simp add: u64_from_be_def)

lemma u16_from_to_be [simp]: "u16_from_be (u16_to_be w) = w"
  by (simp add: u16_from_be_def)

lemma u64_to_be_less: "(u64_to_be v < u64_to_be w) = (v < w)"
  by (simp add: be_val_less word_less_nat_alt)

lemma u16_to_be_less: "(u16_to_be v < u16_to_be w) = (v < w)"
  by (simp add: be_val_less word_less_nat_alt)

lemma u64_to_be_inj [simp]: "(u64_to_be v = u64_to_be w) = (v = w)"
  by (metis u64_from_to_be)

lemma u16_to_be_inj [simp]: "(u16_to_be v = u16_to_be w) = (v = w)"
  by (metis u16_from_to_be)

section \<open>Strings and lists\<close>

text \<open>\<open>str::split\<close> on one character: never empty, the pieces between the separators.\<close>

fun split_on :: "'a \<Rightarrow> 'a list \<Rightarrow> 'a list list" where
  "split_on c [] = [[]]"
| "split_on c (x # xs) =
     (case split_on c xs of
        [] \<Rightarrow> [[x]]
      | p # ps \<Rightarrow> if x = c then [] # p # ps else (x # p) # ps)"

lemma split_on_not_Nil [simp]: "split_on c xs \<noteq> []"
  by (cases xs) (auto split: list.splits)

lemma split_on_no_sep: "c \<notin> set xs \<Longrightarrow> split_on c xs = [xs]"
  by (induction xs) auto

lemma split_on_append_sep: "c \<notin> set xs \<Longrightarrow> split_on c (xs @ c # ys) = xs # split_on c ys"
  by (induction xs) (auto split: list.splits)

lemma split_on_pieces: "p \<in> set (split_on c xs) \<Longrightarrow> c \<notin> set p"
  by (induction xs arbitrary: p) (auto split: list.splits if_splits)

text \<open>The decimal digits of a number, as \<open>to_string\<close> and \<open>format!\<close> print it.\<close>

definition digit_char :: "nat \<Rightarrow> char" where
  "digit_char d = char_of (48 + d)"

fun nat_str :: "nat \<Rightarrow> string" where
  "nat_str n = (if n < 10 then [digit_char n] else nat_str (n div 10) @ [digit_char (n mod 10)])"

declare nat_str.simps [simp del]

text \<open>
  \<open>iter_mut().find(p)\<close> followed by a modification through the reference: the first
  element that satisfies \<open>p\<close> is replaced, the rest is untouched.
\<close>

fun upd_first :: "('a \<Rightarrow> bool) \<Rightarrow> ('a \<Rightarrow> 'a) \<Rightarrow> 'a list \<Rightarrow> 'a list" where
  "upd_first p f [] = []"
| "upd_first p f (x # xs) = (if p x then f x # xs else x # upd_first p f xs)"

text \<open>\<open>position(p)\<close> followed by \<open>Vec::remove\<close>.\<close>

fun remove_first :: "('a \<Rightarrow> bool) \<Rightarrow> 'a list \<Rightarrow> 'a list" where
  "remove_first p [] = []"
| "remove_first p (x # xs) = (if p x then xs else x # remove_first p xs)"

lemma find_Some_in: "find p xs = Some x \<Longrightarrow> x \<in> set xs \<and> p x"
  by (auto simp: find_Some_iff)

lemma find_None_notin: "find p xs = None \<Longrightarrow> x \<in> set xs \<Longrightarrow> \<not> p x"
  by (auto simp: find_None_iff)

lemma upd_first_none: "find p xs = None \<Longrightarrow> upd_first p f xs = xs"
  by (induction xs) (auto split: if_splits)

lemma upd_first_same: "(\<And>x. x \<in> set xs \<Longrightarrow> p x \<Longrightarrow> f x = x) \<Longrightarrow> upd_first p f xs = xs"
  by (induction xs) auto

lemma upd_first_upd_first:
  "(\<And>x. p (f x) = p x) \<Longrightarrow> upd_first p g (upd_first p f xs) = upd_first p (g \<circ> f) xs"
  by (induction xs) auto

lemma map_upd_first: "(\<And>x. h (f x) = h x) \<Longrightarrow> map h (upd_first p f xs) = map h xs"
  by (induction xs) auto

lemma set_upd_first: "x \<in> set (upd_first p f xs) \<Longrightarrow> x \<in> set xs \<or> (\<exists>y \<in> set xs. p y \<and> x = f y)"
  by (induction xs) (auto split: if_splits)

lemma set_remove_first: "set (remove_first p xs) \<subseteq> set xs"
  by (induction xs) auto

text \<open>A first match by any test is the only match by a key that is distinct.\<close>

lemma upd_first_by_key:
  assumes "distinct (map k xs)" and "find p xs = Some x"
  shows "upd_first p f xs = upd_first (\<lambda>y. k y = k x) f xs"
  using assms
proof (induction xs)
  case (Cons y ys)
  then show ?case
    by (auto split: if_splits dest!: find_Some_in)
qed simp

lemma find_by_key:
  assumes "distinct (map k xs)" and "x \<in> set xs"
  shows "find (\<lambda>y. k y = k x) xs = Some x"
  using assms by (induction xs) (auto simp: rev_image_eqI)

section \<open>Ordered containers\<close>

subsection \<open>The contracts\<close>

locale ordered_map =
  fixes lookup :: "'m \<Rightarrow> 'k \<Rightarrow> 'v option"
    and update :: "'k \<Rightarrow> 'v \<Rightarrow> 'm \<Rightarrow> 'm"
    and delete :: "'k \<Rightarrow> 'm \<Rightarrow> 'm"
    and invar :: "'m \<Rightarrow> bool"
  assumes lookup_update: "invar m \<Longrightarrow> lookup (update k v m) = (lookup m)(k \<mapsto> v)"
    and lookup_delete: "invar m \<Longrightarrow> lookup (delete k m) = (lookup m)(k := None)"
    and invar_update: "invar m \<Longrightarrow> invar (update k v m)"
    and invar_delete: "invar m \<Longrightarrow> invar (delete k m)"
    and map_ext: "invar m \<Longrightarrow> invar m' \<Longrightarrow> lookup m = lookup m' \<Longrightarrow> m = m'"
begin

lemma undo_insert:
  assumes "invar m" and "lookup m k = None"
  shows "delete k (update k v m) = m"
  using assms
  by (intro map_ext) (auto simp: lookup_update lookup_delete invar_update invar_delete)

lemma undo_replace:
  assumes "invar m" and "lookup m k = Some old"
  shows "update k old (delete k (update k v m)) = m"
  using assms
  by (intro map_ext) (auto simp: lookup_update lookup_delete invar_update invar_delete fun_eq_iff)

lemma undo_delete:
  assumes "invar m" and "lookup m k = Some old"
  shows "update k old (delete k m) = m"
  using assms
  by (intro map_ext) (auto simp: lookup_update lookup_delete invar_update invar_delete fun_eq_iff)

lemma delete_absent:
  assumes "invar m" and "lookup m k = None"
  shows "delete k m = m"
  using assms by (intro map_ext) (auto simp: lookup_delete invar_delete)

lemma update_delete:
  assumes "invar m"
  shows "update k v (delete k m) = update k v m"
  using assms
  by (intro map_ext) (auto simp: lookup_update lookup_delete invar_update invar_delete)

lemma delete_update:
  assumes "invar m"
  shows "delete k (update k v m) = delete k m"
  using assms
  by (intro map_ext) (auto simp: lookup_update lookup_delete invar_update invar_delete)

end

locale ordered_set =
  fixes elems :: "'s \<Rightarrow> 'k set"
    and insert_elem :: "'k \<Rightarrow> 's \<Rightarrow> 's"
    and remove_elem :: "'k \<Rightarrow> 's \<Rightarrow> 's"
    and set_invar :: "'s \<Rightarrow> bool"
  assumes elems_insert: "set_invar s \<Longrightarrow> elems (insert_elem k s) = insert k (elems s)"
    and elems_remove: "set_invar s \<Longrightarrow> elems (remove_elem k s) = elems s - {k}"
    and invar_insert: "set_invar s \<Longrightarrow> set_invar (insert_elem k s)"
    and invar_remove: "set_invar s \<Longrightarrow> set_invar (remove_elem k s)"
    and set_ext: "set_invar s \<Longrightarrow> set_invar s' \<Longrightarrow> elems s = elems s' \<Longrightarrow> s = s'"
begin

text \<open>A batch of insertions or removals is a union or a difference.\<close>

lemma elems_fold_insert:
  "set_invar s \<Longrightarrow>
   elems (fold insert_elem ks s) = elems s \<union> set ks \<and> set_invar (fold insert_elem ks s)"
  by (induction ks arbitrary: s) (auto simp: elems_insert invar_insert)

lemma elems_fold_remove:
  "set_invar s \<Longrightarrow>
   elems (fold remove_elem ks s) = elems s - set ks \<and> set_invar (fold remove_elem ks s)"
  by (induction ks arbitrary: s) (auto simp: elems_remove invar_remove)

lemma undo_insert_all:
  assumes "set_invar s" and "elems s \<inter> set ks = {}"
  shows "fold remove_elem ks (fold insert_elem ks s) = s"
  using assms
  by (intro set_ext) (auto simp: elems_fold_insert elems_fold_remove)

lemma undo_remove_all:
  assumes "set_invar s" and "set ks \<subseteq> elems s"
  shows "fold insert_elem ks (fold remove_elem ks s) = s"
  using assms
  by (intro set_ext) (auto simp: elems_fold_insert elems_fold_remove)

end

subsection \<open>\<open>BTreeMap\<close>\<close>

type_synonym ('k, 'v) btree_map = "('k \<times> 'v) list"

definition bt_ok :: "('k :: linorder, 'v) btree_map \<Rightarrow> bool" where
  "bt_ok m \<longleftrightarrow> sorted_wrt (<) (map fst m)"

abbreviation bt_get :: "('k, 'v) btree_map \<Rightarrow> 'k \<Rightarrow> 'v option" where
  "bt_get \<equiv> map_of"

fun bt_insert :: "'k :: linorder \<Rightarrow> 'v \<Rightarrow> ('k, 'v) btree_map \<Rightarrow> ('k, 'v) btree_map" where
  "bt_insert k v [] = [(k, v)]"
| "bt_insert k v ((k', v') # m) =
     (if k < k' then (k, v) # (k', v') # m
      else if k = k' then (k, v) # m
      else (k', v') # bt_insert k v m)"

definition bt_remove :: "'k \<Rightarrow> ('k, 'v) btree_map \<Rightarrow> ('k, 'v) btree_map" where
  "bt_remove k m = filter (\<lambda>(k', _). k' \<noteq> k) m"

lemma bt_ok_Nil [simp]: "bt_ok []"
  by (simp add: bt_ok_def)

lemma bt_ok_Cons: "bt_ok ((k, v) # m) \<longleftrightarrow> (\<forall>k' \<in> fst ` set m. k < k') \<and> bt_ok m"
  by (auto simp: bt_ok_def)

lemma bt_ok_distinct: "bt_ok m \<Longrightarrow> distinct (map fst m)"
  by (induction m) (auto simp: bt_ok_def)

lemma bt_get_insert: "bt_ok m \<Longrightarrow> bt_get (bt_insert k v m) = (bt_get m)(k \<mapsto> v)"
  by (induction m rule: bt_insert.induct) (auto simp: bt_ok_Cons fun_eq_iff)

lemma keys_bt_insert: "fst ` set (bt_insert k v m) = insert k (fst ` set m)"
  by (induction k v m rule: bt_insert.induct) auto

lemma bt_ok_insert: "bt_ok m \<Longrightarrow> bt_ok (bt_insert k v m)"
  by (induction k v m rule: bt_insert.induct)
    (auto simp: bt_ok_Cons keys_bt_insert)

lemma bt_get_remove: "bt_get (bt_remove k m) = (bt_get m)(k := None)"
  by (induction m) (auto simp: bt_remove_def fun_eq_iff)

lemma bt_ok_filter: "bt_ok m \<Longrightarrow> bt_ok (filter P m)"
  by (induction m) (auto simp: bt_ok_Cons)

lemma bt_ok_remove: "bt_ok m \<Longrightarrow> bt_ok (bt_remove k m)"
  by (simp add: bt_remove_def bt_ok_filter)

lemma bt_remove_absent: "bt_get m k = None \<Longrightarrow> bt_remove k m = m"
  by (induction m) (auto simp: bt_remove_def split: if_splits)

lemma set_bt_remove: "(k', v) \<in> set (bt_remove k m) \<longleftrightarrow> (k', v) \<in> set m \<and> k' \<noteq> k"
  by (auto simp: bt_remove_def)

lemma set_bt_insert_fresh:
  "bt_ok m \<Longrightarrow> bt_get m k = None \<Longrightarrow> set (bt_insert k v m) = insert (k, v) (set m)"
  by (induction k v m rule: bt_insert.induct) (auto simp: bt_ok_Cons split: if_splits)

lemma bt_ok_map_snd: "bt_ok (map (\<lambda>(k, v). (k, f k v)) m) = bt_ok m"
  by (simp add: bt_ok_def comp_def case_prod_unfold)

lemma bt_get_map_snd:
  "bt_get (map (\<lambda>(k, v). (k, f k v)) m) k = map_option (f k) (bt_get m k)"
  by (induction m) auto

lemma bt_get_less:
  assumes "bt_ok ((k, v) # m)" and "\<not> k < k'" and "k' \<noteq> k"
  shows "bt_get m k' = None"
proof -
  have "k' \<notin> fst ` set m"
    using assms by (auto simp: bt_ok_Cons)
  then show ?thesis
    by (simp add: map_of_eq_None_iff)
qed

lemma bt_ext:
  assumes "bt_ok m" and "bt_ok m'" and "bt_get m = bt_get m'"
  shows "m = m'"
  using assms
proof -
  have "set m = set m'"
    using assms bt_ok_distinct [of m] bt_ok_distinct [of m']
    by (metis map_of_inject_set)
  moreover have "sorted_wrt (\<lambda>a b. fst a < fst b) m" "sorted_wrt (\<lambda>a b. fst a < fst b) m'"
    using assms by (auto simp: bt_ok_def sorted_wrt_map)
  ultimately show ?thesis
  proof (induction m arbitrary: m')
    case (Cons x m)
    then obtain y n where m': "m' = y # n"
      by (cases m') auto
    have "x = y"
      using Cons.prems unfolding m' by (metis less_asym list.set_intros(1) set_ConsD sorted_wrt.simps(2))
    moreover have "x \<notin> set m" "x \<notin> set n"
      using Cons.prems \<open>x = y\<close> unfolding m' by auto
    ultimately have "set m = set n"
      using Cons.prems unfolding m' by auto
    with Cons \<open>x = y\<close> m' show ?case
      by auto
  qed auto
qed

interpretation bt: ordered_map bt_get bt_insert bt_remove bt_ok
  by unfold_locales (auto simp: bt_get_insert bt_get_remove bt_ok_insert bt_ok_remove intro: bt_ext)

subsection \<open>\<open>BTreeSet\<close>\<close>

type_synonym 'k btree_set = "'k list"

definition bs_ok :: "'k :: linorder btree_set \<Rightarrow> bool" where
  "bs_ok s \<longleftrightarrow> sorted_wrt (<) s"

fun bs_insert :: "'k :: linorder \<Rightarrow> 'k btree_set \<Rightarrow> 'k btree_set" where
  "bs_insert k [] = [k]"
| "bs_insert k (x # s) =
     (if k < x then k # x # s else if k = x then x # s else x # bs_insert k s)"

definition bs_remove :: "'k \<Rightarrow> 'k btree_set \<Rightarrow> 'k btree_set" where
  "bs_remove k s = filter (\<lambda>x. x \<noteq> k) s"

lemma bs_ok_Nil [simp]: "bs_ok []"
  by (simp add: bs_ok_def)

lemma set_bs_insert: "set (bs_insert k s) = insert k (set s)"
  by (induction k s rule: bs_insert.induct) auto

lemma bs_ok_insert: "bs_ok s \<Longrightarrow> bs_ok (bs_insert k s)"
  by (induction k s rule: bs_insert.induct) (auto simp: bs_ok_def set_bs_insert)

lemma bs_ok_filter: "bs_ok s \<Longrightarrow> bs_ok (filter P s)"
  by (simp add: bs_ok_def sorted_wrt_filter)

lemma bs_ok_distinct: "bs_ok s \<Longrightarrow> distinct s"
  by (induction s) (auto simp: bs_ok_def)

lemma bs_ext: "bs_ok s \<Longrightarrow> bs_ok s' \<Longrightarrow> set s = set s' \<Longrightarrow> s = s'"
  unfolding bs_ok_def by (meson sorted_distinct_set_unique strict_sorted_iff)

interpretation bs: ordered_set set bs_insert bs_remove bs_ok
  by unfold_locales
    (auto simp: set_bs_insert bs_ok_insert bs_remove_def bs_ok_filter intro: bs_ext)

subsection \<open>Ranges\<close>

datatype 'k bound = Unbounded | Included 'k | Excluded 'k

fun above :: "'k :: linorder bound \<Rightarrow> 'k \<Rightarrow> bool" where
  "above Unbounded k = True"
| "above (Included a) k = (a \<le> k)"
| "above (Excluded a) k = (a < k)"

fun below :: "'k :: linorder bound \<Rightarrow> 'k \<Rightarrow> bool" where
  "below Unbounded k = True"
| "below (Included b) k = (k \<le> b)"
| "below (Excluded b) k = (k < b)"

text \<open>
  \<open>range\<close> of the ordered containers panics when the start is greater than the end, and
  when both are excluded and equal; that is the result \<open>None\<close>.
\<close>

fun range_panics :: "'k :: linorder bound \<Rightarrow> 'k bound \<Rightarrow> bool" where
  "range_panics (Included a) (Included b) = (b < a)"
| "range_panics (Included a) (Excluded b) = (b < a)"
| "range_panics (Excluded a) (Included b) = (b < a)"
| "range_panics (Excluded a) (Excluded b) = (b \<le> a)"
| "range_panics _ _ = False"

definition bt_range :: "'k :: linorder bound \<Rightarrow> 'k bound \<Rightarrow> ('k, 'v) btree_map \<Rightarrow> ('k, 'v) btree_map option" where
  "bt_range lo hi m =
     (if range_panics lo hi then None else Some (filter (\<lambda>(k, _). above lo k \<and> below hi k) m))"

definition bs_range :: "'k :: linorder bound \<Rightarrow> 'k bound \<Rightarrow> 'k btree_set \<Rightarrow> 'k btree_set option" where
  "bs_range lo hi s =
     (if range_panics lo hi then None else Some (filter (\<lambda>k. above lo k \<and> below hi k) s))"

end
