(* ===== verification/Float64.thy ===== *)
theory Float64
  imports Prelude
begin

text \<open>
  Rust's \<open>f64\<close> as its 64 bits, with what the engine does with doubles: the exact value of
  a double as an integer number of \<open>2 ^ -1074\<close>, rounding to the nearest double (ties to
  even), addition, \<open>floor\<close>, \<open>min\<close> and comparison.
\<close>

unbundle bit_operations_syntax

section \<open>Doubles as bit patterns\<close>

type_synonym f64 = u64

definition sign_bit :: f64 where
  "sign_bit = push_bit 63 1"

lemma bit_sign_bit [simp]: "bit sign_bit n \<longleftrightarrow> n = 63"
  unfolding sign_bit_def bit_push_bit_iff by (auto simp: bit_1_iff)

definition f64_is_zero :: "f64 \<Rightarrow> bool" where
  "f64_is_zero x \<longleftrightarrow> x = 0 \<or> x = sign_bit"

definition f64_is_nan :: "f64 \<Rightarrow> bool" where
  "f64_is_nan x \<longleftrightarrow> 0x7FF0000000000000 < x AND mask 63"

text \<open>
  The value of a double in units of \<open>2 ^ -1074\<close>, the smallest subnormal: an exact
  integer. An infinity is one step above the largest finite value.
\<close>

definition f64_mag_units :: "nat \<Rightarrow> nat" where
  "f64_mag_units m =
     (let e = m div 2 ^ 52; f = m mod 2 ^ 52
      in if e = 0 then f else (2 ^ 52 + f) * 2 ^ (e - 1))"

definition f64_units :: "f64 \<Rightarrow> int" where
  "f64_units x =
     (let m = int (f64_mag_units (unat (x AND mask 63)))
      in if bit x 63 then - m else m)"

text \<open>The sign of a zero is not part of its value.\<close>

definition f64_canon :: "f64 \<Rightarrow> f64" where
  "f64_canon x = (if f64_is_zero x then 0 else x)"

lemma f64_canon_canon [simp]: "f64_canon (f64_canon x) = f64_canon x"
  by (auto simp: f64_canon_def f64_is_zero_def)

section \<open>Order\<close>

text \<open>The value grows strictly with the 63 magnitude bits.\<close>

lemma f64_mag_units_bounds:
  assumes "0 < m div 2 ^ 52"
  shows "2 ^ 52 * 2 ^ (m div 2 ^ 52 - 1) \<le> f64_mag_units m"
    and "f64_mag_units m < 2 ^ 52 * 2 ^ (m div 2 ^ 52)"
proof -
  let ?e = "m div 2 ^ 52" and ?f = "m mod 2 ^ 52"
  have u: "f64_mag_units m = (2 ^ 52 + ?f) * 2 ^ (?e - 1)"
    using assms by (simp add: f64_mag_units_def Let_def)
  show "2 ^ 52 * 2 ^ (?e - 1) \<le> f64_mag_units m"
    unfolding u by (rule mult_le_mono1) simp
  have "?f < 2 ^ 52"
    by simp
  then have "(2 ^ 52 + ?f) * 2 ^ (?e - 1) < 2 ^ 52 * 2 * 2 ^ (?e - 1)"
    by (intro mult_strict_right_mono) simp_all
  also have "\<dots> = 2 ^ 52 * 2 ^ Suc (?e - 1)"
    by simp
  also have "Suc (?e - 1) = ?e"
    using assms by (rule Suc_diff_1)
  finally show "f64_mag_units m < 2 ^ 52 * 2 ^ ?e"
    unfolding u .
qed

lemma f64_mag_units_mono:
  assumes "m < n"
  shows "f64_mag_units m < f64_mag_units n"
proof -
  let ?e = "\<lambda>m :: nat. m div 2 ^ 52"
  have le: "?e m \<le> ?e n"
    using assms by (intro div_le_mono) simp
  show ?thesis
  proof (cases "?e m = ?e n")
    case True
    then have "m mod 2 ^ 52 < n mod 2 ^ 52"
      using assms by (metis div_mult_mod_eq nat_add_left_cancel_less)
    with True show ?thesis
      by (auto simp: f64_mag_units_def Let_def simp del: div_eq_0_iff)
  next
    case False
    with le have lt: "?e m < ?e n"
      by simp
    have "f64_mag_units m < 2 ^ 52 * 2 ^ ?e m"
    proof (cases "?e m = 0")
      case True
      have "m mod 2 ^ 52 < 2 ^ 52"
        by simp
      with True show ?thesis
        by (simp add: f64_mag_units_def Let_def del: div_eq_0_iff)
    qed (rule f64_mag_units_bounds, simp)
    also have "(2 :: nat) ^ 52 * 2 ^ ?e m \<le> 2 ^ 52 * 2 ^ (?e n - 1)"
      using lt by (intro mult_le_mono2 power_increasing) auto
    also have "\<dots> \<le> f64_mag_units n"
      by (rule f64_mag_units_bounds) (use lt in simp)
    finally show ?thesis .
  qed
qed

lemma f64_mag_units_less: "f64_mag_units m < f64_mag_units n \<longleftrightarrow> m < n"
  using f64_mag_units_mono by (metis linorder_neqE_nat order_less_asym order_less_irrefl)

lemma f64_mag_units_0 [simp]: "f64_mag_units 0 = 0"
  by (simp add: f64_mag_units_def)

lemma f64_mag_units_pos: "0 < f64_mag_units m \<longleftrightarrow> 0 < m"
  using f64_mag_units_less [of 0 m] by simp

lemma top_bit_u64: "(drop_bit 63 w = 1) = bit (w :: u64) 63"
proof -
  have "(drop_bit 63 w = 1) = bit (drop_bit 63 w) 0"
  proof
    assume "bit (drop_bit 63 w) 0"
    then show "drop_bit 63 w = 1"
      by (intro bit_word_eqI) (auto simp: bit_simps dest: bit_imp_le_length)
  qed simp
  then show ?thesis
    by (simp add: bit_simps)
qed

lemma unat_split_sign:
  "unat (x :: u64) = (if bit x 63 then 2 ^ 63 else 0) + unat (x AND mask 63)"
proof -
  have "unat x < 2 ^ 64"
    using unsigned_less [of x, where ?'a = nat] by simp
  then have q: "unat x div 2 ^ 63 = (if odd (unat x div 2 ^ 63) then 1 else 0)"
    by (auto elim!: oddE simp: less_mult_imp_div_less)
  have sgn: "bit x 63 = odd (unat x div 2 ^ 63)"
    using bit_iff_odd [of "unat x" 63] by (simp add: bit_unsigned_iff)
  have "unat (x AND mask 63) = take_bit 63 (unat x)"
    by (simp only: unsigned_take_bit_eq flip: take_bit_eq_mask)
  then have low: "unat (x AND mask 63) = unat x mod 2 ^ 63"
    by (simp only: take_bit_eq_mod)
  have "unat x = unat x div 2 ^ 63 * 2 ^ 63 + unat x mod 2 ^ 63"
    by (rule div_mult_mod_eq [symmetric])
  also have "unat x div 2 ^ 63 * 2 ^ 63 = (if bit x 63 then 2 ^ 63 else 0)"
    by (subst q) (simp add: sgn)
  finally show ?thesis
    by (simp only: low)
qed

lemma f64_units_canon: "f64_units (f64_canon x) = f64_units x"
proof -
  have "sign_bit AND mask 63 = 0"
    by (rule bit_word_eqI) (auto simp: bit_simps)
  then show ?thesis
    by (auto simp: f64_units_def f64_canon_def f64_is_zero_def)
qed

lemma f64_canon_neg:
  assumes "bit (f64_canon x) 63"
  shows "0 < unat (f64_canon x AND mask 63)"
proof (rule ccontr)
  assume "\<not> ?thesis"
  then have "f64_canon x AND mask 63 = 0"
    by (simp add: unat_gt_0)
  then have low: "\<not> bit (f64_canon x) n" if "n < 63" for n
    using that bit_and_iff [of "f64_canon x" "mask 63" n] by (simp add: bit_mask_iff)
  have "f64_canon x = sign_bit"
  proof (rule bit_word_eqI)
    fix n
    assume "n < LENGTH(64)"
    then show "bit (f64_canon x) n = bit sign_bit n"
      using assms low [of n] by (cases "n = 63") auto
  qed
  moreover have "sign_bit \<noteq> 0"
    by (simp add: sign_bit_def)
  ultimately show False
    by (auto simp: f64_canon_def f64_is_zero_def split: if_splits)
qed


section \<open>Arithmetic\<close>

fun nat_log2 :: "nat \<Rightarrow> nat" where
  "nat_log2 n = (if n \<le> 1 then 0 else Suc (nat_log2 (n div 2)))"

declare nat_log2.simps [simp del]

text \<open>
  The magnitude bits of the double nearest to \<open>u\<close> units: \<open>u\<close> is cut to 53 significant
  bits, rounding to nearest with ties to even; a carry moves into the exponent by itself.
\<close>

definition f64_round_mag :: "nat \<Rightarrow> nat" where
  "f64_round_mag u =
     (let s = nat_log2 u - 52; q = u div 2 ^ s; r = u mod 2 ^ s;
          q' = (if 2 ^ s < 2 * r \<or> (2 * r = 2 ^ s \<and> odd q) then q + 1 else q)
      in min (s * 2 ^ 52 + q') (2047 * 2 ^ 52))"

definition f64_of_units :: "int \<Rightarrow> f64" where
  "f64_of_units u =
     (let m = of_nat (f64_round_mag (nat \<bar>u\<bar>)) in if u < 0 then m OR sign_bit else m)"

definition f64_is_inf :: "f64 \<Rightarrow> bool" where
  "f64_is_inf x \<longleftrightarrow> x AND mask 63 = 0x7FF0000000000000"

definition f64_nan :: f64 where
  "f64_nan = 0x7FF8000000000000"

definition f64_one :: f64 where
  "f64_one = 0x3FF0000000000000"

definition f64_add :: "f64 \<Rightarrow> f64 \<Rightarrow> f64" where
  "f64_add x y =
     (if f64_is_nan x \<or> f64_is_nan y then f64_nan
      else if f64_is_inf x then (if f64_is_inf y \<and> x \<noteq> y then f64_nan else x)
      else if f64_is_inf y then y
      else let u = f64_units x + f64_units y
           in if u = 0 then (if bit x 63 \<and> bit y 63 then sign_bit else 0)
              else f64_of_units u)"

text \<open>The value one, in units.\<close>

definition f64_scale :: nat where
  "f64_scale = 2 ^ 1074"

definition f64_floor :: "f64 \<Rightarrow> f64" where
  "f64_floor x =
     (if f64_is_nan x \<or> f64_is_inf x \<or> f64_is_zero x then x
      else f64_of_units (f64_units x div int f64_scale * int f64_scale))"

definition f64_less :: "f64 \<Rightarrow> f64 \<Rightarrow> bool" where
  "f64_less x y \<longleftrightarrow> \<not> f64_is_nan x \<and> \<not> f64_is_nan y \<and> f64_units x < f64_units y"

definition f64_le :: "f64 \<Rightarrow> f64 \<Rightarrow> bool" where
  "f64_le x y \<longleftrightarrow> \<not> f64_is_nan x \<and> \<not> f64_is_nan y \<and> f64_units x \<le> f64_units y"

definition f64_min :: "f64 \<Rightarrow> f64 \<Rightarrow> f64" where
  "f64_min x y =
     (if f64_is_nan x then y else if f64_is_nan y then x
      else if f64_units y < f64_units x then y else x)"

definition f64_of_nat :: "nat \<Rightarrow> f64" where
  "f64_of_nat j = f64_of_units (int (j * f64_scale))"

text \<open>\<open>9007199254740992.0\<close>, the literal of the key generator's limit.\<close>

definition f64_2p53 :: f64 where
  "f64_2p53 = 0x4340000000000000"

lemma nat_log2_eq:
  assumes "2 ^ k \<le> n" and "n < 2 ^ Suc k"
  shows "nat_log2 n = k"
  using assms
proof (induction k arbitrary: n)
  case (Suc k)
  have "2 ^ k \<le> n div 2" "n div 2 < 2 ^ Suc k"
    using Suc.prems by auto
  then have "nat_log2 (n div 2) = k"
    by (rule Suc.IH)
  moreover have "1 < n"
    using Suc.prems(1) one_less_power [of "2 :: nat" "Suc k"] by simp
  ultimately show ?case
    by (simp add: nat_log2.simps [of n])
qed (simp add: nat_log2.simps)

lemma f64_round_mag_exact:
  assumes "2 ^ 52 \<le> q" "q < 2 ^ 53" "s < 2045"
  shows "f64_round_mag (q * 2 ^ s) = s * 2 ^ 52 + q"
proof -
  have "2 ^ (52 + s) \<le> q * 2 ^ s" "q * 2 ^ s < 2 ^ Suc (52 + s)"
    using assms(1,2) by (simp_all add: power_add)
  then have "nat_log2 (q * 2 ^ s) = 52 + s"
    by (rule nat_log2_eq)
  moreover have "s * 2 ^ 52 + q \<le> 2044 * 2 ^ 52 + 2 ^ 53"
    using assms by (intro add_mono mult_le_mono1) auto
  ultimately show ?thesis
    by (simp add: f64_round_mag_def Let_def)
qed

lemma f64_mag_units_normal:
  assumes "2 ^ 52 \<le> q" "q < 2 ^ 53"
  shows "f64_mag_units (s * 2 ^ 52 + q) = q * 2 ^ s"
proof -
  have "s * 2 ^ 52 + q = Suc s * 2 ^ 52 + (q - 2 ^ 52)" "q - 2 ^ 52 < 2 ^ 52"
    using assms by auto
  then have "(s * 2 ^ 52 + q) div 2 ^ 52 = Suc s" "(s * 2 ^ 52 + q) mod 2 ^ 52 = q - 2 ^ 52"
    by (simp_all only: div_mult_self3 mod_mult_self3 div_less mod_less)
  then show ?thesis
    using assms by (simp add: f64_mag_units_def)
qed

lemma f64_of_mag:
  assumes "m \<le> 2047 * 2 ^ 52"
  shows "f64_units (of_nat m) = int (f64_mag_units m)"
    and "\<not> f64_is_nan (of_nat m)"
    and "f64_is_inf (of_nat m) \<longleftrightarrow> m = 2047 * 2 ^ 52"
proof -
  have lt: "m < 2 ^ 63"
    using assms by simp
  then have um: "unat (of_nat m :: u64) = m"
    by (simp add: unat_of_nat)
  have low: "(of_nat m :: u64) AND mask 63 = of_nat m"
    using lt by (intro word_unat_eq_iff [THEN iffD2])
      (simp add: um unsigned_take_bit_eq take_bit_nat_eq_self flip: take_bit_eq_mask)
  have "\<not> bit (of_nat m :: u64) 63"
    using unat_split_sign [of "of_nat m"] lt by (auto simp: um low)
  then show "f64_units (of_nat m) = int (f64_mag_units m)"
    by (simp add: f64_units_def low um)
  show "\<not> f64_is_nan (of_nat m)"
    using assms by (simp add: f64_is_nan_def low word_less_nat_alt um)
  show "f64_is_inf (of_nat m) \<longleftrightarrow> m = 2047 * 2 ^ 52"
    using um by (auto simp: f64_is_inf_def low word_unat_eq_iff)
qed

text \<open>The integers up to \<open>2 ^ 53\<close> are doubles, and adding one to them is exact below the limit.\<close>

lemma nat_scaled:
  fixes j :: nat
  assumes "0 < j" "j \<le> 2 ^ 53"
  obtains q s where "j * f64_scale = q * 2 ^ s" "2 ^ 52 \<le> q" "q < 2 ^ 53" "s < 2045"
proof -
  obtain k where k: "2 ^ k \<le> j" "j < 2 ^ (k + 1)"
    using ex_power_ivl1 [of 2 j] assms by auto
  have "(2 :: nat) ^ k \<le> 2 ^ 53"
    using k assms by linarith
  then have k53: "k \<le> 53"
    by (rule power_le_imp_le_exp [rotated]) simp
  show thesis
  proof (cases "k = 53")
    case True
    with k assms have "j = 2 ^ 53"
      by simp
    then have "j * f64_scale = 2 ^ (53 + 1074)"
      by (simp only: f64_scale_def power_add)
    also have "\<dots> = 2 ^ (52 + 1075)"
      by (rule arg_cong [where f = "\<lambda>n. 2 ^ n"]) simp
    also have "\<dots> = 2 ^ 52 * 2 ^ 1075"
      by (rule power_add)
    finally show thesis
      by (rule that) simp_all
  next
    case False
    with k53 have le: "k \<le> 52"
      by simp
    have "(1074 :: nat) = (52 - k) + (k + 1022)"
      using le by simp
    then have "j * f64_scale = j * 2 ^ (52 - k) * 2 ^ (k + 1022)"
      unfolding f64_scale_def by (metis mult.assoc power_add)
    moreover have "2 ^ k * 2 ^ (52 - k) \<le> j * 2 ^ (52 - k)"
      using k by (intro mult_le_mono1)
    then have "2 ^ 52 \<le> j * 2 ^ (52 - k)"
      using le by (simp flip: power_add)
    moreover have "j * 2 ^ (52 - k) < 2 ^ (k + 1) * 2 ^ (52 - k)"
      using k by (intro mult_strict_right_mono) auto
    then have "j * 2 ^ (52 - k) < 2 ^ 53"
      using le by (simp add: Suc_diff_le flip: power_add power_Suc)
    ultimately show thesis
      using le that [of "j * 2 ^ (52 - k)" "k + 1022"] by simp
  qed
qed

lemma f64_of_units_nat: "f64_of_units (int u) = of_nat (f64_round_mag u)"
  by (simp add: f64_of_units_def)

lemma f64_of_units_exact:
  assumes "2 ^ 52 \<le> q" "q < 2 ^ 53" "s < 2045"
  shows "f64_units (f64_of_units (int (q * 2 ^ s))) = int (q * 2 ^ s)"
    and "\<not> f64_is_nan (f64_of_units (int (q * 2 ^ s)))"
    and "\<not> f64_is_inf (f64_of_units (int (q * 2 ^ s)))"
    and "\<not> bit (f64_of_units (int (q * 2 ^ s))) 63"
proof -
  let ?m = "s * 2 ^ 52 + q"
  have e: "f64_of_units (int (q * 2 ^ s)) = of_nat ?m"
    by (simp only: f64_of_units_nat f64_round_mag_exact [OF assms])
  have m: "?m < 2047 * 2 ^ 52"
    using assms by simp
  show u: "f64_units (f64_of_units (int (q * 2 ^ s))) = int (q * 2 ^ s)"
    unfolding e by (simp only: f64_of_mag(1) [OF less_imp_le [OF m]] f64_mag_units_normal [OF assms(1,2)])
  show "\<not> f64_is_nan (f64_of_units (int (q * 2 ^ s)))"
    unfolding e by (rule f64_of_mag(2) [OF less_imp_le [OF m]])
  show "\<not> f64_is_inf (f64_of_units (int (q * 2 ^ s)))"
    unfolding e f64_of_mag(3) [OF less_imp_le [OF m]] using m by simp
  have "0 < int (q * 2 ^ s)"
    using assms by simp
  then have "0 < f64_units (f64_of_units (int (q * 2 ^ s)))"
    by (simp only: u)
  then show "\<not> bit (f64_of_units (int (q * 2 ^ s))) 63"
    by (rule contrapos_pn) (simp add: f64_units_def Let_def)
qed

lemma f64_of_nat_exact:
  assumes "0 < j" "j \<le> 2 ^ 53"
  shows "f64_units (f64_of_nat j) = int (j * f64_scale)"
    and "\<not> f64_is_nan (f64_of_nat j)"
    and "\<not> f64_is_inf (f64_of_nat j)"
    and "\<not> bit (f64_of_nat j) 63"
  using nat_scaled [OF assms] f64_of_units_exact unfolding f64_of_nat_def by metis+

lemma div_mod_digit:
  fixes c b a :: nat
  assumes "c < b"
  shows "(c + a * b) div b = a \<and> (c + a * b) mod b = c"
  using assms by simp

lemma f64_of_nat_limits:
  "f64_of_nat 1 = f64_one"
  "f64_of_nat (2 ^ 53) = f64_2p53"
  "f64_of_nat (2 ^ 53 + 1) = f64_of_nat (2 ^ 53)"
proof -
  have scale: "1 * f64_scale = 2 ^ 52 * 2 ^ 1022" "2 ^ 53 * f64_scale = 2 ^ 52 * 2 ^ 1075"
    by (simp_all add: f64_scale_def flip: power_add)
  have "f64_of_nat 1 = of_nat (1022 * 2 ^ 52 + 2 ^ 52)"
    unfolding f64_of_nat_def f64_of_units_nat scale(1)
    by (rule arg_cong [where f = of_nat], rule f64_round_mag_exact) simp_all
  then show "f64_of_nat 1 = f64_one"
    by (simp add: f64_one_def)
  have "f64_of_nat (2 ^ 53) = of_nat (1075 * 2 ^ 52 + 2 ^ 52)"
    unfolding f64_of_nat_def f64_of_units_nat scale(2)
    by (rule arg_cong [where f = of_nat], rule f64_round_mag_exact) simp_all
  then show p: "f64_of_nat (2 ^ 53) = f64_2p53"
    by (simp add: f64_2p53_def)
  let ?u = "(2 ^ 53 + 1) * f64_scale"
  have u: "?u = 2 ^ 52 * 2 ^ 1075 + f64_scale"
    by (simp only: distrib_right scale(2) mult_1)
  have half: "2 * f64_scale = 2 ^ 1075"
    by (simp add: f64_scale_def)
  have scale_pos: "0 < f64_scale"
    by (simp add: f64_scale_def)
  have "2 ^ (52 + 1075) \<le> ?u"
    unfolding u by (simp only: power_add)
  moreover have "?u < 2 ^ Suc (52 + 1075)"
  proof -
    have "0 < f64_scale"
      by (simp add: f64_scale_def)
    then have "f64_scale < 2 ^ 1075"
      unfolding half [symmetric] by linarith
    also have "(2 :: nat) ^ 1075 \<le> 2 ^ 52 * 2 ^ 1075"
      by (metis mult.left_neutral mult_le_mono1 one_le_numeral one_le_power)
    finally have "?u < 2 ^ 52 * 2 ^ 1075 + 2 ^ 52 * 2 ^ 1075"
      unfolding u by (rule add_strict_left_mono)
    then show ?thesis
      by (simp only: power_Suc power_add mult_2)
  qed
  ultimately have "nat_log2 ?u = 52 + 1075"
    by (rule nat_log2_eq)
  then have s: "nat_log2 ?u - 52 = 1075"
    by simp
  have d: "?u = f64_scale + 2 ^ 52 * 2 ^ 1075"
    unfolding u by (rule add.commute)
  have lt: "f64_scale < 2 ^ 1075"
    unfolding half [symmetric] using scale_pos by linarith
  have div: "?u div 2 ^ 1075 = 2 ^ 52" and mod: "?u mod 2 ^ 1075 = f64_scale"
    unfolding d using div_mod_digit [OF lt] by blast+
  have "f64_round_mag ?u = 1075 * 2 ^ 52 + 2 ^ 52"
    unfolding f64_round_mag_def Let_def s div mod half by simp
  then show "f64_of_nat (2 ^ 53 + 1) = f64_of_nat (2 ^ 53)"
    unfolding p unfolding f64_of_nat_def f64_of_units_nat f64_2p53_def by simp
qed

text \<open>At the limit, adding one rounds back to the limit.\<close>

lemma f64_add_one:
  assumes "0 < j" "j \<le> 2 ^ 53"
  shows "f64_add (f64_of_nat j) f64_one = f64_of_nat (min (j + 1) (2 ^ 53))"
proof -
  note one = f64_of_nat_exact [of 1, unfolded f64_of_nat_limits(1), simplified]
  have u: "f64_units (f64_of_nat j) + f64_units f64_one = int ((j + 1) * f64_scale)"
    by (simp add: f64_of_nat_exact [OF assms] one algebra_simps)
  have "0 < f64_scale"
    by (simp add: f64_scale_def)
  then have nz: "int f64_scale + int j * int f64_scale \<noteq> 0"
    using assms(1) by (metis add_pos_nonneg mult_nonneg_nonneg of_nat_0_le_iff of_nat_0_less_iff less_irrefl)
  have "f64_add (f64_of_nat j) f64_one = f64_of_nat (j + 1)"
    unfolding f64_add_def u f64_of_nat_def [of "j + 1"]
    using f64_of_nat_exact [OF assms] one nz by (simp add: Let_def)
  also have "\<dots> = f64_of_nat (min (j + 1) (2 ^ 53))"
    using assms f64_of_nat_limits(3) by (cases "j = 2 ^ 53") (auto simp: min_def)
  finally show ?thesis .
qed

section \<open>Numbers at and above the limit of the key generator\<close>

lemma nat_log2_bounds:
  assumes "0 < u"
  shows "2 ^ nat_log2 u \<le> u" and "u < 2 ^ Suc (nat_log2 u)"
proof -
  obtain k where "2 ^ k \<le> u" "u < 2 ^ (k + 1)"
    using ex_power_ivl1 [of 2 u] assms by auto
  then have "nat_log2 u = k"
    by (intro nat_log2_eq) auto
  with \<open>2 ^ k \<le> u\<close> \<open>u < 2 ^ (k + 1)\<close> show "2 ^ nat_log2 u \<le> u" "u < 2 ^ Suc (nat_log2 u)"
    by simp_all
qed

lemma f64_round_mag_le: "f64_round_mag u \<le> 2047 * 2 ^ 52"
  unfolding f64_round_mag_def Let_def by (rule min.cobounded2)

lemma f64_round_mag_ge:
  assumes u: "2 ^ (52 + s) \<le> u" and s: "s < 2046"
  shows "s * 2 ^ 52 + 2 ^ 52 \<le> f64_round_mag u"
proof -
  have pos: "0 < u"
    using u by (metis le_zero_eq not_gr_zero power_not_zero zero_neq_numeral)
  let ?k = "nat_log2 u"
  have "(2 :: nat) ^ (52 + s) < 2 ^ Suc ?k"
    using u nat_log2_bounds(2) [OF pos] by (rule le_less_trans)
  then have k: "52 + s \<le> ?k"
    using power_strict_increasing_iff [of "2 :: nat" "52 + s" "Suc ?k"] by simp
  define t where "t = ?k - 52"
  have kt: "?k = 52 + t" and st: "s \<le> t"
    using k by (simp_all add: t_def)
  have "2 ^ 52 * 2 ^ t \<le> u"
    using nat_log2_bounds(1) [OF pos] unfolding kt power_add .
  then have q: "2 ^ 52 \<le> u div 2 ^ t"
    by (metis div_le_mono nonzero_mult_div_cancel_right power_not_zero zero_neq_numeral)
  have "s * 2 ^ 52 + 2 ^ 52 \<le> t * 2 ^ 52 + u div 2 ^ t"
    using st q by (intro add_mono mult_le_mono1)
  moreover have "s * 2 ^ 52 + 2 ^ 52 \<le> 2047 * 2 ^ 52"
    using s by simp
  ultimately show ?thesis
    unfolding f64_round_mag_def Let_def t_def [symmetric] by (auto split: if_splits)
qed

text \<open>The doubles from the limit on, infinity included, by their magnitude bits.\<close>

definition f64_large :: "f64 \<Rightarrow> bool" where
  "f64_large x \<longleftrightarrow> (\<exists>m. x = of_nat m \<and> 1075 * 2 ^ 52 + 2 ^ 52 \<le> m \<and> m \<le> 2047 * 2 ^ 52)"

lemma f64_scale_limit: "2 ^ 53 * f64_scale = 2 ^ (52 + 1075)"
  by (simp add: f64_scale_def flip: power_add)

lemma f64_large_of_units:
  assumes "2 ^ 53 * f64_scale \<le> u"
  shows "f64_large (f64_of_units (int u))"
  using f64_round_mag_ge [of 1075 u] assms f64_round_mag_le [of u]
  unfolding f64_large_def f64_of_units_nat f64_scale_limit by auto

lemma f64_2p53_mag: "f64_2p53 = of_nat (1075 * 2 ^ 52 + 2 ^ 52)"
  by (simp add: f64_2p53_def)

lemma f64_units_2p53: "f64_units f64_2p53 = int (f64_mag_units (1075 * 2 ^ 52 + 2 ^ 52))"
  unfolding f64_2p53_mag by (rule f64_of_mag) simp

lemma f64_large_facts:
  assumes "f64_large x"
  shows "\<not> f64_is_nan x" and "x = f64_2p53 \<or> f64_units f64_2p53 < f64_units x"
proof -
  obtain m where m: "x = of_nat m" "1075 * 2 ^ 52 + 2 ^ 52 \<le> m" "m \<le> 2047 * 2 ^ 52"
    using assms unfolding f64_large_def by blast
  show "\<not> f64_is_nan x"
    unfolding m(1) by (rule f64_of_mag [OF m(3)])
  show "x = f64_2p53 \<or> f64_units f64_2p53 < f64_units x"
  proof (cases "m = 1075 * 2 ^ 52 + 2 ^ 52")
    case True
    then have "x = f64_2p53"
      by (simp only: m(1) f64_2p53_mag)
    then show ?thesis ..
  next
    case False
    with m(2) have "f64_mag_units (1075 * 2 ^ 52 + 2 ^ 52) < f64_mag_units m"
      by (intro f64_mag_units_mono) simp
    then show ?thesis
      unfolding m(1) f64_units_2p53 f64_of_mag(1) [OF m(3)] by simp
  qed
qed

lemma f64_min_large: "f64_large x \<Longrightarrow> f64_min x f64_2p53 = f64_2p53"
proof -
  assume x: "f64_large x"
  have "\<not> f64_is_nan f64_2p53"
    unfolding f64_of_nat_limits(2) [symmetric] by (rule f64_of_nat_exact) simp_all
  with f64_large_facts [OF x] show ?thesis
    unfolding f64_min_def by auto
qed

text \<open>
  The key generator after an explicit key \<open>n\<close>: the next whole number, and from the limit on
  the limit itself.
\<close>

lemma f64_units_finite_nonneg:
  assumes "0 < f64_units n" and "\<not> f64_is_inf n"
  shows "f64_floor n = f64_of_nat (nat (f64_units n) div f64_scale) \<or> f64_is_nan n"
proof -
  have "\<not> f64_is_zero n"
  proof
    assume "f64_is_zero n"
    then have "f64_canon n = 0"
      by (simp add: f64_canon_def)
    with f64_units_canon [of n] have "f64_units n = f64_units 0"
      by simp
    with assms(1) show False
      by (simp add: f64_units_def)
  qed
  moreover have "f64_units n div int f64_scale * int f64_scale =
      int (nat (f64_units n) div f64_scale * f64_scale)"
    using assms(1) by (simp add: zdiv_int)
  ultimately show ?thesis
    using assms(2) by (simp only: f64_floor_def f64_of_nat_def simp_thms if_False split: if_split) blast
qed

lemma f64_large_inf:
  assumes "f64_is_inf n" and "0 < f64_units n"
  shows "f64_large n"
proof -
  have "\<not> bit n 63"
    using assms(2) by (auto simp: f64_units_def Let_def)
  then have "n = n AND mask 63"
    by (intro bit_word_eqI) (auto simp: bit_simps intro: le_neq_trans [of _ 63, simplified])
  with assms(1) have "n = of_nat (2047 * 2 ^ 52)"
    by (simp add: f64_is_inf_def)
  then show ?thesis
    unfolding f64_large_def by (intro exI [of _ "2047 * 2 ^ 52"]) simp
qed

lemma f64_large_add_one:
  assumes "f64_large x"
  shows "f64_large (f64_add x f64_one)"
proof -
  note one = f64_of_nat_exact [of 1, unfolded f64_of_nat_limits(1), simplified]
  have nan: "\<not> f64_is_nan x"
    using assms by (rule f64_large_facts)
  have lim: "f64_units f64_2p53 = int (2 ^ 53 * f64_scale)"
    unfolding f64_of_nat_limits(2) [symmetric] by (rule f64_of_nat_exact) simp_all
  have ge: "int (2 ^ 53 * f64_scale) \<le> f64_units x"
    using f64_large_facts(2) [OF assms] unfolding lim by (auto simp only: lim)
  show ?thesis
  proof (cases "f64_is_inf x")
    case True
    with assms nan one show ?thesis
      by (simp add: f64_add_def)
  next
    case False
    define u where "u = nat (f64_units x + int f64_scale)"
    have sc: "0 < f64_scale"
      by (simp add: f64_scale_def)
    have u: "f64_units x + int f64_scale = int u"
      using ge sc unfolding u_def by simp
    have "0 < u"
      using ge sc u by linarith
    then have "f64_add x f64_one = f64_of_units (int u)"
      using nan one False by (simp add: f64_add_def u)
    moreover have "2 ^ 53 * f64_scale \<le> u"
      using ge u by linarith
    ultimately show ?thesis
      by (simp only: f64_large_of_units)
  qed
qed

lemma f64_next_key:
  assumes "0 < j" "j \<le> 2 ^ 53" and le: "f64_le (f64_of_nat j) n"
  shows "\<exists>k. j \<le> k \<and> k \<le> 2 ^ 53 \<and>
    f64_min (f64_add (f64_floor n) f64_one) (f64_add f64_2p53 f64_one) = f64_of_nat k"
proof -
  have limit: "f64_add f64_2p53 f64_one = f64_2p53"
  proof -
    have "f64_add (f64_of_nat (2 ^ 53)) f64_one = f64_of_nat (min (2 ^ 53 + 1) (2 ^ 53))"
      by (rule f64_add_one) simp_all
    also have "min (2 ^ 53 + 1) (2 ^ 53) = (2 ^ 53 :: nat)"
      by simp
    finally show ?thesis
      unfolding f64_of_nat_limits(2) .
  qed
  have sc: "0 < f64_scale"
    by (simp add: f64_scale_def)
  have units: "int (j * f64_scale) \<le> f64_units n" and nan: "\<not> f64_is_nan n"
    using le f64_of_nat_exact(1) [OF assms(1,2)] by (auto simp: f64_le_def)
  have pos: "0 < f64_units n"
    using units sc assms(1) by (metis less_le_trans of_nat_0_less_iff nat_0_less_mult_iff)
  have large: ?thesis if "f64_large (f64_floor n)"
    unfolding limit f64_min_large [OF f64_large_add_one [OF that]]
    using assms(2) f64_of_nat_limits(2) by (intro exI [of _ "2 ^ 53"]) simp
  show ?thesis
  proof (cases "f64_is_inf n")
    case True
    with large f64_large_inf [OF True pos] show ?thesis
      by (simp add: f64_floor_def)
  next
    case False
    define m where "m = nat (f64_units n) div f64_scale"
    have floor: "f64_floor n = f64_of_nat m"
      using f64_units_finite_nonneg [OF pos False] nan by (simp add: m_def)
    have "j * f64_scale \<le> nat (f64_units n)"
      using units by linarith
    then have jm: "j \<le> m"
      unfolding m_def using sc by (simp add: less_eq_div_iff_mult_less_eq)
    show ?thesis
    proof (cases "m < 2 ^ 53")
      case True
      have "f64_add (f64_floor n) f64_one = f64_of_nat (m + 1)"
        using f64_add_one [of m] jm assms(1) True by (simp add: floor min_def)
      moreover have "f64_min (f64_of_nat (m + 1)) f64_2p53 = f64_of_nat (m + 1)"
      proof -
        have "m + 1 \<le> 2 ^ 53"
          using True by simp
        then have "(m + 1) * f64_scale \<le> 2 ^ 53 * f64_scale"
          by (rule mult_le_mono1)
        then have "f64_units (f64_of_nat (m + 1)) \<le> f64_units (f64_of_nat (2 ^ 53))"
          using True by (simp only: f64_of_nat_exact(1))
        moreover have "\<not> f64_is_nan (f64_of_nat (m + 1))" "\<not> f64_is_nan (f64_of_nat (2 ^ 53))"
          using True by (intro f64_of_nat_exact; simp)+
        ultimately show ?thesis
          unfolding f64_of_nat_limits(2) [symmetric] f64_min_def by simp
      qed
      ultimately show ?thesis
        using jm True unfolding limit by (intro exI [of _ "m + 1"]) simp
    next
      case False
      have "2 ^ 53 * f64_scale \<le> m * f64_scale"
        using False by (intro mult_le_mono1) simp
      then have "f64_large (f64_floor n)"
        unfolding floor f64_of_nat_def by (rule f64_large_of_units)
      then show ?thesis
        by (rule large)
    qed
  qed
qed

end
