(* ===== verification/IdbKey.thy ===== *)
theory IdbKey
  imports Float64
begin

text \<open>
  IndexedDB keys (\<open>crates/pool/src/idb.rs\<close>, section \<open>keys\<close>): the \<open>Key\<close> enum, its
  order-preserving byte encoding, the decoder and the splitting of an index entry into
  index key and primary key. An \<open>f64\<close> is kept as its 64 bits. The lemmas show that
  decoding inverts encoding and consumes exactly the key, and that byte order of the
  encodings is the key order of the IndexedDB specification.
\<close>

section \<open>Keys and their encoding\<close>

datatype key =
    KNum f64
  | KDate f64
  | KStr "u16 list"
  | KBin bytes
  | KArr "key list"

definition T_END :: u8 where "T_END = 0x00"
definition T_NUM :: u8 where "T_NUM = 0x10"
definition T_DATE :: u8 where "T_DATE = 0x20"
definition T_STR :: u8 where "T_STR = 0x30"
definition T_BIN :: u8 where "T_BIN = 0x40"
definition T_ARR :: u8 where "T_ARR = 0x50"

lemmas tag_defs = T_END_def T_NUM_def T_DATE_def T_STR_def T_BIN_def T_ARR_def

definition num_bits :: "f64 \<Rightarrow> bytes" where
  "num_bits x =
     (let b = (if f64_is_zero x then 0 else x);
          w = (if drop_bit 63 b = 1 then NOT b else b OR sign_bit)
      in u64_to_be w)"

definition num_from_bits :: "bytes \<Rightarrow> f64" where
  "num_from_bits bs =
     (let w = u64_from_be bs
      in if drop_bit 63 w = 1 then w AND NOT sign_bit else NOT w)"

text \<open>\<open>put_escaped\<close> appends to \<open>out\<close>; the loop over the iterator is a fold.\<close>

definition put_escaped :: "bytes \<Rightarrow> bytes \<Rightarrow> bytes" where
  "put_escaped out bs =
     (let out = fold (\<lambda>b out. let out = out @ [b] in if b = 0 then out @ [0xFF] else out) bs out
      in out @ [0] @ [0])"

fun encode_into :: "bytes \<Rightarrow> key \<Rightarrow> bytes" where
  "encode_into out (KNum x) = out @ [T_NUM] @ num_bits x"
| "encode_into out (KDate x) = out @ [T_DATE] @ num_bits x"
| "encode_into out (KStr units) = put_escaped (out @ [T_STR]) (concat (map u16_to_be units))"
| "encode_into out (KBin bs) = put_escaped (out @ [T_BIN]) bs"
| "encode_into out (KArr items) = foldl encode_into (out @ [T_ARR]) items @ [T_END]"

definition encode :: "key \<Rightarrow> bytes" where
  "encode k = encode_into [] k"

text \<open>
  The decoder reads from a suffix of the buffer and returns what is left, in place of the
  position \<open>pos\<close>. \<open>chunks_exact(2)\<close> leaves out a trailing odd byte.
\<close>

fun unescape :: "bytes \<Rightarrow> (bytes \<times> bytes) option" where
  "unescape [] = None"
| "unescape (x # b) =
     (if x = 0 then
        (case b of
           [] \<Rightarrow> None
         | y # b' \<Rightarrow>
             if y = 0 then Some ([], b')
             else map_option (\<lambda>(out, r). (0 # out, r)) (unescape b'))
      else map_option (\<lambda>(out, r). (x # out, r)) (unescape b))"

fun chunks2 :: "bytes \<Rightarrow> u16 list" where
  "chunks2 (a # b # r) = u16_from_be [a, b] # chunks2 r"
| "chunks2 _ = []"

lemma unescape_shorter: "unescape b = Some (out, r) \<Longrightarrow> length r < length b"
  by (induction b arbitrary: out r rule: unescape.induct)
    (fastforce split: if_splits list.splits)+

function (sequential) decode_at :: "bytes \<Rightarrow> (key \<times> bytes) option"
  and decode_items :: "bytes \<Rightarrow> (key list \<times> bytes) option" where
  "decode_at [] = None"
| "decode_at (tag # b) =
     (if tag = T_NUM \<or> tag = T_DATE then
        (if length b < 8 then None
         else let x = num_from_bits (take 8 b)
              in Some (if tag = T_NUM then KNum x else KDate x, drop 8 b))
      else if tag = T_STR then map_option (\<lambda>(raw, r). (KStr (chunks2 raw), r)) (unescape b)
      else if tag = T_BIN then map_option (\<lambda>(raw, r). (KBin raw, r)) (unescape b)
      else if tag = T_ARR then map_option (\<lambda>(items, r). (KArr items, r)) (decode_items b)
      else None)"
| "decode_items [] = None"
| "decode_items (x # b) =
     (if x = T_END then Some ([], b)
      else (case decode_at (x # b) of
              None \<Rightarrow> None
            | Some (k, r) \<Rightarrow>
                map_option (\<lambda>(items, r'). (k # items, r')) (decode_items r)))"
  by pat_completeness auto

lemma decode_shorter:
  "decode_at_decode_items_dom (Inl b) \<Longrightarrow> decode_at b = Some (k, r) \<Longrightarrow> length r < length b"
  "decode_at_decode_items_dom (Inr b) \<Longrightarrow> decode_items b = Some (ks, r) \<Longrightarrow> length r < length b"
proof (induction b and b arbitrary: k r and ks r rule: decode_at_decode_items.pinduct)
  case (2 tag b)
  then show ?case
    by (auto simp: decode_at.psimps Let_def split: if_splits dest!: unescape_shorter)
next
  case (4 x b)
  then show ?case
    by (auto simp: decode_items.psimps split: if_splits option.splits) fastforce+
qed (auto simp: decode_at.psimps decode_items.psimps)

termination decode_at
  by (relation "measure (\<lambda>x. case x of Inl b \<Rightarrow> 2 * length b | Inr b \<Rightarrow> 2 * length b + 1)")
    (auto dest!: decode_shorter)

definition decode :: "bytes \<Rightarrow> key option" where
  "decode b = map_option fst (decode_at b)"

definition encoded_len :: "bytes \<Rightarrow> nat option" where
  "encoded_len b = map_option (\<lambda>(_, r). length b - length r) (decode_at b)"

definition split_entry :: "bytes \<Rightarrow> bytes \<times> bytes" where
  "split_entry e =
     (let n = (case encoded_len e of Some n \<Rightarrow> n | None \<Rightarrow> length e) in (take n e, drop n e))"

section \<open>The encoding, append-free\<close>

definition escaped :: "bytes \<Rightarrow> bytes" where
  "escaped bs = concat (map (\<lambda>b. if b = 0 then [0, 0xFF] else [b]) bs) @ [0, 0]"

lemma put_escaped_eq: "put_escaped out bs = out @ escaped bs"
proof -
  have "fold (\<lambda>b out. let out = out @ [b] in if b = 0 then out @ [0xFF] else out) bs out =
      out @ concat (map (\<lambda>b. if b = 0 then [0, 0xFF] else [b]) bs)"
    by (induction bs arbitrary: out) (auto simp: Let_def)
  then show ?thesis
    by (simp add: put_escaped_def escaped_def)
qed

lemma foldl_append_only:
  assumes "\<And>k out. k \<in> set ks \<Longrightarrow> f out k = out @ f [] k"
  shows "foldl f out ks = out @ concat (map (f []) ks)"
  using assms
proof (induction ks arbitrary: out)
  case (Cons k ks)
  have "f out k = out @ f [] k"
    by (rule Cons.prems) simp
  moreover have "foldl f (f out k) ks = f out k @ concat (map (f []) ks)"
    by (rule Cons.IH) (rule Cons.prems, simp)
  ultimately show ?case
    by (simp only: foldl_Cons list.map concat.simps append_assoc)
qed simp

lemma encode_into_eq: "encode_into out k = out @ encode k"
proof -
  have "encode_into out k = out @ encode_into [] k" for out
  proof (induction k arbitrary: out)
    case (KArr items)
    have "foldl encode_into out' items = out' @ concat (map (encode_into []) items)" for out'
      by (rule foldl_append_only) (rule KArr)
    then show ?case
      by (simp only: encode_into.simps append_assoc append_Nil)
  qed (simp_all add: put_escaped_eq)
  then show ?thesis
    unfolding encode_def by blast
qed

lemma foldl_encode_into: "foldl encode_into out ks = out @ concat (map encode ks)"
  by (induction ks arbitrary: out) (auto simp: encode_into_eq)

lemma encode_simps [simp]:
  "encode (KNum x) = T_NUM # num_bits x"
  "encode (KDate x) = T_DATE # num_bits x"
  "encode (KStr us) = T_STR # escaped (concat (map u16_to_be us))"
  "encode (KBin bs) = T_BIN # escaped bs"
  "encode (KArr ks) = T_ARR # concat (map encode ks) @ [T_END]"
  by (simp_all add: encode_def put_escaped_eq foldl_encode_into)

lemma escaped_simps [simp]:
  "escaped [] = [0, 0]"
  "escaped (b # bs) = (if b = 0 then 0 # 0xFF # escaped bs else b # escaped bs)"
  by (auto simp: escaped_def)

section \<open>Round trip\<close>

text \<open>The only key the encoding does not keep as it is: minus zero becomes zero.\<close>

fun key_canon :: "key \<Rightarrow> key" where
  "key_canon (KNum x) = KNum (f64_canon x)"
| "key_canon (KDate x) = KDate (f64_canon x)"
| "key_canon (KArr ks) = KArr (map key_canon ks)"
| "key_canon k = k"

lemma length_num_bits [simp]: "length (num_bits x) = 8"
  by (simp add: num_bits_def Let_def)

lemma num_from_bits_num_bits [simp]: "num_from_bits (num_bits x) = f64_canon x"
  unfolding num_bits_def num_from_bits_def f64_canon_def Let_def top_bit_u64
  by (auto simp: bit_simps intro!: bit_word_eqI)

lemma unescape_escaped: "unescape (escaped bs @ r) = Some (bs, r)"
  by (induction bs) auto

lemma chunks2_u16: "chunks2 (concat (map u16_to_be us)) = us"
proof (induction us)
  case (Cons u us)
  obtain a b where ab: "u16_to_be u = [a, b]"
    by (auto simp: u16_to_be_def numeral_2_eq_2)
  then have "u16_from_be [a, b] = u"
    by (metis u16_from_to_be)
  with ab Cons show ?case
    by simp
qed simp

lemma decode_encode_append: "decode_at (encode k @ r) = Some (key_canon k, r)"
proof (induction k arbitrary: r)
  case (KArr ks)
  have "decode_items (concat (map encode ks) @ T_END # r) = Some (map key_canon ks, r)"
    using KArr
  proof (induction ks)
    case (Cons k ks)
    obtain x b where xb: "encode k = x # b" "x \<noteq> T_END"
      by (cases k) (auto simp: tag_defs)
    from Cons.prems have "decode_at (encode k @ concat (map encode ks) @ T_END # r) =
        Some (key_canon k, concat (map encode ks) @ T_END # r)"
      by simp
    with xb Cons show ?case
      by simp
  qed simp
  then show ?case
    by (simp add: tag_defs)
qed (simp_all add: unescape_escaped chunks2_u16, simp_all add: tag_defs)

lemma decode_encode: "decode (encode k) = Some (key_canon k)"
  using decode_encode_append [of k "[]"] by (simp add: decode_def)

lemma split_entry_encode: "split_entry (encode k @ pk) = (encode k, pk)"
  by (simp add: split_entry_def encoded_len_def decode_encode_append)

section \<open>Byte order is key order\<close>

subsection \<open>Numbers\<close>

definition num_word :: "f64 \<Rightarrow> u64" where
  "num_word x =
     (let b = f64_canon x in if bit b 63 then NOT b else b OR sign_bit)"

lemma num_bits_eq: "num_bits x = u64_to_be (num_word x)"
  by (simp add: num_bits_def num_word_def f64_canon_def top_bit_u64 Let_def)

lemma unat_num_word:
  "unat (num_word x) =
     (if bit (f64_canon x) 63 then 2 ^ 63 - 1 - unat (f64_canon x AND mask 63)
      else 2 ^ 63 + unat (f64_canon x AND mask 63))"
proof (cases "bit (f64_canon x) 63")
  case True
  then have "unat (f64_canon x) = 2 ^ 63 + unat (f64_canon x AND mask 63)"
    by (subst unat_split_sign) simp
  moreover have "unat (NOT (f64_canon x)) = 2 ^ 64 - 1 - unat (f64_canon x)"
  proof -
    have "NOT (f64_canon x) = - 1 - f64_canon x"
      by (simp add: not_eq_complement)
    moreover have "unat (- 1 - f64_canon x) = unat (- 1 :: u64) - unat (f64_canon x)"
      by (rule unat_sub) simp
    moreover have "unat (- 1 :: u64) = 2 ^ 64 - 1"
      by (simp add: unsigned_minus_1_eq_mask mask_eq_exp_minus_1)
    ultimately show ?thesis
      by simp
  qed
  ultimately show ?thesis
    using True by (simp add: num_word_def Let_def)
next
  case False
  have "bit (f64_canon x OR sign_bit) 63"
    by (simp add: bit_simps)
  moreover have "(f64_canon x OR sign_bit) AND mask 63 = f64_canon x AND mask 63"
    by (rule bit_word_eqI) (auto simp: bit_simps)
  ultimately have "unat (f64_canon x OR sign_bit) = 2 ^ 63 + unat (f64_canon x AND mask 63)"
    by (subst unat_split_sign) simp
  with False show ?thesis
    by (simp add: num_word_def Let_def)
qed

lemma num_bits_less: "num_bits x < num_bits y \<longleftrightarrow> f64_units x < f64_units y"
proof -
  let ?m = "\<lambda>x. unat (f64_canon x AND mask 63)"
  have u: "f64_units x = (if bit (f64_canon x) 63 then - int (f64_mag_units (?m x)) else int (f64_mag_units (?m x)))"
    for x
    by (subst f64_units_canon [symmetric]) (simp add: f64_units_def Let_def)
  have "?m x < 2 ^ 63" for x
    using take_bit_nat_less_exp [of 63 "unat (f64_canon x)"]
    by (simp add: unsigned_take_bit_eq flip: take_bit_eq_mask)
  then have b: "?m x \<le> 2 ^ 63 - 1" for x
    by (metis Suc_pred' less_Suc_eq_le zero_less_numeral zero_less_power)
  have "num_bits x < num_bits y \<longleftrightarrow> unat (num_word x) < unat (num_word y)"
    by (simp add: num_bits_eq u64_to_be_less word_less_nat_alt)
  also have "\<dots> \<longleftrightarrow> f64_units x < f64_units y"
    using b [of x] b [of y] f64_canon_neg [of x] f64_canon_neg [of y]
      f64_mag_units_pos [of "?m x"] f64_mag_units_pos [of "?m y"]
    by (auto simp: unat_num_word u f64_mag_units_less simp del: f64_mag_units_pos)
  finally show ?thesis .
qed

subsection \<open>The key order of the IndexedDB specification\<close>

text \<open>
  Numbers come before dates, dates before strings, strings before binary keys and binary
  keys before arrays; numbers and dates compare by value, strings by code units, binary
  keys by bytes, arrays item by item, a prefix first.
\<close>

fun key_rank :: "key \<Rightarrow> nat" where
  "key_rank (KNum _) = 0"
| "key_rank (KDate _) = 1"
| "key_rank (KStr _) = 2"
| "key_rank (KBin _) = 3"
| "key_rank (KArr _) = 4"

fun key_less :: "key \<Rightarrow> key \<Rightarrow> bool"
  and keys_less :: "key list \<Rightarrow> key list \<Rightarrow> bool" where
  "key_less (KNum x) (KNum y) = (f64_units x < f64_units y)"
| "key_less (KDate x) (KDate y) = (f64_units x < f64_units y)"
| "key_less (KStr u) (KStr v) = (u < v)"
| "key_less (KBin u) (KBin v) = (u < v)"
| "key_less (KArr xs) (KArr ys) = keys_less xs ys"
| "key_less a b = (key_rank a < key_rank b)"
| "keys_less [] ys = (ys \<noteq> [])"
| "keys_less (x # xs) [] = False"
| "keys_less (x # xs) (y # ys) =
     (key_less x y \<or> (key_canon x = key_canon y \<and> keys_less xs ys))"

lemma num_bits_inj: "num_bits x = num_bits y \<longleftrightarrow> f64_canon x = f64_canon y"
  by (metis num_bits_eq num_from_bits_num_bits num_word_def)

lemma escaped_less: "(escaped xs @ s < escaped ys @ t) = (xs < ys \<or> (xs = ys \<and> s < t))"
proof (induction xs arbitrary: ys)
  case Nil
  show ?case
    by (cases ys) (auto simp: word_gt_0)
next
  case (Cons x xs)
  show ?case
    using Cons by (cases ys) (auto simp: word_gt_0)
qed

lemma concat_u16_less:
  "(concat (map u16_to_be xs) < concat (map u16_to_be ys)) = (xs < ys)"
proof (induction xs arbitrary: ys)
  case Nil
  have "\<exists>a b. u16_to_be v = [a, b]" for v
    by (auto simp: u16_to_be_def numeral_2_eq_2)
  then show ?case
    by (cases ys) (simp, metis Nil_less_Cons append_Cons concat.simps list.map)
next
  case (Cons x xs)
  show ?case
  proof (cases ys)
    case (Cons y zs)
    have "(concat (map u16_to_be (x # xs)) < concat (map u16_to_be (y # zs))) =
        (u16_to_be x < u16_to_be y \<or>
          (u16_to_be x = u16_to_be y \<and> concat (map u16_to_be xs) < concat (map u16_to_be zs)))"
      by (simp add: less_append_length)
    with Cons Cons.IH show ?thesis
      by (simp add: u16_to_be_less)
  qed simp
qed

lemma concat_u16_inj:
  "(concat (map u16_to_be xs) = concat (map u16_to_be ys)) = (xs = ys)"
  by (metis chunks2_u16)

lemma encode_Cons: "\<exists>x b. encode k = x # b \<and> T_END < x \<and> x < 0x60"
  by (cases k) (auto simp: tag_defs)

lemma encode_less:
  "(encode a @ s < encode b @ t) = (key_less a b \<or> (key_canon a = key_canon b \<and> s < t))"
  "(concat (map encode xs) @ T_END # s < concat (map encode ys) @ T_END # t) =
     (keys_less xs ys \<or> (map key_canon xs = map key_canon ys \<and> s < t))"
proof (induction a b and xs ys arbitrary: s t and s t rule: key_less_keys_less.induct)
  case (7 ys)
  then show ?case
    using encode_Cons [of "hd ys"] by (cases ys) (auto simp: tag_defs)
next
  case (8 x xs)
  then show ?case
    using encode_Cons [of x] by (auto simp: tag_defs)
next
  case (9 x xs y ys)
  then show ?case
    by auto
qed (simp_all add: less_append_length num_bits_less num_bits_inj escaped_less concat_u16_less
      concat_u16_inj, simp_all add: tag_defs)


lemma encode_canon: "encode (key_canon k) = encode k"
proof (induction k)
  case (KArr ks)
  then have "map (encode \<circ> key_canon) ks = map encode ks"
    by simp
  then show ?case
    by (metis encode_simps(5) key_canon.simps(3) list.map_comp)
qed (simp_all add: num_bits_inj)

lemma encode_inj: "encode a = encode b \<longleftrightarrow> key_canon a = key_canon b"
  by (metis decode_encode encode_canon option.inject)

lemma encode_append_inj: "encode a @ s = encode b @ t \<longleftrightarrow> encode a = encode b \<and> s = t"
proof
  assume "encode a @ s = encode b @ t"
  then have "Some (key_canon a, s) = Some (key_canon b, t)"
    by (metis decode_encode_append)
  then show "encode a = encode b \<and> s = t"
    by (simp add: encode_inj)
qed simp

text \<open>The encodings, and the index entries made of two of them.\<close>

definition is_enc :: "bytes \<Rightarrow> bool" where
  "is_enc b \<longleftrightarrow> (\<exists>k. b = encode k)"

lemma is_enc_encode [simp, intro]: "is_enc (encode k)"
  by (auto simp: is_enc_def)

lemma is_enc_append_inj:
  "is_enc a \<Longrightarrow> is_enc b \<Longrightarrow> a @ s = b @ t \<longleftrightarrow> a = b \<and> s = t"
  by (auto simp: is_enc_def encode_append_inj)

lemma split_entry_enc [simp]: "is_enc k \<Longrightarrow> split_entry (k @ pk) = (k, pk)"
  by (auto simp: is_enc_def split_entry_encode)

lemma is_enc_less_FF: "is_enc k \<Longrightarrow> k < 0xFF # s"
proof -
  assume "is_enc k"
  then obtain x b where "k = x # b" "x < 0x60"
    by (metis encode_Cons is_enc_def)
  moreover have "x < 0xFF"
    using \<open>x < 0x60\<close> by (rule less_trans) simp
  ultimately show ?thesis
    by simp
qed

text \<open>
  The entries of index key \<open>k\<close> lie between \<open>k\<close> and \<open>k\<close> followed by \<open>0xFF\<close>: the bounds
  the range code builds.
\<close>

lemma entry_range:
  assumes "is_enc k" "is_enc k'" "is_enc p"
  shows "k \<le> k' @ p \<longleftrightarrow> k \<le> k'"
    and "k' @ p < k \<longleftrightarrow> k' < k"
    and "k' @ p < k @ [0xFF] \<longleftrightarrow> k' \<le> k"
proof -
  obtain a b where ab: "k = encode a" "k' = encode b"
    using assms by (auto simp: is_enc_def)
  have less: "encode a < encode b \<longleftrightarrow> key_less a b" for a b
    using encode_less(1) [of a "[]" b "[]"] by simp
  show 2: "k' @ p < k \<longleftrightarrow> k' < k"
    using encode_less(1) [of b p a "[]"] by (simp add: ab less)
  then show "k \<le> k' @ p \<longleftrightarrow> k \<le> k'"
    by (simp add: not_less flip: linorder_not_less)
  show "k' @ p < k @ [0xFF] \<longleftrightarrow> k' \<le> k"
    using encode_less(1) [of b p a "[0xFF]"] is_enc_less_FF [OF assms(3)]
    by (auto simp: ab less encode_inj order_le_less)
qed

section \<open>Properties\<close>

text \<open>
  Claim C3. Decoding the encoding of a key gives the key back, with minus zero read as
  zero, whatever bytes follow it, and leaves those bytes: an index entry splits into the
  index key and the primary key it was built from.
\<close>

theorem key_encoding_round_trip:
  "decode (encode k) = Some (key_canon k) \<and>
   decode_at (encode k @ rest) = Some (key_canon k, rest) \<and>
   split_entry (encode k @ encode pk) = (encode k, encode pk)"
  by (simp add: decode_encode decode_encode_append)

text \<open>
  Claim C4. Byte order of the encodings is the key order of IndexedDB (number, date,
  string, binary, array; numbers by value), two keys have one encoding exactly when they
  differ at most in the sign of a zero, and index entries sort by index key, then by
  primary key.
\<close>

theorem key_encoding_order:
  "(encode a < encode b) = key_less a b \<and>
   (encode a = encode b) = (key_canon a = key_canon b) \<and>
   (encode a @ encode p < encode b @ encode q) =
     (key_less a b \<or> (key_canon a = key_canon b \<and> key_less p q))"
  using encode_less(1) [of a "[]" b "[]"] encode_less(1) [of p "[]" q "[]"]
  by (simp add: encode_less(1) encode_inj)

end
