(* ===== verification/IdbValue.thy ===== *)
theory IdbValue
  imports IdbKey
begin

text \<open>
  JavaScript values as \<open>crates/pool/src/idb.rs\<close> reads them: conversion of a value to a key
  and back, key paths, index keys and the injection of a generated key. V8 is outside the
  repository, so the engine is the parameter \<open>V\<close>: a record of the calls the code makes.
  Calls that may run page code thread the isolate's state. A native that exhausts its stack
  or panics has no result; that is the outcome \<open>None\<close> of an effect, and \<open>n\<close> bounds the
  recursion of \<open>key_from_value\<close>, which page code can make as deep as it likes.
\<close>

section \<open>Effects\<close>

type_synonym ('s, 'a) eff = "'s \<Rightarrow> ('a \<times> 's) option"

definition ret :: "'a \<Rightarrow> ('s, 'a) eff" where
  "ret x = (\<lambda>s. Some (x, s))"

definition call :: "('s \<Rightarrow> 'a \<times> 's) \<Rightarrow> ('s, 'a) eff" where
  "call f = (\<lambda>s. Some (f s))"

definition reads :: "('s \<Rightarrow> 'a) \<Rightarrow> ('s, 'a) eff" where
  "reads f = (\<lambda>s. Some (f s, s))"

definition crash :: "('s, 'a) eff" where
  "crash = (\<lambda>s. None)"

definition and_then :: "('s, 'a) eff \<Rightarrow> ('a \<Rightarrow> ('s, 'b) eff) \<Rightarrow> ('s, 'b) eff" where
  "and_then m f = (\<lambda>s. case m s of None \<Rightarrow> None | Some (x, s') \<Rightarrow> f x s')"

text \<open>\<open>unwrap\<close> of a call that may throw.\<close>

definition unwrapped :: "('s \<Rightarrow> 'a option \<times> 's) \<Rightarrow> ('s, 'a) eff" where
  "unwrapped f = (\<lambda>s. case f s of (None, _) \<Rightarrow> None | (Some x, s') \<Rightarrow> Some (x, s'))"

named_theorems eff_simps \<open>running an effect\<close>

lemma ret_eq [eff_simps]: "ret x s = Some (y, s') \<longleftrightarrow> y = x \<and> s' = s"
  by (auto simp: ret_def)

lemma call_eq [eff_simps]: "call f s = Some (y, s') \<longleftrightarrow> f s = (y, s')"
  by (auto simp: call_def)

lemma reads_eq [eff_simps]: "reads f s = Some (y, s') \<longleftrightarrow> y = f s \<and> s' = s"
  by (auto simp: reads_def)

lemma crash_eq [eff_simps]: "crash s \<noteq> Some r"
  by (simp add: crash_def)

lemma and_then_eq [eff_simps]:
  "and_then m f s = Some (y, s'') \<longleftrightarrow> (\<exists>x s'. m s = Some (x, s') \<and> f x s' = Some (y, s''))"
  by (auto simp: and_then_def split: option.splits)

text \<open>What an effect yields when it returns, whatever the state.\<close>

definition yields :: "('s, 'a) eff \<Rightarrow> ('a \<Rightarrow> bool) \<Rightarrow> bool" where
  "yields m P \<longleftrightarrow> (\<forall>s x s'. m s = Some (x, s') \<longrightarrow> P x)"

named_theorems yields_intros \<open>what an effect yields\<close>

lemma yieldsD: "yields m P \<Longrightarrow> m s = Some (x, s') \<Longrightarrow> P x"
  by (auto simp: yields_def)

lemma yields_ret [yields_intros]: "P x \<Longrightarrow> yields (ret x) P"
  by (simp add: yields_def eff_simps)

lemma yields_crash [yields_intros]: "yields crash P"
  by (simp add: yields_def eff_simps)

lemma yields_bind [yields_intros]: "(\<And>x. yields (f x) P) \<Longrightarrow> yields (and_then m f) P"
  by (auto simp: yields_def eff_simps)

lemma yields_bind_with: "yields m Q \<Longrightarrow> (\<And>x. Q x \<Longrightarrow> yields (f x) P) \<Longrightarrow> yields (and_then m f) P"
  by (fastforce simp: yields_def eff_simps)

lemma yields_if [yields_intros]:
  "(b \<Longrightarrow> yields m P) \<Longrightarrow> (\<not> b \<Longrightarrow> yields m' P) \<Longrightarrow> yields (if b then m else m') P"
  by simp

lemma yields_option [yields_intros]:
  "(x = None \<Longrightarrow> yields m P) \<Longrightarrow> (\<And>y. x = Some y \<Longrightarrow> yields (f y) P) \<Longrightarrow>
   yields (case x of None \<Rightarrow> m | Some y \<Rightarrow> f y) P"
  by (cases x) auto

lemma yields_sum [yields_intros]:
  "(\<And>y. x = Inl y \<Longrightarrow> yields (f y) P) \<Longrightarrow> (\<And>y. x = Inr y \<Longrightarrow> yields (g y) P) \<Longrightarrow>
   yields (case x of Inl y \<Rightarrow> f y | Inr y \<Rightarrow> g y) P"
  by (cases x) auto

section \<open>The engine\<close>

record ('s, 'v) v8 =
  v8_is_number :: "'v \<Rightarrow> bool"
  v8_is_string :: "'v \<Rightarrow> bool"
  v8_is_date :: "'v \<Rightarrow> bool"
  v8_is_array_buffer :: "'v \<Rightarrow> bool"
  v8_is_array_buffer_view :: "'v \<Rightarrow> bool"
  v8_is_array :: "'v \<Rightarrow> bool"
  v8_is_object :: "'v \<Rightarrow> bool"
  v8_is_null_or_undefined :: "'v \<Rightarrow> bool"
  v8_is_undefined :: "'v \<Rightarrow> bool"
  v8_strict_equals :: "'v \<Rightarrow> 'v \<Rightarrow> bool"
  v8_boolean_value :: "'v \<Rightarrow> bool"
  v8_number_value :: "'v \<Rightarrow> f64 option"
  v8_string_units :: "'v \<Rightarrow> u16 list"
  v8_date_value :: "'v \<Rightarrow> f64"
  v8_was_detached :: "'v \<Rightarrow> 's \<Rightarrow> bool"
  v8_buffer_bytes :: "'v \<Rightarrow> 's \<Rightarrow> bytes"
  v8_view_bytes :: "'v \<Rightarrow> 's \<Rightarrow> bytes"
  v8_array_length :: "'v \<Rightarrow> 's \<Rightarrow> nat"
  v8_has_own :: "'v \<Rightarrow> string \<Rightarrow> 's \<Rightarrow> bool option \<times> 's"
  v8_get :: "'v \<Rightarrow> string \<Rightarrow> 's \<Rightarrow> 'v option \<times> 's"
  v8_get_index :: "'v \<Rightarrow> nat \<Rightarrow> 's \<Rightarrow> 'v option \<times> 's"
  v8_to_utf8 :: "'v \<Rightarrow> 's \<Rightarrow> string \<times> 's"
  v8_create_data_property :: "'v \<Rightarrow> string \<Rightarrow> 'v \<Rightarrow> 's \<Rightarrow> bool option \<times> 's"
  v8_undefined :: 'v
  v8_new_number :: "f64 \<Rightarrow> 's \<Rightarrow> 'v \<times> 's"
  v8_new_date :: "f64 \<Rightarrow> 's \<Rightarrow> 'v option \<times> 's"
  v8_new_string :: "u16 list \<Rightarrow> 's \<Rightarrow> 'v option \<times> 's"
  v8_new_array_buffer :: "bytes \<Rightarrow> 's \<Rightarrow> 'v \<times> 's"
  v8_new_array :: "'v list \<Rightarrow> 's \<Rightarrow> 'v \<times> 's"
  v8_new_object :: "'s \<Rightarrow> 'v \<times> 's"
  v8_write_value :: "'v \<Rightarrow> 's \<Rightarrow> (bytes option \<times> string option) \<times> 's"
  v8_read_header :: "bytes \<Rightarrow> 's \<Rightarrow> bool \<times> 's"
  v8_read_value :: "bytes \<Rightarrow> 's \<Rightarrow> 'v option \<times> 's"

section \<open>Values to keys and back\<close>

text \<open>
  The loop over an array's elements, with the conversion \<open>conv\<close> of one element as an
  argument. An element that is missing, throws or is no key ends the loop with \<open>None\<close>.
\<close>

fun array_items ::
  "('s, 'v) v8 \<Rightarrow> ('v \<Rightarrow> ('s, key option) eff) \<Rightarrow> 'v \<Rightarrow> nat list \<Rightarrow> key list \<Rightarrow>
   ('s, key option) eff" where
  "array_items V conv arr [] items = ret (Some (KArr items))"
| "array_items V conv arr (i # is) items =
     and_then (call (v8_has_own V arr (nat_str i))) (\<lambda>has.
       if has \<noteq> Some True then ret None
       else and_then (call (v8_get_index V arr i)) (\<lambda>item.
         case item of
           None \<Rightarrow> ret None
         | Some item \<Rightarrow>
             and_then (conv item) (\<lambda>k.
               case k of
                 None \<Rightarrow> ret None
               | Some k \<Rightarrow> array_items V conv arr is (items @ [k]))))"

fun key_from_value :: "('s, 'v) v8 \<Rightarrow> nat \<Rightarrow> 'v \<Rightarrow> 'v list \<Rightarrow> ('s, key option) eff" where
  "key_from_value V 0 v seen = crash"
| "key_from_value V (Suc n) v seen =
     (if v8_is_number V v then
        (case v8_number_value V v of
           None \<Rightarrow> ret None
         | Some x \<Rightarrow> ret (if f64_is_nan x then None else Some (KNum x)))
      else if v8_is_string V v then ret (Some (KStr (v8_string_units V v)))
      else if v8_is_date V v then
        (let x = v8_date_value V v in ret (if f64_is_nan x then None else Some (KDate x)))
      else if v8_is_array_buffer V v then
        and_then (reads (v8_was_detached V v)) (\<lambda>detached.
          if detached then ret None
          else and_then (reads (v8_buffer_bytes V v)) (\<lambda>out. ret (Some (KBin out))))
      else if v8_is_array_buffer_view V v then
        and_then (reads (v8_view_bytes V v)) (\<lambda>out. ret (Some (KBin out)))
      else if v8_is_array V v then
        (if \<exists>x \<in> set seen. v8_strict_equals V x v then ret None
         else and_then (reads (v8_array_length V v)) (\<lambda>len.
           array_items V (\<lambda>item. key_from_value V n item (seen @ [v])) v [0..<len] []))
      else ret None)"

definition to_key :: "('s, 'v) v8 \<Rightarrow> nat \<Rightarrow> 'v \<Rightarrow> ('s, key option) eff" where
  "to_key V n v = key_from_value V n v []"

definition or_undefined :: "('s, 'v) v8 \<Rightarrow> ('s \<Rightarrow> 'v option \<times> 's) \<Rightarrow> 's \<Rightarrow> 'v \<times> 's" where
  "or_undefined V f s = (case f s of (v, s') \<Rightarrow> (case v of Some v \<Rightarrow> v | None \<Rightarrow> v8_undefined V, s'))"

fun key_to_value :: "('s, 'v) v8 \<Rightarrow> key \<Rightarrow> 's \<Rightarrow> 'v \<times> 's"
  and keys_to_values :: "('s, 'v) v8 \<Rightarrow> key list \<Rightarrow> 's \<Rightarrow> 'v list \<times> 's" where
  "key_to_value V (KNum x) s = v8_new_number V x s"
| "key_to_value V (KDate x) s = or_undefined V (v8_new_date V x) s"
| "key_to_value V (KStr u) s = or_undefined V (v8_new_string V u) s"
| "key_to_value V (KBin b) s = v8_new_array_buffer V b s"
| "key_to_value V (KArr items) s =
     (case keys_to_values V items s of (vals, s') \<Rightarrow> v8_new_array V vals s')"
| "keys_to_values V [] s = ([], s)"
| "keys_to_values V (k # ks) s =
     (case key_to_value V k s of (v, s1) \<Rightarrow>
      case keys_to_values V ks s1 of (vs, s2) \<Rightarrow> (v # vs, s2))"

section \<open>Key paths\<close>

datatype key_path = PNone | PStr string | PArr "string list"

fun path_items :: "('s, 'v) v8 \<Rightarrow> 'v \<Rightarrow> nat list \<Rightarrow> string list \<Rightarrow> ('s, string list) eff" where
  "path_items V arr [] out = ret out"
| "path_items V arr (i # is) out =
     and_then (call (or_undefined V (v8_get_index V arr i))) (\<lambda>item.
     and_then (call (v8_to_utf8 V item)) (\<lambda>t. path_items V arr is (out @ [t])))"

definition key_path_from_value :: "('s, 'v) v8 \<Rightarrow> 'v \<Rightarrow> ('s, key_path) eff" where
  "key_path_from_value V v =
     (if v8_is_null_or_undefined V v then ret PNone
      else if v8_is_array V v then
        and_then (reads (v8_array_length V v)) (\<lambda>len.
        and_then (path_items V v [0..<len] []) (\<lambda>out. ret (PArr out)))
      else and_then (call (v8_to_utf8 V v)) (\<lambda>t. ret (PStr t)))"

fun eval_idents :: "('s, 'v) v8 \<Rightarrow> 'v \<Rightarrow> string list \<Rightarrow> ('s, 'v option) eff" where
  "eval_idents V cur [] = ret (Some cur)"
| "eval_idents V cur (ident # rest) =
     (if ident = ''length'' \<and> (v8_is_string V cur \<or> v8_is_array V cur) then
        and_then (if v8_is_string V cur then ret (length (v8_string_units V cur))
                  else reads (v8_array_length V cur)) (\<lambda>n.
        and_then (call (v8_new_number V (f64_of_nat n))) (\<lambda>cur. eval_idents V cur rest))
      else if \<not> v8_is_object V cur then ret None
      else and_then (call (v8_has_own V cur ident)) (\<lambda>has.
        if has \<noteq> Some True then ret None
        else and_then (call (v8_get V cur ident)) (\<lambda>v.
          case v of None \<Rightarrow> ret None | Some v \<Rightarrow> eval_idents V v rest)))"

definition eval_path :: "('s, 'v) v8 \<Rightarrow> 'v \<Rightarrow> string \<Rightarrow> ('s, 'v option) eff" where
  "eval_path V v path =
     (if path = [] then ret (Some v) else eval_idents V v (split_on (CHR ''.'') path))"

text \<open>\<open>Err(())\<close> is \<open>Inl ()\<close>.\<close>

fun keys_at_paths ::
  "('s, 'v) v8 \<Rightarrow> nat \<Rightarrow> 'v \<Rightarrow> string list \<Rightarrow> key list \<Rightarrow> ('s, unit + key option) eff" where
  "keys_at_paths V n v [] items = ret (Inr (Some (KArr items)))"
| "keys_at_paths V n v (p # ps) items =
     and_then (eval_path V v p) (\<lambda>w.
       case w of
         None \<Rightarrow> ret (Inl ())
       | Some w \<Rightarrow>
           and_then (to_key V n w) (\<lambda>k.
             case k of
               None \<Rightarrow> ret (Inl ())
             | Some k \<Rightarrow> keys_at_paths V n v ps (items @ [k])))"

fun key_at_path ::
  "('s, 'v) v8 \<Rightarrow> nat \<Rightarrow> 'v \<Rightarrow> key_path \<Rightarrow> ('s, unit + key option) eff" where
  "key_at_path V n v PNone = ret (Inr None)"
| "key_at_path V n v (PStr p) =
     and_then (eval_path V v p) (\<lambda>w.
       case w of
         None \<Rightarrow> ret (Inr None)
       | Some w \<Rightarrow>
           and_then (to_key V n w) (\<lambda>k.
             ret (case k of None \<Rightarrow> Inl () | Some k \<Rightarrow> Inr (Some k))))"
| "key_at_path V n v (PArr ps) = keys_at_paths V n v ps []"

section \<open>Index keys\<close>

record index_meta =
  im_id :: nat
  im_name :: string
  im_key_path :: key_path
  im_unique :: bool
  im_multi :: bool

fun multi_keys ::
  "('s, 'v) v8 \<Rightarrow> nat \<Rightarrow> 'v \<Rightarrow> nat list \<Rightarrow> bytes btree_set \<Rightarrow> ('s, bytes list) eff" where
  "multi_keys V n arr [] acc = ret acc"
| "multi_keys V n arr (i # is) acc =
     and_then (call (v8_get_index V arr i)) (\<lambda>item.
       case item of
         None \<Rightarrow> multi_keys V n arr is acc
       | Some item \<Rightarrow>
           and_then (to_key V n item) (\<lambda>k.
             multi_keys V n arr is
               (case k of None \<Rightarrow> acc | Some k \<Rightarrow> bs_insert (encode k) acc)))"

definition single_key :: "key option \<Rightarrow> bytes list" where
  "single_key k = (case k of None \<Rightarrow> [] | Some k \<Rightarrow> [encode k])"

definition path_keys ::
  "('s, 'v) v8 \<Rightarrow> nat \<Rightarrow> 'v \<Rightarrow> index_meta \<Rightarrow> ('s, bytes list) eff" where
  "path_keys V n v ix =
     and_then (key_at_path V n v (im_key_path ix)) (\<lambda>r.
       ret (case r of Inl _ \<Rightarrow> [] | Inr k \<Rightarrow> single_key k))"

definition index_keys ::
  "('s, 'v) v8 \<Rightarrow> nat \<Rightarrow> 'v \<Rightarrow> index_meta \<Rightarrow> ('s, bytes list) eff" where
  "index_keys V n v ix =
     (case (im_multi ix, im_key_path ix) of
        (True, PStr p) \<Rightarrow>
          and_then (eval_path V v p) (\<lambda>w.
            case w of
              None \<Rightarrow> ret []
            | Some w \<Rightarrow>
                if v8_is_array V w
                then and_then (reads (v8_array_length V w)) (\<lambda>len. multi_keys V n w [0..<len] [])
                else and_then (to_key V n w) (\<lambda>k. ret (single_key k)))
      | _ \<Rightarrow> path_keys V n v ix)"

section \<open>Structured clone and key injection\<close>

definition clone_default_error :: string where
  "clone_default_error = ''The object could not be cloned.''"

definition serialize :: "('s, 'v) v8 \<Rightarrow> 'v \<Rightarrow> ('s, string + bytes) eff" where
  "serialize V v =
     and_then (call (v8_write_value V v)) (\<lambda>(out, msg).
       ret (case out of
              Some b \<Rightarrow> Inr b
            | None \<Rightarrow> Inl (case msg of Some m \<Rightarrow> m | None \<Rightarrow> clone_default_error)))"

definition deserialize :: "('s, 'v) v8 \<Rightarrow> bytes \<Rightarrow> ('s, 'v) eff" where
  "deserialize V b =
     and_then (call (v8_read_header V b)) (\<lambda>ok.
       if \<not> ok then ret (v8_undefined V)
       else call (or_undefined V (v8_read_value V b)))"

fun can_inject_idents :: "('s, 'v) v8 \<Rightarrow> 'v \<Rightarrow> string list \<Rightarrow> ('s, bool) eff" where
  "can_inject_idents V cur [] = ret (v8_is_object V cur)"
| "can_inject_idents V cur (ident # rest) =
     (if \<not> v8_is_object V cur then ret False
      else and_then (call (v8_has_own V cur ident)) (\<lambda>has.
        if has \<noteq> Some True then ret True
        else and_then (unwrapped (v8_get V cur ident)) (\<lambda>v. can_inject_idents V v rest)))"

definition can_inject :: "('s, 'v) v8 \<Rightarrow> 'v \<Rightarrow> string \<Rightarrow> ('s, bool) eff" where
  "can_inject V v path = can_inject_idents V v (butlast (split_on (CHR ''.'') path))"

fun inject_idents :: "('s, 'v) v8 \<Rightarrow> 'v \<Rightarrow> string list \<Rightarrow> key \<Rightarrow> ('s, bool) eff" where
  "inject_idents V cur [] key = ret False"
| "inject_idents V cur [ident] key =
     (if \<not> v8_is_object V cur then ret False
      else and_then (call (key_to_value V key)) (\<lambda>kv.
        and_then (call (v8_create_data_property V cur ident kv)) (\<lambda>r. ret (r = Some True))))"
| "inject_idents V cur (ident # rest) key =
     (if \<not> v8_is_object V cur then ret False
      else and_then (call (v8_has_own V cur ident)) (\<lambda>has.
        if has \<noteq> Some True then
          and_then (call (v8_new_object V)) (\<lambda>obj.
          and_then (call (v8_create_data_property V cur ident obj)) (\<lambda>_.
            inject_idents V obj rest key))
        else and_then (unwrapped (v8_get V cur ident)) (\<lambda>v. inject_idents V v rest key)))"

definition inject_key :: "('s, 'v) v8 \<Rightarrow> 'v \<Rightarrow> string \<Rightarrow> key \<Rightarrow> ('s, bool) eff" where
  "inject_key V v path key = inject_idents V v (split_on (CHR ''.'') path) key"

section \<open>What a conversion yields\<close>

text \<open>No key holds a number that is not a number.\<close>

fun key_ok :: "key \<Rightarrow> bool" where
  "key_ok (KNum x) = (\<not> f64_is_nan x)"
| "key_ok (KDate x) = (\<not> f64_is_nan x)"
| "key_ok (KStr u) = True"
| "key_ok (KBin b) = True"
| "key_ok (KArr items) = (\<forall>k \<in> set items. key_ok k)"

definition opt_ok :: "('a \<Rightarrow> bool) \<Rightarrow> 'a option \<Rightarrow> bool" where
  "opt_ok P x \<longleftrightarrow> (\<forall>y. x = Some y \<longrightarrow> P y)"

lemma opt_ok_simps [simp]: "opt_ok P None" "opt_ok P (Some y) = P y"
  by (simp_all add: opt_ok_def)

lemma array_items_ok:
  assumes "\<And>item. yields (conv item) (opt_ok key_ok)" and "\<forall>k \<in> set items. key_ok k"
  shows "yields (array_items V conv arr is items) (opt_ok key_ok)"
  using assms(2)
proof (induction "is" arbitrary: items)
  case (Cons i "is")
  then show ?case
    by (auto intro!: yields_intros(2-) yields_ret yields_bind_with [OF assms(1)])
qed (simp add: yields_ret)

lemma key_from_value_ok: "yields (key_from_value V n v seen) (opt_ok key_ok)"
proof (induction n arbitrary: v seen)
  case (Suc n)
  show ?case
    unfolding key_from_value.simps Let_def
    by (intro yields_if yields_option yields_ret yields_bind array_items_ok Suc) simp_all
qed (simp add: yields_crash)

lemma to_key_ok: "yields (to_key V n v) (opt_ok key_ok)"
  unfolding to_key_def by (rule key_from_value_ok)

definition enc_list :: "bytes list \<Rightarrow> bool" where
  "enc_list ks \<longleftrightarrow> bs_ok ks \<and> (\<forall>b \<in> set ks. is_enc b)"

lemma enc_list_single_key [simp]: "enc_list (single_key k)"
  by (auto simp: enc_list_def single_key_def bs_ok_def split: option.splits)

lemma enc_list_Nil [simp]: "enc_list []"
  by (simp add: enc_list_def)

lemma enc_list_insert: "enc_list ks \<Longrightarrow> enc_list (bs_insert (encode k) ks)"
  by (auto simp: enc_list_def bs_ok_insert set_bs_insert)

lemma multi_keys_enc:
  assumes "enc_list acc"
  shows "yields (multi_keys V n arr is acc) enc_list"
  using assms
proof (induction "is" arbitrary: acc)
  case (Cons i "is")
  then show ?case
    by (auto intro!: yields_intros simp: enc_list_insert split: option.splits)
qed (simp add: yields_ret)

text \<open>Index keys are encodings, in order and without repetition.\<close>

lemma index_keys_enc: "yields (index_keys V n v ix) enc_list"
  by (auto simp: index_keys_def path_keys_def intro!: yields_intros multi_keys_enc
      split: bool.splits key_path.splits sum.splits)

section \<open>Cycles end the conversion\<close>

text \<open>
  A region of the heap that can be read without running page code: reading an element
  changes nothing and stays inside, and an array is strictly equal to itself. A structured
  clone is such a region, and so is a page's array without accessors.
\<close>

definition plain_region :: "('s, 'v) v8 \<Rightarrow> 's \<Rightarrow> 'v set \<Rightarrow> bool" where
  "plain_region V s A \<longleftrightarrow>
     (\<forall>v \<in> A. v8_strict_equals V v v \<and>
        (\<forall>i. \<exists>b. v8_has_own V v (nat_str i) s = (b, s)) \<and>
        (\<forall>i. \<exists>w. v8_get_index V v i s = (w, s) \<and> set_option w \<subseteq> A))"

lemma array_items_total:
  assumes region: "plain_region V s A" and arr: "arr \<in> A"
    and conv: "\<And>item. item \<in> A \<Longrightarrow> \<exists>k. conv item s = Some (k, s)"
  shows "\<exists>k. array_items V conv arr is items s = Some (k, s)"
proof (induction "is" arbitrary: items)
  case (Cons i "is")
  obtain b where b: "v8_has_own V arr (nat_str i) s = (b, s)"
    using region arr unfolding plain_region_def by blast
  obtain w where w: "v8_get_index V arr i s = (w, s)" "set_option w \<subseteq> A"
    using region arr unfolding plain_region_def by blast
  show ?case
  proof (cases w)
    case None
    with b w show ?thesis
      by (auto simp: and_then_def call_def ret_def)
  next
    case (Some item)
    with w conv obtain k where k: "conv item s = Some (k, s)"
      by auto
    with b w Some Cons.IH [of "items @ [the k]"] show ?thesis
      by (cases k) (auto simp: and_then_def call_def ret_def)
  qed
qed (simp add: ret_def)

lemma key_from_value_total:
  assumes region: "plain_region V s A" and fin: "finite A"
  shows "v \<in> A \<Longrightarrow> set seen \<subseteq> A \<Longrightarrow> card (A - set seen) < n \<Longrightarrow>
    \<exists>k. key_from_value V n v seen s = Some (k, s)"
proof (induction n arbitrary: v seen)
  case (Suc n)
  show ?case
  proof (cases "v8_is_array V v \<and> \<not> (\<exists>x \<in> set seen. v8_strict_equals V x v)")
    case True
    have "v \<notin> set seen"
      using True region Suc.prems(1) by (auto simp: plain_region_def)
    then have "A - set (seen @ [v]) \<subset> A - set seen"
      using Suc.prems(1) by auto
    then have "card (A - set (seen @ [v])) < card (A - set seen)"
      using fin by (intro psubset_card_mono) auto
    with Suc.prems have less: "card (A - set (seen @ [v])) < n" "set (seen @ [v]) \<subseteq> A"
      by auto
    have "\<exists>k. array_items V (\<lambda>item. key_from_value V n item (seen @ [v])) v
        [0..<v8_array_length V v s] [] s = Some (k, s)"
      by (rule array_items_total [OF region Suc.prems(1)]) (rule Suc.IH [OF _ less(2,1)])
    then show ?thesis
      using True by (auto simp: ret_def reads_def and_then_def Let_def split: option.splits)
  next
    case False
    then show ?thesis
      by (auto simp: ret_def reads_def and_then_def Let_def split: option.splits)
  qed
qed simp

end
