(* ===== verification/IdbStore.thy ===== *)
theory IdbStore
  imports IdbValue
begin

text \<open>
  The data of one IndexedDB database (\<open>crates/pool/src/idb.rs\<close>, section \<open>the store\<close>) and
  the operations of a transaction: \<open>put\<close>, \<open>delete\<close>, \<open>clear\<close> and the schema changes, each
  with the undo entries it pushes, and \<open>rollback\<close> of an entry. A store and an index are
  found by the first match, as \<open>iter_mut().find\<close> does. A \<open>u32\<close> identifier is a natural
  number below \<open>2 ^ 32\<close> with the wrap-around written out.
\<close>

section \<open>Data\<close>

record index =
  ix_meta :: index_meta
  ix_entries :: "bytes btree_set"

record idb_record =
  rec_value :: bytes
  rec_ikeys :: "(nat \<times> bytes list) list"

record store =
  st_id :: nat
  st_name :: string
  st_key_path :: key_path
  st_auto_inc :: bool
  st_next :: f64
  st_records :: "(bytes, idb_record) btree_map"
  st_indexes :: "index list"

record db_data =
  db_version :: u64
  db_stores :: "store list"
  db_next_id :: nat

definition empty_db :: db_data where
  "empty_db = \<lparr>db_version = 0, db_stores = [], db_next_id = 0\<rparr>"

abbreviation ix_id :: "index \<Rightarrow> nat" where
  "ix_id ix \<equiv> im_id (ix_meta ix)"

definition find_store :: "string \<Rightarrow> db_data \<Rightarrow> store option" where
  "find_store name d = find (\<lambda>s. st_name s = name) (db_stores d)"

definition store_mut :: "string \<Rightarrow> (store \<Rightarrow> store) \<Rightarrow> db_data \<Rightarrow> db_data" where
  "store_mut name f d = d\<lparr>db_stores := upd_first (\<lambda>s. st_name s = name) f (db_stores d)\<rparr>"

definition store_by_id :: "nat \<Rightarrow> (store \<Rightarrow> store) \<Rightarrow> db_data \<Rightarrow> db_data" where
  "store_by_id i f d = d\<lparr>db_stores := upd_first (\<lambda>s. st_id s = i) f (db_stores d)\<rparr>"

datatype undo =
    URecord nat bytes "idb_record option"
  | UKeyGen nat f64
  | UCleared nat "(bytes, idb_record) btree_map"
  | UStoreCreated nat
  | UStoreDeleted store
  | UStoreRenamed nat string
  | UIndexCreated nat nat
  | UIndexDeleted nat index
  | UIndexRenamed nat nat string
  | UVersion u64

section \<open>Index maintenance\<close>

definition upd_index :: "nat \<Rightarrow> (index \<Rightarrow> index) \<Rightarrow> index list \<Rightarrow> index list" where
  "upd_index iid f ixs = upd_first (\<lambda>i. ix_id i = iid) f ixs"

definition remove_entries :: "bytes \<Rightarrow> bytes list \<Rightarrow> index \<Rightarrow> index" where
  "remove_entries pkey keys ix =
     ix\<lparr>ix_entries := fold (\<lambda>k es. bs_remove (k @ pkey) es) keys (ix_entries ix)\<rparr>"

definition insert_entries :: "bytes \<Rightarrow> bytes list \<Rightarrow> index \<Rightarrow> index" where
  "insert_entries pkey keys ix =
     ix\<lparr>ix_entries := fold (\<lambda>k es. bs_insert (k @ pkey) es) keys (ix_entries ix)\<rparr>"

definition unindex :: "bytes \<Rightarrow> idb_record \<Rightarrow> store \<Rightarrow> store" where
  "unindex pkey r s =
     s\<lparr>st_indexes := fold (\<lambda>(iid, keys). upd_index iid (remove_entries pkey keys))
                       (rec_ikeys r) (st_indexes s)\<rparr>"

definition reindex :: "bytes \<Rightarrow> idb_record \<Rightarrow> store \<Rightarrow> store" where
  "reindex pkey r s =
     s\<lparr>st_indexes := fold (\<lambda>(iid, keys). upd_index iid (insert_entries pkey keys))
                       (rec_ikeys r) (st_indexes s)\<rparr>"

definition clear_indexes :: "store \<Rightarrow> store" where
  "clear_indexes s = s\<lparr>st_indexes := map (\<lambda>ix. ix\<lparr>ix_entries := []\<rparr>) (st_indexes s)\<rparr>"

section \<open>Rollback\<close>

definition restore_record :: "bytes \<Rightarrow> idb_record option \<Rightarrow> store \<Rightarrow> store" where
  "restore_record key old s =
     (let s = (case bt_get (st_records s) key of
                 None \<Rightarrow> s
               | Some cur \<Rightarrow> unindex key cur (s\<lparr>st_records := bt_remove key (st_records s)\<rparr>))
      in case old of
           None \<Rightarrow> s
         | Some old \<Rightarrow>
             let s = reindex key old s in s\<lparr>st_records := bt_insert key old (st_records s)\<rparr>)"

definition restore_records :: "(bytes, idb_record) btree_map \<Rightarrow> store \<Rightarrow> store" where
  "restore_records records s =
     fold (\<lambda>(k, r). reindex k r) records ((clear_indexes s)\<lparr>st_records := records\<rparr>)"

definition drop_index :: "nat \<Rightarrow> store \<Rightarrow> store" where
  "drop_index iid s =
     s\<lparr>st_indexes := filter (\<lambda>i. ix_id i \<noteq> iid) (st_indexes s),
       st_records := map (\<lambda>(k, r). (k, r\<lparr>rec_ikeys := filter (\<lambda>(i, _). i \<noteq> iid) (rec_ikeys r)\<rparr>))
                       (st_records s)\<rparr>"

definition rename_index :: "nat \<Rightarrow> string \<Rightarrow> store \<Rightarrow> store" where
  "rename_index iid name s =
     s\<lparr>st_indexes := upd_index iid (\<lambda>ix. ix\<lparr>ix_meta := (ix_meta ix)\<lparr>im_name := name\<rparr>\<rparr>)
                       (st_indexes s)\<rparr>"

fun rollback :: "undo \<Rightarrow> db_data \<Rightarrow> db_data" where
  "rollback (URecord i key old) d = store_by_id i (restore_record key old) d"
| "rollback (UKeyGen i old) d = store_by_id i (\<lambda>s. s\<lparr>st_next := old\<rparr>) d"
| "rollback (UCleared i records) d = store_by_id i (restore_records records) d"
| "rollback (UStoreCreated i) d = d\<lparr>db_stores := filter (\<lambda>s. st_id s \<noteq> i) (db_stores d)\<rparr>"
| "rollback (UStoreDeleted s) d = d\<lparr>db_stores := db_stores d @ [s]\<rparr>"
| "rollback (UStoreRenamed i old) d = store_by_id i (\<lambda>s. s\<lparr>st_name := old\<rparr>) d"
| "rollback (UIndexCreated i iid) d = store_by_id i (drop_index iid) d"
| "rollback (UIndexDeleted i ix) d =
     store_by_id i (\<lambda>s. s\<lparr>st_indexes := st_indexes s @ [ix]\<rparr>) d"
| "rollback (UIndexRenamed i iid old) d = store_by_id i (rename_index iid old) d"
| "rollback (UVersion v) d = d\<lparr>db_version := v\<rparr>"

definition rollback_all :: "undo list \<Rightarrow> db_data \<Rightarrow> db_data" where
  "rollback_all undo d = fold rollback (rev undo) d"

section \<open>Operations of a transaction\<close>

text \<open>
  An operation sees the data and the undo log of its transaction and returns both, with
  its result. An error is a \<open>DOMException\<close> name and a message.
\<close>

type_synonym dom_error = "string \<times> string"
type_synonym log = "db_data \<times> undo list"

definition constraint_error :: "string \<Rightarrow> dom_error" where
  "constraint_error msg = (''ConstraintError'', msg)"

subsection \<open>Schema changes\<close>

definition set_version :: "u64 \<Rightarrow> log \<Rightarrow> log" where
  "set_version v = (\<lambda>(d, undo). (d\<lparr>db_version := v\<rparr>, undo @ [UVersion (db_version d)]))"

definition next_id_after :: "nat \<Rightarrow> nat" where
  "next_id_after i = unat (of_nat i + 1 :: u32)"

lemma next_id_after_eq: "i + 1 < 2 ^ 32 \<Longrightarrow> next_id_after i = i + 1"
proof -
  assume "i + 1 < 2 ^ 32"
  then have "unat (of_nat (i + 1) :: u32) = i + 1"
    by (subst unat_of_nat) simp
  then show ?thesis
    by (simp add: next_id_after_def add.commute)
qed

definition create_store :: "string \<Rightarrow> key_path \<Rightarrow> bool \<Rightarrow> log \<Rightarrow> log" where
  "create_store name kp auto_inc = (\<lambda>(d, undo).
     let sid = next_id_after (db_next_id d);
         s = \<lparr>st_id = sid, st_name = name, st_key_path = kp, st_auto_inc = auto_inc,
              st_next = f64_one, st_records = [], st_indexes = []\<rparr>
     in (d\<lparr>db_next_id := sid, db_stores := db_stores d @ [s]\<rparr>, undo @ [UStoreCreated sid]))"

definition delete_store :: "string \<Rightarrow> log \<Rightarrow> log" where
  "delete_store name = (\<lambda>(d, undo).
     case find_store name d of
       None \<Rightarrow> (d, undo)
     | Some s \<Rightarrow>
         (d\<lparr>db_stores := remove_first (\<lambda>s. st_name s = name) (db_stores d)\<rparr>,
          undo @ [UStoreDeleted s]))"

definition rename_store :: "string \<Rightarrow> string \<Rightarrow> log \<Rightarrow> log" where
  "rename_store old new = (\<lambda>(d, undo).
     case find_store old d of
       None \<Rightarrow> (d, undo)
     | Some s \<Rightarrow>
         (store_mut old (\<lambda>s. s\<lparr>st_name := new\<rparr>) d, undo @ [UStoreRenamed (st_id s) (st_name s)]))"

text \<open>The first entry at or after a key, when it starts with the key, is a clash.\<close>

definition first_clash :: "bytes btree_set \<Rightarrow> bytes \<Rightarrow> bool" where
  "first_clash entries k =
     (case dropWhile (\<lambda>e. e < k) entries of [] \<Rightarrow> False | e # _ \<Rightarrow> take (length k) e = k)"

fun add_index_keys ::
  "bool \<Rightarrow> bytes \<Rightarrow> bytes list \<Rightarrow> bytes btree_set \<times> bool \<Rightarrow> bytes btree_set \<times> bool" where
  "add_index_keys unique pk [] (entries, dup) = (entries, dup)"
| "add_index_keys unique pk (k # ks) (entries, dup) =
     add_index_keys unique pk ks
       (bs_insert (k @ pk) entries, dup \<or> (unique \<and> first_clash entries k))"

fun build_index ::
  "('s, 'v) v8 \<Rightarrow> nat \<Rightarrow> index_meta \<Rightarrow> (bytes, idb_record) btree_map \<Rightarrow>
   bytes btree_set \<times> bool \<Rightarrow> (bytes \<times> bytes list) list \<Rightarrow>
   ('s, (bytes btree_set \<times> bool) \<times> (bytes \<times> bytes list) list) eff" where
  "build_index V n meta [] acc per_record = ret (acc, per_record)"
| "build_index V n meta ((pk, r) # pairs) acc per_record =
     and_then (deserialize V (rec_value r)) (\<lambda>v.
     and_then (index_keys V n v meta) (\<lambda>keys.
       build_index V n meta pairs (add_index_keys (im_unique meta) pk keys acc)
         (per_record @ [(pk, keys)])))"

definition push_ikeys :: "nat \<Rightarrow> bytes \<times> bytes list \<Rightarrow> store \<Rightarrow> store" where
  "push_ikeys iid = (\<lambda>(pk, keys) s.
     case bt_get (st_records s) pk of
       None \<Rightarrow> s
     | Some r \<Rightarrow>
         s\<lparr>st_records := bt_insert pk (r\<lparr>rec_ikeys := rec_ikeys r @ [(iid, keys)]\<rparr>)
                           (st_records s)\<rparr>)"

definition install_index ::
  "index_meta \<Rightarrow> bytes btree_set \<Rightarrow> (bytes \<times> bytes list) list \<Rightarrow> store \<Rightarrow> store" where
  "install_index meta entries per_record s =
     (let s = fold (push_ikeys (im_id meta)) per_record s
      in s\<lparr>st_indexes := st_indexes s @ [\<lparr>ix_meta = meta, ix_entries = entries\<rparr>]\<rparr>)"

definition create_index ::
  "('s, 'v) v8 \<Rightarrow> nat \<Rightarrow> string \<Rightarrow> string \<Rightarrow> key_path \<Rightarrow> bool \<Rightarrow> bool \<Rightarrow> log \<Rightarrow>
   ('s, (dom_error + unit) \<times> log) eff" where
  "create_index V n store name kp unique multi = (\<lambda>(d, undo).
     let iid = next_id_after (db_next_id d); d = d\<lparr>db_next_id := iid\<rparr>
     in case find_store store d of
          None \<Rightarrow> ret (Inr (), (d, undo))
        | Some s \<Rightarrow>
            let meta = \<lparr>im_id = iid, im_name = name, im_key_path = kp,
                        im_unique = unique, im_multi = multi\<rparr>
            in and_then (build_index V n meta (st_records s) ([], False) []) (\<lambda>((entries, dup), per_record).
                 ret (if dup then Inl (constraint_error ''Index key is not unique.'') else Inr (),
                      (store_mut store (install_index meta entries per_record) d,
                       undo @ [UIndexCreated (st_id s) iid]))))"

definition delete_index :: "string \<Rightarrow> string \<Rightarrow> log \<Rightarrow> log" where
  "delete_index store name = (\<lambda>(d, undo).
     case find_store store d of
       None \<Rightarrow> (d, undo)
     | Some s \<Rightarrow>
         (case find (\<lambda>i. im_name (ix_meta i) = name) (st_indexes s) of
            None \<Rightarrow> (d, undo)
          | Some ix \<Rightarrow>
              (store_mut store (\<lambda>s. s\<lparr>st_indexes :=
                   remove_first (\<lambda>i. im_name (ix_meta i) = name) (st_indexes s)\<rparr>) d,
               undo @ [UIndexDeleted (st_id s) ix])))"

definition rename_index_op :: "string \<Rightarrow> string \<Rightarrow> string \<Rightarrow> log \<Rightarrow> log" where
  "rename_index_op store old new = (\<lambda>(d, undo).
     case find_store store d of
       None \<Rightarrow> (d, undo)
     | Some s \<Rightarrow>
         (case find (\<lambda>i. im_name (ix_meta i) = old) (st_indexes s) of
            None \<Rightarrow> (d, undo)
          | Some ix \<Rightarrow>
              (store_mut store (\<lambda>s. s\<lparr>st_indexes :=
                   upd_first (\<lambda>i. im_name (ix_meta i) = old)
                     (\<lambda>ix. ix\<lparr>ix_meta := (ix_meta ix)\<lparr>im_name := new\<rparr>\<rparr>) (st_indexes s)\<rparr>) d,
               undo @ [UIndexRenamed (st_id s) (ix_id ix) (im_name (ix_meta ix))])))"

datatype schema_op =
    SVersion u64
  | SCreateStore string key_path bool
  | SDeleteStore string
  | SRenameStore string string
  | SCreateIndex string string key_path bool bool
  | SDeleteIndex string string
  | SRenameIndex string string string

fun schema :: "('s, 'v) v8 \<Rightarrow> nat \<Rightarrow> schema_op \<Rightarrow> log \<Rightarrow> ('s, (dom_error + unit) \<times> log) eff" where
  "schema V n (SVersion v) l = ret (Inr (), set_version v l)"
| "schema V n (SCreateStore name kp auto_inc) l = ret (Inr (), create_store name kp auto_inc l)"
| "schema V n (SDeleteStore name) l = ret (Inr (), delete_store name l)"
| "schema V n (SRenameStore old new) l = ret (Inr (), rename_store old new l)"
| "schema V n (SCreateIndex store name kp unique multi) l =
     create_index V n store name kp unique multi l"
| "schema V n (SDeleteIndex store name) l = ret (Inr (), delete_index store name l)"
| "schema V n (SRenameIndex store old new) l = ret (Inr (), rename_index_op store old new l)"

subsection \<open>Preparing a value\<close>

record prepared =
  prep_key :: "key option"
  prep_value :: bytes
  prep_inject :: bool

definition data_error :: "string \<Rightarrow> dom_error" where
  "data_error msg = (''DataError'', msg)"

definition key_param ::
  "('s, 'v) v8 \<Rightarrow> nat \<Rightarrow> bool \<Rightarrow> 'v \<Rightarrow> ('s, dom_error + key option) eff" where
  "key_param V n has_key key_arg =
     (if \<not> has_key then ret (Inr None)
      else and_then (to_key V n key_arg) (\<lambda>k.
        ret (case k of
               Some k \<Rightarrow> Inr (Some k)
             | None \<Rightarrow> Inl (data_error ''The parameter is not a valid key.''))))"

text \<open>The key of a value with an in-line key path, and whether the generator supplies it.\<close>

definition inline_key ::
  "('s, 'v) v8 \<Rightarrow> nat \<Rightarrow> key_path \<Rightarrow> bool \<Rightarrow> bytes \<Rightarrow> ('s, dom_error + key option \<times> bool) eff" where
  "inline_key V n kp auto_inc b =
     and_then (deserialize V b) (\<lambda>clone.
     and_then (key_at_path V n clone kp) (\<lambda>r.
       case r of
         Inl _ \<Rightarrow> ret (Inl (data_error
           ''Evaluating the object store's key path yielded a value that is not a valid key.''))
       | Inr (Some k) \<Rightarrow> ret (Inr (Some k, False))
       | Inr None \<Rightarrow>
           if \<not> auto_inc then ret (Inl (data_error
             ''Evaluating the object store's key path did not yield a value.''))
           else and_then (case kp of PStr p \<Rightarrow> can_inject V clone p | _ \<Rightarrow> ret False) (\<lambda>can.
             ret (if can then Inr (None, True)
                  else Inl (data_error ''A generated key could not be inserted into the value.'')))))"

definition prepare ::
  "('s, 'v) v8 \<Rightarrow> nat \<Rightarrow> key_path \<Rightarrow> bool \<Rightarrow> 'v \<Rightarrow> 'v \<Rightarrow> bool \<Rightarrow> ('s, dom_error + prepared) eff" where
  "prepare V n kp auto_inc value key_arg has_key =
     (let inline = (kp \<noteq> PNone) in
      if inline \<and> has_key then ret (Inl (data_error
        ''The object store uses in-line keys and the key parameter was provided.''))
      else if \<not> inline \<and> \<not> auto_inc \<and> \<not> has_key then ret (Inl (data_error
        ''The object store uses out-of-line keys and has no key generator and the key parameter was not provided.''))
      else and_then (key_param V n has_key key_arg) (\<lambda>r.
        case r of
          Inl e \<Rightarrow> ret (Inl e)
        | Inr key \<Rightarrow>
            and_then (serialize V value) (\<lambda>r.
              case r of
                Inl msg \<Rightarrow> ret (Inl (''DataCloneError'', msg))
              | Inr b \<Rightarrow>
                  if \<not> inline
                  then ret (Inr \<lparr>prep_key = key, prep_value = b, prep_inject = False\<rparr>)
                  else and_then (inline_key V n kp auto_inc b) (\<lambda>r.
                    ret (case r of
                           Inl e \<Rightarrow> Inl e
                         | Inr (key, inject) \<Rightarrow>
                             Inr \<lparr>prep_key = key, prep_value = b, prep_inject = inject\<rparr>)))))"

subsection \<open>Writing a prepared value\<close>

text \<open>
  The key of the record, and the key generator's next number when it moves. The limit in
  \<open>(n.floor() + 1.0).min(9007199254740992.0 + 1.0)\<close> is computed in doubles.
\<close>

definition assign_key :: "store \<Rightarrow> key option \<Rightarrow> dom_error + (key \<times> f64 option)" where
  "assign_key s key =
     (case key of
        Some k \<Rightarrow>
          Inr (k, (case k of
                     KNum n \<Rightarrow>
                       if st_auto_inc s \<and> f64_le (st_next s) n
                       then Some (f64_min (f64_add (f64_floor n) f64_one) (f64_add f64_2p53 f64_one))
                       else None
                   | _ \<Rightarrow> None))
      | None \<Rightarrow>
          if f64_less f64_2p53 (st_next s)
          then Inl (constraint_error ''Key generator has reached its maximum value.'')
          else Inr (KNum (st_next s), Some (f64_add (st_next s) f64_one)))"

definition move_generator :: "store \<Rightarrow> f64 option \<Rightarrow> log \<Rightarrow> log" where
  "move_generator s next = (\<lambda>(d, undo).
     case next of
       None \<Rightarrow> (d, undo)
     | Some x \<Rightarrow>
         (store_mut (st_name s) (\<lambda>s. s\<lparr>st_next := x\<rparr>) d, undo @ [UKeyGen (st_id s) (st_next s)]))"

text \<open>The clone, with a generated key injected, and the bytes to store.\<close>

definition stored_value ::
  "('s, 'v) v8 \<Rightarrow> store \<Rightarrow> prepared \<Rightarrow> key \<Rightarrow> ('s, 'v \<times> bytes) eff" where
  "stored_value V s prep key =
     and_then (deserialize V (prep_value prep)) (\<lambda>clone.
       if prep_inject prep then
         (case st_key_path s of
            PStr p \<Rightarrow>
              and_then (inject_key V clone p key) (\<lambda>_.
              and_then (serialize V clone) (\<lambda>r.
                ret (clone, case r of Inr b \<Rightarrow> b | Inl _ \<Rightarrow> prep_value prep)))
          | _ \<Rightarrow> ret (clone, prep_value prep))
       else ret (clone, prep_value prep))"

definition key_clash :: "bytes btree_set \<Rightarrow> bytes \<Rightarrow> bytes \<Rightarrow> bool" where
  "key_clash entries pkey k =
     (\<exists>e \<in> set (takeWhile (\<lambda>e. take (length k) e = k) (dropWhile (\<lambda>e. e < k) entries)).
        drop (length k) e \<noteq> pkey)"

definition unique_violation :: "string \<Rightarrow> dom_error" where
  "unique_violation name =
     constraint_error (''Unable to add key to index '' @ [CHR 0x27] @ name @ [CHR 0x27] @
       '': at least one key does not satisfy the uniqueness requirements.'')"

fun collect_ikeys ::
  "('s, 'v) v8 \<Rightarrow> nat \<Rightarrow> 'v \<Rightarrow> bytes \<Rightarrow> index list \<Rightarrow> index_meta list \<Rightarrow> (nat \<times> bytes list) list \<Rightarrow>
   ('s, dom_error + (nat \<times> bytes list) list) eff" where
  "collect_ikeys V n clone pkey ixs [] ikeys = ret (Inr ikeys)"
| "collect_ikeys V n clone pkey ixs (m # metas) ikeys =
     and_then (index_keys V n clone m) (\<lambda>keys.
       if im_unique m then
         (case find (\<lambda>i. ix_id i = im_id m) ixs of
            None \<Rightarrow> crash
          | Some ix \<Rightarrow>
              if \<exists>k \<in> set keys. key_clash (ix_entries ix) pkey k
              then ret (Inl (unique_violation (im_name m)))
              else collect_ikeys V n clone pkey ixs metas (ikeys @ [(im_id m, keys)]))
       else collect_ikeys V n clone pkey ixs metas (ikeys @ [(im_id m, keys)]))"

definition write_record :: "bytes \<Rightarrow> idb_record \<Rightarrow> store \<Rightarrow> store" where
  "write_record pkey r s =
     (let old = bt_get (st_records s) pkey;
          s = s\<lparr>st_records := bt_remove pkey (st_records s)\<rparr>;
          s = (case old of None \<Rightarrow> s | Some cur \<Rightarrow> unindex pkey cur s);
          s = reindex pkey r s
      in s\<lparr>st_records := bt_insert pkey r (st_records s)\<rparr>)"

definition write_op :: "store \<Rightarrow> bytes \<Rightarrow> idb_record \<Rightarrow> log \<Rightarrow> log" where
  "write_op s pkey r = (\<lambda>(d, undo).
     (store_mut (st_name s) (write_record pkey r) d,
      undo @ [URecord (st_id s) pkey (bt_get (st_records s) pkey)]))"

definition store_put ::
  "('s, 'v) v8 \<Rightarrow> nat \<Rightarrow> string \<Rightarrow> prepared \<Rightarrow> bool \<Rightarrow> log \<Rightarrow> ('s, (dom_error + key) \<times> log) eff" where
  "store_put V n store_name prep no_overwrite l =
     (case find_store store_name (fst l) of
        None \<Rightarrow> ret (Inl (''InvalidStateError'', ''The object store has been deleted.''), l)
      | Some s \<Rightarrow>
          (case assign_key s (prep_key prep) of
             Inl e \<Rightarrow> ret (Inl e, l)
           | Inr (key, next) \<Rightarrow>
               let l = move_generator s next l
               in and_then (stored_value V s prep key) (\<lambda>(clone, value).
                    let pkey = encode key
                    in if no_overwrite \<and> bt_get (st_records s) pkey \<noteq> None
                       then ret (Inl (constraint_error ''Key already exists in the object store.''), l)
                       else and_then (collect_ikeys V n clone pkey (st_indexes s)
                                        (map ix_meta (st_indexes s)) []) (\<lambda>r.
                         case r of
                           Inl e \<Rightarrow> ret (Inl e, l)
                         | Inr ikeys \<Rightarrow>
                             ret (Inr key,
                                  write_op s pkey \<lparr>rec_value = value, rec_ikeys = ikeys\<rparr> l)))))"

subsection \<open>Deleting records\<close>

text \<open>A read of an inverted range panics, which is the outcome \<open>None\<close>.\<close>

definition remove_record :: "bytes \<Rightarrow> idb_record \<Rightarrow> store \<Rightarrow> store" where
  "remove_record k old s = unindex k old (s\<lparr>st_records := bt_remove k (st_records s)\<rparr>)"

fun delete_keys :: "store \<Rightarrow> bytes list \<Rightarrow> log \<Rightarrow> log" where
  "delete_keys s [] l = l"
| "delete_keys s (k # ks) (d, undo) =
     (case bt_get (st_records s) k of
        None \<Rightarrow> delete_keys s ks (d, undo)
      | Some old \<Rightarrow>
          delete_keys (remove_record k old s) ks
            (store_mut (st_name s) (remove_record k old) d, undo @ [URecord (st_id s) k (Some old)]))"

definition clear_store :: "store \<Rightarrow> log \<Rightarrow> log" where
  "clear_store s = (\<lambda>(d, undo).
     (store_mut (st_name s) (\<lambda>s. clear_indexes (s\<lparr>st_records := []\<rparr>)) d,
      undo @ [UCleared (st_id s) (st_records s)]))"

definition delete_records ::
  "string \<Rightarrow> bytes bound \<Rightarrow> bytes bound \<Rightarrow> bool \<Rightarrow> log \<Rightarrow> log option" where
  "delete_records store_name lo hi clear l =
     (case find_store store_name (fst l) of
        None \<Rightarrow> Some l
      | Some s \<Rightarrow>
          if clear then Some (clear_store s l)
          else map_option (\<lambda>hits. delete_keys s (map fst hits) l) (bt_range lo hi (st_records s)))"

end
