(* ===== verification/IdbUndo.thy ===== *)
theory IdbUndo
  imports IdbStore
begin

text \<open>
  The undo log of a transaction (\<open>crates/pool/src/idb.rs\<close>): the invariant of a database,
  that every operation keeps it and logs what is needed to take it back, and that playing
  the log back restores the database.
\<close>

section \<open>Index maintenance by index\<close>

text \<open>The entries a record has in index \<open>i\<close>.\<close>

definition entry_list :: "nat \<Rightarrow> bytes \<Rightarrow> idb_record \<Rightarrow> bytes list" where
  "entry_list i pk r =
     concat (map (\<lambda>(j, ks). if j = i then map (\<lambda>k. k @ pk) ks else []) (rec_ikeys r))"

definition entries_of :: "nat \<Rightarrow> (bytes, idb_record) btree_map \<Rightarrow> bytes set" where
  "entries_of i recs = (\<Union>(pk, r) \<in> set recs. set (entry_list i pk r))"

definition map_entries :: "(nat \<Rightarrow> bytes list \<Rightarrow> bytes list) \<Rightarrow> store \<Rightarrow> store" where
  "map_entries f s =
     s\<lparr>st_indexes := map (\<lambda>ix. ix\<lparr>ix_entries := f (ix_id ix) (ix_entries ix)\<rparr>) (st_indexes s)\<rparr>"

definition distinct_ixs :: "store \<Rightarrow> bool" where
  "distinct_ixs s \<longleftrightarrow> distinct (map ix_id (st_indexes s))"

lemma map_entries_simps [simp]:
  "st_id (map_entries f s) = st_id s"
  "st_name (map_entries f s) = st_name s"
  "st_records (map_entries f s) = st_records s"
  "distinct_ixs (map_entries f s) = distinct_ixs s"
  "distinct_ixs (s\<lparr>st_records := recs\<rparr>) = distinct_ixs s"
  "map_entries f (s\<lparr>st_records := recs\<rparr>) = (map_entries f s)\<lparr>st_records := recs\<rparr>"
  "map_entries g (map_entries f s) = map_entries (\<lambda>i es. g i (f i es)) s"
  by (simp_all add: map_entries_def distinct_ixs_def comp_def)

lemma map_entries_id:
  "(\<And>ix. ix \<in> set (st_indexes s) \<Longrightarrow> f (ix_id ix) (ix_entries ix) = ix_entries ix) \<Longrightarrow>
   map_entries f s = s"
  by (cases s) (auto simp: map_entries_def map_idI)

lemma upd_index_map:
  "distinct (map ix_id ixs) \<Longrightarrow>
   upd_index i f ixs = map (\<lambda>ix. if ix_id ix = i then f ix else ix) ixs"
  unfolding upd_index_def
proof (induction ixs)
  case (Cons a ixs)
  show ?case
  proof (cases "ix_id a = i")
    case True
    then have "map (\<lambda>ix. if ix_id ix = i then f ix else ix) ixs = ixs"
      using Cons.prems by (intro map_idI) (auto simp: image_iff)
    with True show ?thesis
      by simp
  qed (use Cons in simp)
qed simp

lemma fold_upd_entries:
  assumes "distinct (map ix_id ixs)"
  shows "fold (\<lambda>(iid, keys). upd_index iid
             (\<lambda>ix. ix\<lparr>ix_entries := fold (\<lambda>k es. g (k @ pk) es) keys (ix_entries ix)\<rparr>)) iks ixs =
    map (\<lambda>ix. ix\<lparr>ix_entries := fold g (concat (map (\<lambda>(j, ks).
             if j = ix_id ix then map (\<lambda>k. k @ pk) ks else []) iks)) (ix_entries ix)\<rparr>) ixs"
  using assms
proof (induction iks arbitrary: ixs)
  case (Cons ik iks)
  obtain i ks where ik: "ik = (i, ks)"
    by (cases ik)
  let ?f = "\<lambda>ix. if ix_id ix = i
    then ix\<lparr>ix_entries := fold (\<lambda>k es. g (k @ pk) es) ks (ix_entries ix)\<rparr> else ix"
  have "distinct (map ix_id (map ?f ixs))"
    using Cons.prems by (simp add: comp_def if_distrib cong: if_cong)
  note IH = Cons.IH [OF this]
  show ?case
    unfolding ik by (simp add: upd_index_map [OF Cons.prems] IH) (auto simp: fold_map comp_def)
qed simp

lemma unindex_eq:
  "distinct_ixs s \<Longrightarrow> unindex pk r s = map_entries (\<lambda>i. fold bs_remove (entry_list i pk r)) s"
  unfolding unindex_def remove_entries_def map_entries_def distinct_ixs_def entry_list_def
  by (subst fold_upd_entries) auto

lemma reindex_eq:
  "distinct_ixs s \<Longrightarrow> reindex pk r s = map_entries (\<lambda>i. fold bs_insert (entry_list i pk r)) s"
  unfolding reindex_def insert_entries_def map_entries_def distinct_ixs_def entry_list_def
  by (subst fold_upd_entries) auto

lemma clear_indexes_eq: "clear_indexes s = map_entries (\<lambda>_ _. []) s"
  by (simp add: clear_indexes_def map_entries_def)

text \<open>The entries of the record under a key, if there is one.\<close>

definition own_entries :: "nat \<Rightarrow> bytes \<Rightarrow> store \<Rightarrow> bytes list" where
  "own_entries i pk s =
     (case bt_get (st_records s) pk of None \<Rightarrow> [] | Some r \<Rightarrow> entry_list i pk r)"

lemma write_record_eq:
  "distinct_ixs s \<Longrightarrow>
   write_record pk r s =
     (map_entries (\<lambda>i es. fold bs_insert (entry_list i pk r) (fold bs_remove (own_entries i pk s) es)) s)
       \<lparr>st_records := bt_insert pk r (bt_remove pk (st_records s))\<rparr>"
  by (auto simp: write_record_def Let_def own_entries_def unindex_eq reindex_eq split: option.splits)

lemma remove_record_eq:
  "distinct_ixs s \<Longrightarrow>
   remove_record pk r s =
     (map_entries (\<lambda>i. fold bs_remove (entry_list i pk r)) s)
       \<lparr>st_records := bt_remove pk (st_records s)\<rparr>"
  by (simp add: remove_record_def unindex_eq)

lemma restore_record_eq:
  "distinct_ixs s \<Longrightarrow>
   restore_record pk old s =
     (map_entries (\<lambda>i es. fold bs_insert (case old of None \<Rightarrow> [] | Some r \<Rightarrow> entry_list i pk r)
                            (fold bs_remove (own_entries i pk s) es)) s)
       \<lparr>st_records := (case old of None \<Rightarrow> bt_remove pk (st_records s)
                      | Some r \<Rightarrow> bt_insert pk r (bt_remove pk (st_records s)))\<rparr>"
  by (cases "bt_get (st_records s) pk"; cases old)
    (simp_all add: restore_record_def own_entries_def unindex_eq reindex_eq bt_remove_absent
      map_entries_id)

lemma fold_reindex_eq:
  "distinct_ixs s \<Longrightarrow>
   fold (\<lambda>(k, r). reindex k r) recs s =
     map_entries (\<lambda>i. fold bs_insert (concat (map (\<lambda>(k, r). entry_list i k r) recs))) s"
proof (induction recs arbitrary: s)
  case Nil
  then show ?case
    by (simp add: map_entries_id)
next
  case (Cons x recs)
  then show ?case
    by (cases x) (simp add: reindex_eq)
qed

section \<open>The invariant\<close>

text \<open>
  \<open>N\<close> bounds the identifiers handed out so far. A record may still carry the keys of an
  index that was deleted, so only those of live indexes count.
\<close>

definition record_ok :: "nat \<Rightarrow> idb_record \<Rightarrow> bool" where
  "record_ok N r \<longleftrightarrow> (\<forall>(i, ks) \<in> set (rec_ikeys r). i \<le> N \<and> enc_list ks)"

definition records_ok :: "nat \<Rightarrow> (bytes, idb_record) btree_map \<Rightarrow> bool" where
  "records_ok N recs \<longleftrightarrow> bt_ok recs \<and> (\<forall>(pk, r) \<in> set recs. is_enc pk \<and> record_ok N r)"

definition index_ok :: "nat \<Rightarrow> (bytes, idb_record) btree_map \<Rightarrow> index \<Rightarrow> bool" where
  "index_ok N recs ix \<longleftrightarrow>
     ix_id ix \<le> N \<and> bs_ok (ix_entries ix) \<and> set (ix_entries ix) = entries_of (ix_id ix) recs"

definition store_ok :: "nat \<Rightarrow> store \<Rightarrow> bool" where
  "store_ok N s \<longleftrightarrow>
     st_id s \<le> N \<and> records_ok N (st_records s) \<and> distinct_ixs s \<and>
     (\<forall>ix \<in> set (st_indexes s). index_ok N (st_records s) ix)"

definition db_ok :: "db_data \<Rightarrow> bool" where
  "db_ok d \<longleftrightarrow>
     db_next_id d < 2 ^ 32 \<and> distinct (map st_id (db_stores d)) \<and>
     (\<forall>s \<in> set (db_stores d). store_ok (db_next_id d) s)"

lemma entries_of_Nil [simp]: "entries_of i [] = {}"
  by (simp add: entries_of_def)

lemma entries_of_insert:
  assumes "bt_ok recs"
  shows "entries_of i (bt_insert pk r (bt_remove pk recs)) =
    entries_of i (bt_remove pk recs) \<union> set (entry_list i pk r)"
proof -
  have "set (bt_insert pk r (bt_remove pk recs)) = insert (pk, r) (set (bt_remove pk recs))"
    using assms by (intro set_bt_insert_fresh) (simp_all add: bt_ok_remove bt_get_remove)
  then show ?thesis
    by (auto simp: entries_of_def)
qed

lemma entry_list_enc:
  "record_ok N r \<Longrightarrow> e \<in> set (entry_list i pk r) \<Longrightarrow> \<exists>k. is_enc k \<and> e = k @ pk"
  by (fastforce simp: entry_list_def record_ok_def enc_list_def split: if_splits)

text \<open>An entry tells the record it comes from: entries of other records are apart.\<close>

lemma entries_apart:
  assumes "record_ok N r" "record_ok N r'" "pk \<noteq> pk'"
  shows "set (entry_list i pk r) \<inter> set (entry_list i pk' r') = {}"
proof -
  have False if e: "e \<in> set (entry_list i pk r)" "e \<in> set (entry_list i pk' r')" for e
  proof -
    obtain k k' where "is_enc k" "e = k @ pk" "is_enc k'" "e = k' @ pk'"
      using entry_list_enc [OF assms(1) e(1)] entry_list_enc [OF assms(2) e(2)] by blast
    with assms(3) show False
      by (simp add: is_enc_append_inj)
  qed
  then show ?thesis
    by blast
qed

lemma other_entries_apart:
  assumes ok: "records_ok N recs" and r: "record_ok N r"
  shows "entries_of i (bt_remove pk recs) \<inter> set (entry_list i pk r) = {}"
proof -
  have "set (entry_list i pk' r') \<inter> set (entry_list i pk r) = {}"
    if other: "(pk', r') \<in> set recs" "pk' \<noteq> pk" for pk' r'
  proof (rule entries_apart [OF _ r other(2)])
    show "record_ok N r'"
      using ok other(1) by (auto simp: records_ok_def)
  qed
  then show ?thesis
    by (force simp: entries_of_def set_bt_remove)
qed

lemma entries_of_split:
  assumes "bt_ok recs" "bt_get recs pk = Some r"
  shows "entries_of i recs = entries_of i (bt_remove pk recs) \<union> set (entry_list i pk r)"
proof -
  have "bt_insert pk r (bt_remove pk recs) = recs"
    using assms by (rule bt.undo_delete)
  with entries_of_insert [OF assms(1), of i pk r] show ?thesis
    by simp
qed

lemma entries_of_remove:
  assumes ok: "records_ok N recs"
  shows "entries_of i (bt_remove pk recs) =
    entries_of i recs - (case bt_get recs pk of None \<Rightarrow> {} | Some r \<Rightarrow> set (entry_list i pk r))"
proof (cases "bt_get recs pk")
  case (Some r)
  then have "record_ok N r"
    using ok by (auto simp: records_ok_def dest: map_of_SomeD)
  from other_entries_apart [OF ok this] entries_of_split [OF _ Some] ok Some show ?thesis
    by (auto simp: records_ok_def)
next
  case None
  then show ?thesis
    by (simp add: bt_remove_absent)
qed

lemma records_ok_remove: "records_ok N recs \<Longrightarrow> records_ok N (bt_remove pk recs)"
  by (auto simp: records_ok_def bt_ok_remove set_bt_remove)

lemma records_ok_insert:
  assumes "records_ok N recs" "is_enc pk" "record_ok N r"
  shows "records_ok N (bt_insert pk r (bt_remove pk recs))"
  using assms by (auto simp: records_ok_def bt_ok_remove bt_ok_insert set_bt_remove
      set_bt_insert_fresh bt_get_remove)

section \<open>Operations on one store\<close>

lemma store_ok_update:
  assumes s: "store_ok N s" and recs: "records_ok N recs"
    and entries: "\<And>ix. ix \<in> set (st_indexes s) \<Longrightarrow>
      bs_ok (f (ix_id ix) (ix_entries ix)) \<and>
      set (f (ix_id ix) (ix_entries ix)) = entries_of (ix_id ix) recs"
  shows "store_ok N ((map_entries f s)\<lparr>st_records := recs\<rparr>)"
proof -
  have "index_ok N recs ix" if ix: "ix \<in> set (st_indexes (map_entries f s))" for ix
  proof -
    obtain ix0 where "ix0 \<in> set (st_indexes s)"
      and "ix = ix0\<lparr>ix_entries := f (ix_id ix0) (ix_entries ix0)\<rparr>"
      using ix by (auto simp: map_entries_def)
    with entries [of ix0] s show ?thesis
      by (auto simp: index_ok_def store_ok_def)
  qed
  with s recs show ?thesis
    by (simp add: store_ok_def)
qed

lemma index_facts:
  assumes "store_ok N s" and "ix \<in> set (st_indexes s)"
  shows "bs_ok (ix_entries ix)" and "set (ix_entries ix) = entries_of (ix_id ix) (st_records s)"
  using assms by (auto simp: store_ok_def index_ok_def)

lemma own_entries_subset: "set (own_entries i pk s) \<subseteq> entries_of i (st_records s)"
  by (fastforce simp: own_entries_def entries_of_def split: option.splits
      dest: map_of_SomeD [OF sym] map_of_SomeD)

lemma entries_without_own:
  assumes "store_ok N s"
  shows "entries_of i (bt_remove pk (st_records s)) =
    entries_of i (st_records s) - set (own_entries i pk s)"
  using assms
  by (auto simp: store_ok_def entries_of_remove own_entries_def split: option.splits)

lemma store_ok_distinct [simp]: "store_ok N s \<Longrightarrow> distinct_ixs s"
  by (simp add: store_ok_def)

lemma store_ok_bt: "store_ok N s \<Longrightarrow> bt_ok (st_records s)"
  by (simp add: store_ok_def records_ok_def)

lemma store_ok_records: "store_ok N s \<Longrightarrow> records_ok N (st_records s)"
  by (simp add: store_ok_def)

lemma stored_record_ok:
  "store_ok N s \<Longrightarrow> bt_get (st_records s) pk = Some r \<Longrightarrow> is_enc pk \<and> record_ok N r"
  by (auto simp: store_ok_def records_ok_def dest!: map_of_SomeD)

lemma store_ok_write_record:
  assumes s: "store_ok N s" and pk: "is_enc pk" and r: "record_ok N r"
  shows "store_ok N (write_record pk r s)"
  unfolding write_record_eq [OF store_ok_distinct [OF s]]
proof (rule store_ok_update [OF s])
  show "records_ok N (bt_insert pk r (bt_remove pk (st_records s)))"
    using store_ok_records [OF s] pk r by (rule records_ok_insert)
  fix ix assume ix: "ix \<in> set (st_indexes s)"
  note E = index_facts [OF s ix]
  show "bs_ok (fold bs_insert (entry_list (ix_id ix) pk r)
          (fold bs_remove (own_entries (ix_id ix) pk s) (ix_entries ix))) \<and>
      set (fold bs_insert (entry_list (ix_id ix) pk r)
          (fold bs_remove (own_entries (ix_id ix) pk s) (ix_entries ix))) =
        entries_of (ix_id ix) (bt_insert pk r (bt_remove pk (st_records s)))"
    using E by (simp add: bs.elems_fold_insert bs.elems_fold_remove
        entries_of_insert [OF store_ok_bt [OF s]] entries_without_own [OF s])
qed

lemma store_ok_remove_record:
  assumes s: "store_ok N s" and r: "bt_get (st_records s) pk = Some r"
  shows "store_ok N (remove_record pk r s)"
  unfolding remove_record_eq [OF store_ok_distinct [OF s]]
proof (rule store_ok_update [OF s])
  show "records_ok N (bt_remove pk (st_records s))"
    using store_ok_records [OF s] by (rule records_ok_remove)
  fix ix assume ix: "ix \<in> set (st_indexes s)"
  show "bs_ok (fold bs_remove (entry_list (ix_id ix) pk r) (ix_entries ix)) \<and>
      set (fold bs_remove (entry_list (ix_id ix) pk r) (ix_entries ix)) =
        entries_of (ix_id ix) (bt_remove pk (st_records s))"
    using index_facts [OF s ix] r
    by (simp add: bs.elems_fold_remove entries_without_own [OF s] own_entries_def)
qed

lemma store_ok_clear: "store_ok N s \<Longrightarrow> store_ok N (clear_indexes (s\<lparr>st_records := []\<rparr>))"
  unfolding clear_indexes_eq map_entries_simps
  by (rule store_ok_update) (auto simp: records_ok_def)

lemma restore_write_record:
  assumes s: "store_ok N s" and r: "record_ok N r"
  shows "restore_record pk (bt_get (st_records s) pk) (write_record pk r s) = s"
proof -
  have d: "distinct_ixs (write_record pk r s)"
    using s by (simp add: write_record_eq)
  have recs: "bt_ok (bt_remove pk (st_records s))"
    using store_ok_bt [OF s] by (rule bt_ok_remove)
  have own: "own_entries i pk (write_record pk r s) = entry_list i pk r" for i
    using s recs by (simp add: own_entries_def write_record_eq bt_get_insert)
  have old: "(case bt_get (st_records s) pk of None \<Rightarrow> [] | Some r \<Rightarrow> entry_list i pk r) =
      own_entries i pk s" for i
    by (simp add: own_entries_def)
  have records: "(case bt_get (st_records s) pk of
        None \<Rightarrow> bt_remove pk (st_records (write_record pk r s))
      | Some o' \<Rightarrow> bt_insert pk o' (bt_remove pk (st_records (write_record pk r s)))) = st_records s"
    using store_ok_bt [OF s] s recs
    by (auto simp: write_record_eq bt.delete_update bt_remove_absent bt.undo_delete
        bt_get_remove split: option.splits)
  have "map_entries (\<lambda>i es. fold bs_insert (own_entries i pk s)
          (fold bs_remove (entry_list i pk r)
            (fold bs_insert (entry_list i pk r) (fold bs_remove (own_entries i pk s) es)))) s = s"
  proof (rule map_entries_id)
    fix ix assume ix: "ix \<in> set (st_indexes s)"
    let ?i = "ix_id ix"
    note E = index_facts [OF s ix]
    note rem = bs.elems_fold_remove [OF E(1), of "own_entries ?i pk s"]
    have "set (fold bs_remove (own_entries ?i pk s) (ix_entries ix)) \<inter> set (entry_list ?i pk r) = {}"
      using other_entries_apart [OF store_ok_records [OF s] r] rem E
      by (simp add: entries_without_own [OF s])
    then have "fold bs_remove (entry_list ?i pk r)
        (fold bs_insert (entry_list ?i pk r) (fold bs_remove (own_entries ?i pk s) (ix_entries ix))) =
      fold bs_remove (own_entries ?i pk s) (ix_entries ix)"
      using rem by (intro bs.undo_insert_all) auto
    then show "fold bs_insert (own_entries ?i pk s) (fold bs_remove (entry_list ?i pk r)
        (fold bs_insert (entry_list ?i pk r)
          (fold bs_remove (own_entries ?i pk s) (ix_entries ix)))) = ix_entries ix"
      using E own_entries_subset [of ?i pk s] by (simp add: bs.undo_remove_all)
  qed
  then show ?thesis
    unfolding restore_record_eq [OF d] own old records
    using s by (simp add: write_record_eq)
qed

lemma restore_remove_record:
  assumes s: "store_ok N s" and r: "bt_get (st_records s) pk = Some r"
  shows "restore_record pk (Some r) (remove_record pk r s) = s"
proof -
  have d: "distinct_ixs (remove_record pk r s)"
    using s by (simp add: remove_record_eq)
  have own: "own_entries i pk (remove_record pk r s) = []" for i
    using s by (simp add: own_entries_def remove_record_eq bt_get_remove)
  have records: "bt_insert pk r (bt_remove pk (st_records (remove_record pk r s))) = st_records s"
    using s store_ok_bt [OF s] r
    by (simp add: remove_record_eq bt_remove_absent bt_get_remove bt.undo_delete)
  have "map_entries (\<lambda>i es. fold bs_insert (entry_list i pk r) (fold bs_remove (entry_list i pk r) es)) s = s"
  proof (rule map_entries_id)
    fix ix assume ix: "ix \<in> set (st_indexes s)"
    show "fold bs_insert (entry_list (ix_id ix) pk r)
        (fold bs_remove (entry_list (ix_id ix) pk r) (ix_entries ix)) = ix_entries ix"
      using index_facts [OF s ix] own_entries_subset [of "ix_id ix" pk s] r
      by (intro bs.undo_remove_all) (auto simp: own_entries_def)
  qed
  then show ?thesis
    unfolding restore_record_eq [OF d] own option.case records
    using s by (simp add: remove_record_eq)
qed

lemma restore_clear:
  assumes s: "store_ok N s"
  shows "restore_records (st_records s) (clear_indexes (s\<lparr>st_records := []\<rparr>)) = s"
proof -
  have "map_entries (\<lambda>i _. fold bs_insert
      (concat (map (\<lambda>(k, r). entry_list i k r) (st_records s))) []) s = s"
  proof (rule map_entries_id)
    fix ix assume ix: "ix \<in> set (st_indexes s)"
    let ?l = "concat (map (\<lambda>(k, r). entry_list (ix_id ix) k r) (st_records s))"
    have "set ?l = set (ix_entries ix)"
      using index_facts [OF s ix] by (auto simp: entries_of_def)
    then show "fold bs_insert ?l [] = ix_entries ix"
      using bs.elems_fold_insert [of "[]" ?l] index_facts [OF s ix] by (intro bs_ext) auto
  qed
  then show ?thesis
    using s by (simp add: restore_records_def clear_indexes_eq fold_reindex_eq)
qed

section \<open>Databases up to order\<close>

text \<open>
  Undoing the deletion of a store or an index puts it at the end, and an identifier is not
  given back. Everything a lookup can see is restored: that is equality of the views.
\<close>

record store_view =
  sv_name :: string
  sv_key_path :: key_path
  sv_auto_inc :: bool
  sv_next :: f64
  sv_records :: "(bytes, idb_record) btree_map"
  sv_index :: "nat \<Rightarrow> index option"

definition view_store :: "store \<Rightarrow> store_view" where
  "view_store s = \<lparr>sv_name = st_name s, sv_key_path = st_key_path s, sv_auto_inc = st_auto_inc s,
     sv_next = st_next s, sv_records = st_records s,
     sv_index = (\<lambda>i. find (\<lambda>ix. ix_id ix = i) (st_indexes s))\<rparr>"

definition view_db :: "db_data \<Rightarrow> nat \<Rightarrow> store_view option" where
  "view_db d i = map_option view_store (find (\<lambda>s. st_id s = i) (db_stores d))"

definition same_db :: "db_data \<Rightarrow> db_data \<Rightarrow> bool" where
  "same_db d e \<longleftrightarrow> db_version d = db_version e \<and> view_db d = view_db e"

lemma same_db_refl [simp]: "same_db d d"
  by (simp add: same_db_def)

lemma same_db_trans: "same_db d e \<Longrightarrow> same_db e f \<Longrightarrow> same_db d f"
  by (simp add: same_db_def)

lemma same_db_next_id [simp]: "same_db (d\<lparr>db_next_id := i\<rparr>) e = same_db d e"
  by (simp add: same_db_def view_db_def fun_eq_iff)

lemma find_upd_first:
  assumes "\<And>x. k (f x) = k x"
  shows "find (\<lambda>x. k x = i) (upd_first (\<lambda>x. k x = j) f xs) =
    (if i = j then map_option f (find (\<lambda>x. k x = i) xs) else find (\<lambda>x. k x = i) xs)"
  by (induction xs) (auto simp: assms)

lemma find_append_None:
  "find p (xs @ ys) = (case find p xs of None \<Rightarrow> find p ys | Some x \<Rightarrow> Some x)"
  by (induction xs) auto

lemma find_filter_key:
  "find (\<lambda>x. k x = i) (filter (\<lambda>x. k x \<noteq> j) xs) =
    (if i = j then None else find (\<lambda>x. k x = i) xs)"
  by (induction xs) auto

lemma find_map_key:
  assumes "\<And>x. k (f x) = k x"
  shows "find (\<lambda>x. k x = i) (map f xs) = map_option f (find (\<lambda>x. k x = i) xs)"
  by (induction xs) (auto simp: assms)

text \<open>A change of one store respects views when it keeps the identifier.\<close>

definition store_cong :: "(store \<Rightarrow> store) \<Rightarrow> bool" where
  "store_cong f \<longleftrightarrow> (\<forall>s. st_id (f s) = st_id s) \<and>
     (\<forall>s t. view_store s = view_store t \<longrightarrow> view_store (f s) = view_store (f t))"

lemma store_congI:
  assumes "\<And>s. st_id (f s) = st_id s"
    and "\<And>s t. view_store s = view_store t \<Longrightarrow> view_store (f s) = view_store (f t)"
  shows "store_cong f"
  unfolding store_cong_def using assms by blast

lemma store_cong_id: "store_cong f \<Longrightarrow> st_id (f s) = st_id s"
  unfolding store_cong_def by blast

lemma store_congD: "store_cong f \<Longrightarrow> view_store s = view_store t \<Longrightarrow> view_store (f s) = view_store (f t)"
  unfolding store_cong_def by blast

lemma store_cong_comp: "store_cong f \<Longrightarrow> store_cong g \<Longrightarrow> store_cong (\<lambda>s. g (f s))"
  by (intro store_congI) (simp add: store_cong_id, blast intro: store_congD)

lemma view_store_by_id:
  assumes "store_cong f"
  shows "view_db (store_by_id i f d) j =
    (if j = i then map_option (\<lambda>s. view_store (f s)) (find (\<lambda>s. st_id s = i) (db_stores d))
     else view_db d j)"
  using find_upd_first [of st_id f j i "db_stores d", OF store_cong_id [OF assms]]
  by (simp add: view_db_def store_by_id_def option.map_comp comp_def)

lemma same_db_store_by_id:
  assumes f: "store_cong f" and same: "same_db d e"
  shows "same_db (store_by_id i f d) (store_by_id i f e)"
proof -
  have v: "view_db d j = view_db e j" for j
    using same by (simp add: same_db_def)
  have "map_option (\<lambda>s. view_store (f s)) (find (\<lambda>s. st_id s = i) (db_stores d)) =
      map_option (\<lambda>s. view_store (f s)) (find (\<lambda>s. st_id s = i) (db_stores e))"
    using v [of i] unfolding view_db_def
    by (cases "find (\<lambda>s. st_id s = i) (db_stores d)";
        cases "find (\<lambda>s. st_id s = i) (db_stores e)") (auto intro: store_congD [OF f])
  then have "view_db (store_by_id i f d) = view_db (store_by_id i f e)"
    using v by (simp add: fun_eq_iff view_store_by_id [OF f])
  with same show ?thesis
    by (simp add: same_db_def store_by_id_def)
qed

lemma view_store_eq:
  "view_store s = view_store t \<longleftrightarrow>
     st_name s = st_name t \<and> st_key_path s = st_key_path t \<and> st_auto_inc s = st_auto_inc t \<and>
     st_next s = st_next t \<and> st_records s = st_records t \<and>
     (\<forall>i. find (\<lambda>ix. ix_id ix = i) (st_indexes s) = find (\<lambda>ix. ix_id ix = i) (st_indexes t))"
  by (auto simp: view_store_def fun_eq_iff)

lemma find_upd_index:
  assumes "\<And>ix. ix_id (f ix) = ix_id ix"
  shows "find (\<lambda>ix. ix_id ix = i) (upd_index j f ixs) =
    (if i = j then map_option f (find (\<lambda>ix. ix_id ix = i) ixs) else find (\<lambda>ix. ix_id ix = i) ixs)"
  unfolding upd_index_def using find_upd_first [of "\<lambda>ix. ix_id ix" f i j ixs] assms by simp

lemma find_fold_upd_index:
  assumes "\<forall>i. find (\<lambda>ix. ix_id ix = i) ixs = find (\<lambda>ix. ix_id ix = i) ixs'"
    and "\<And>keys ix. ix_id (g keys ix) = ix_id ix"
  shows "\<forall>i. find (\<lambda>ix. ix_id ix = i) (fold (\<lambda>(iid, keys). upd_index iid (g keys)) iks ixs) =
    find (\<lambda>ix. ix_id ix = i) (fold (\<lambda>(iid, keys). upd_index iid (g keys)) iks ixs')"
  using assms(1)
proof (induction iks arbitrary: ixs ixs')
  case (Cons ik iks)
  obtain j keys where "ik = (j, keys)"
    by (cases ik)
  moreover have "\<forall>i. find (\<lambda>ix. ix_id ix = i) (upd_index j (g keys) ixs) =
      find (\<lambda>ix. ix_id ix = i) (upd_index j (g keys) ixs')"
    using Cons.prems by (simp add: find_upd_index assms(2))
  ultimately show ?case
    using Cons.IH by simp
qed simp

lemma store_cong_unindex: "store_cong (unindex pk r)"
proof (rule store_congI)
  show "view_store (unindex pk r s) = view_store (unindex pk r t)"
    if "view_store s = view_store t" for s t
    using that find_fold_upd_index [of "st_indexes s" "st_indexes t" "remove_entries pk"]
    by (simp add: view_store_eq unindex_def remove_entries_def)
qed (simp add: unindex_def)

lemma store_cong_reindex: "store_cong (reindex pk r)"
proof (rule store_congI)
  show "view_store (reindex pk r s) = view_store (reindex pk r t)"
    if "view_store s = view_store t" for s t
    using that find_fold_upd_index [of "st_indexes s" "st_indexes t" "insert_entries pk"]
    by (simp add: view_store_eq reindex_def insert_entries_def)
qed (simp add: reindex_def)

lemma store_cong_clear: "store_cong clear_indexes"
  unfolding store_cong_def view_store_eq clear_indexes_def
  by (simp add: find_map_key [of "\<lambda>ix. ix_id ix"])

lemma store_cong_records: "store_cong (\<lambda>s. s\<lparr>st_records := g (st_records s)\<rparr>)"
  by (rule store_congI) (simp_all add: view_store_eq)

lemma store_cong_next: "store_cong (\<lambda>s. s\<lparr>st_next := x\<rparr>)"
  by (rule store_congI) (simp_all add: view_store_eq)

lemma store_cong_name: "store_cong (\<lambda>s. s\<lparr>st_name := x\<rparr>)"
  by (rule store_congI) (simp_all add: view_store_eq)

lemma store_cong_append: "store_cong (\<lambda>s. s\<lparr>st_indexes := st_indexes s @ [ix]\<rparr>)"
  by (rule store_congI) (simp_all add: view_store_eq find_append_None)

lemma store_cong_drop_index: "store_cong (drop_index iid)"
  by (rule store_congI)
    (simp_all add: view_store_eq drop_index_def find_filter_key [of "\<lambda>ix. ix_id ix"])

lemma store_cong_rename_index: "store_cong (rename_index iid name)"
  by (rule store_congI) (simp_all add: view_store_eq rename_index_def find_upd_index)

lemma store_cong_restore_record: "store_cong (restore_record key old)"
proof -
  let ?f = "\<lambda>s. case bt_get (st_records s) key of
      None \<Rightarrow> s | Some cur \<Rightarrow> unindex key cur (s\<lparr>st_records := bt_remove key (st_records s)\<rparr>)"
  have f: "store_cong ?f"
  proof (rule store_congI)
    fix s t assume v: "view_store s = view_store t"
    then have recs: "st_records s = st_records t"
      by (simp add: view_store_eq)
    note step = store_congD [OF store_cong_unindex
      store_congD [OF store_cong_records [of "bt_remove key"] v], of key]
    from v recs step show "view_store (?f s) = view_store (?f t)"
      by (cases "bt_get (st_records t) key") simp_all
  qed (auto split: option.splits simp: unindex_def)
  show ?thesis
  proof (cases old)
    case None
    with f show ?thesis
      by (simp add: restore_record_def [abs_def] Let_def)
  next
    case (Some r)
    have "store_cong (\<lambda>s. (reindex key r (?f s))\<lparr>st_records := bt_insert key r (st_records (reindex key r (?f s)))\<rparr>)"
      by (rule store_cong_comp [OF store_cong_comp [OF f store_cong_reindex] store_cong_records])
    with Some show ?thesis
      by (simp add: restore_record_def [abs_def] Let_def)
  qed
qed

lemma store_cong_fold:
  "(\<And>x. store_cong (g x)) \<Longrightarrow> store_cong (fold g xs)"
proof (induction xs)
  case (Cons x xs)
  have "store_cong (\<lambda>s. fold g xs (g x s))"
    by (rule store_cong_comp [OF Cons.prems Cons.IH [OF Cons.prems]])
  then show ?case
    by (simp add: comp_def)
qed (simp add: store_cong_def)

lemma store_cong_restore_records: "store_cong (restore_records recs)"
proof -
  have g: "store_cong (\<lambda>s. (clear_indexes s)\<lparr>st_records := recs\<rparr>)"
    by (rule store_cong_comp [OF store_cong_clear store_cong_records [of "\<lambda>_. recs"]])
  have "store_cong (fold (\<lambda>(k, r). reindex k r) recs)"
    by (rule store_cong_fold) (auto simp: store_cong_reindex)
  from store_cong_comp [OF g this] show ?thesis
    by (simp add: restore_records_def [abs_def])
qed

lemmas store_congs = store_cong_next store_cong_name store_cong_append store_cong_drop_index
  store_cong_rename_index store_cong_restore_record store_cong_restore_records

lemma view_db_append:
  "view_db (d\<lparr>db_stores := db_stores d @ [s]\<rparr>) i =
    (case view_db d i of
       None \<Rightarrow> if st_id s = i then Some (view_store s) else None
     | Some v \<Rightarrow> Some v)"
  by (auto simp: view_db_def find_append_None split: option.splits)

lemma view_db_filter:
  "view_db (d\<lparr>db_stores := filter (\<lambda>s. st_id s \<noteq> i) (db_stores d)\<rparr>) j =
    (if j = i then None else view_db d j)"
  using find_filter_key [of st_id j i "db_stores d"] by (auto simp: view_db_def)

lemma same_db_rollback:
  assumes "same_db d e"
  shows "same_db (rollback u d) (rollback u e)"
proof (cases u)
  case (UStoreCreated i)
  then show ?thesis
    using assms by (auto simp: same_db_def fun_eq_iff view_db_filter)
next
  case (UStoreDeleted s)
  then show ?thesis
    using assms by (auto simp: same_db_def fun_eq_iff view_db_append)
next
  case (UVersion v)
  then show ?thesis
    using assms by (auto simp: same_db_def view_db_def fun_eq_iff)
qed (use assms in \<open>auto intro!: same_db_store_by_id store_congs\<close>)

lemma same_db_fold_rollback:
  "same_db d e \<Longrightarrow> same_db (fold rollback us d) (fold rollback us e)"
  by (induction us arbitrary: d e) (auto intro: same_db_rollback)

lemma rollback_all_append:
  "rollback_all (us @ [u]) d = rollback_all us (rollback u d)"
  by (simp add: rollback_all_def)

lemma same_db_rollback_all: "same_db d e \<Longrightarrow> same_db (rollback_all us d) (rollback_all us e)"
  unfolding rollback_all_def by (rule same_db_fold_rollback)

section \<open>Mutations and their undo entries\<close>

definition new_index_ok ::
  "nat \<Rightarrow> store \<Rightarrow> bytes btree_set \<Rightarrow> (bytes \<times> bytes list) list \<Rightarrow> bool" where
  "new_index_ok i s entries per_record \<longleftrightarrow>
     map fst per_record = map fst (st_records s) \<and> (\<forall>(pk, ks) \<in> set per_record. enc_list ks) \<and>
     bs_ok entries \<and> set entries = (\<Union>(pk, ks) \<in> set per_record. (\<lambda>k. k @ pk) ` set ks)"

inductive mutation :: "db_data \<Rightarrow> undo \<Rightarrow> db_data \<Rightarrow> bool" where
  m_version: "mutation d (UVersion (db_version d)) (d\<lparr>db_version := v\<rparr>)"
| m_create_store:
    "st_id s = db_next_id d + 1 \<Longrightarrow> st_id s < 2 ^ 32 \<Longrightarrow> st_records s = [] \<Longrightarrow> st_indexes s = [] \<Longrightarrow>
     mutation d (UStoreCreated (st_id s))
       (d\<lparr>db_next_id := st_id s, db_stores := db_stores d @ [s]\<rparr>)"
| m_delete_store:
    "find_store name d = Some s \<Longrightarrow>
     mutation d (UStoreDeleted s)
       (d\<lparr>db_stores := remove_first (\<lambda>s. st_name s = name) (db_stores d)\<rparr>)"
| m_rename_store:
    "s \<in> set (db_stores d) \<Longrightarrow>
     mutation d (UStoreRenamed (st_id s) (st_name s))
       (store_by_id (st_id s) (\<lambda>s. s\<lparr>st_name := new\<rparr>) d)"
| m_create_index:
    "s \<in> set (db_stores d) \<Longrightarrow> im_id meta = db_next_id d + 1 \<Longrightarrow> im_id meta < 2 ^ 32 \<Longrightarrow>
     new_index_ok (im_id meta) s entries per_record \<Longrightarrow>
     mutation d (UIndexCreated (st_id s) (im_id meta))
       (store_by_id (st_id s) (install_index meta entries per_record)
         (d\<lparr>db_next_id := im_id meta\<rparr>))"
| m_delete_index:
    "s \<in> set (db_stores d) \<Longrightarrow>
     find (\<lambda>i. im_name (ix_meta i) = name) (st_indexes s) = Some ix \<Longrightarrow>
     mutation d (UIndexDeleted (st_id s) ix)
       (store_by_id (st_id s) (\<lambda>s. s\<lparr>st_indexes :=
          remove_first (\<lambda>i. im_name (ix_meta i) = name) (st_indexes s)\<rparr>) d)"
| m_rename_index:
    "s \<in> set (db_stores d) \<Longrightarrow>
     find (\<lambda>i. im_name (ix_meta i) = old) (st_indexes s) = Some ix \<Longrightarrow>
     mutation d (UIndexRenamed (st_id s) (ix_id ix) (im_name (ix_meta ix)))
       (store_by_id (st_id s) (rename_index (ix_id ix) new) d)"
| m_generator:
    "s \<in> set (db_stores d) \<Longrightarrow>
     mutation d (UKeyGen (st_id s) (st_next s))
       (store_by_id (st_id s) (\<lambda>s. s\<lparr>st_next := x\<rparr>) d)"
| m_write:
    "s \<in> set (db_stores d) \<Longrightarrow> is_enc pk \<Longrightarrow> record_ok (db_next_id d) r \<Longrightarrow>
     mutation d (URecord (st_id s) pk (bt_get (st_records s) pk))
       (store_by_id (st_id s) (write_record pk r) d)"
| m_remove:
    "s \<in> set (db_stores d) \<Longrightarrow> bt_get (st_records s) pk = Some r \<Longrightarrow>
     mutation d (URecord (st_id s) pk (Some r)) (store_by_id (st_id s) (remove_record pk r) d)"
| m_clear:
    "s \<in> set (db_stores d) \<Longrightarrow>
     mutation d (UCleared (st_id s) (st_records s))
       (store_by_id (st_id s) (\<lambda>s. clear_indexes (s\<lparr>st_records := []\<rparr>)) d)"

fun data_undo :: "undo \<Rightarrow> bool" where
  "data_undo (URecord i key old) = True"
| "data_undo (UKeyGen i old) = True"
| "data_undo (UCleared i records) = True"
| "data_undo u = False"

inductive history :: "db_data \<Rightarrow> undo list \<Rightarrow> db_data \<Rightarrow> bool" where
  h_start: "history d [] d"
| h_step: "history d us d' \<Longrightarrow> mutation d' u d'' \<Longrightarrow> history d (us @ [u]) d''"
| h_spent_id:
    "history d us d' \<Longrightarrow> db_next_id d' + 1 < 2 ^ 32 \<Longrightarrow>
     history d us (d'\<lparr>db_next_id := db_next_id d' + 1\<rparr>)"

lemma store_by_id_undo:
  assumes db: "db_ok d" and s: "s \<in> set (db_stores d)"
    and id: "\<And>t. st_id (f t) = st_id t" and undo: "g (f s) = s"
  shows "store_by_id (st_id s) g (store_by_id (st_id s) f d) = d"
proof -
  have only: "t = s" if "t \<in> set (db_stores d)" "st_id t = st_id s" for t
    using that s db unfolding db_ok_def by (auto simp: distinct_map dest: inj_onD)
  have "upd_first (\<lambda>t. st_id t = st_id s) g (upd_first (\<lambda>t. st_id t = st_id s) f (db_stores d)) =
      upd_first (\<lambda>t. st_id t = st_id s) (g \<circ> f) (db_stores d)"
    by (rule upd_first_upd_first) (simp add: id)
  also have "\<dots> = db_stores d"
    by (rule upd_first_same) (auto dest!: only simp: undo)
  finally show ?thesis
    by (simp add: store_by_id_def)
qed

lemma db_ok_store_by_id:
  assumes db: "db_ok d" and s: "s \<in> set (db_stores d)"
    and id: "\<And>t. st_id (f t) = st_id t" and ok: "store_ok (db_next_id d) (f s)"
  shows "db_ok (store_by_id (st_id s) f d)"
proof -
  have only: "t = s" if "t \<in> set (db_stores d)" "st_id t = st_id s" for t
    using that s db unfolding db_ok_def by (auto simp: distinct_map dest: inj_onD)
  have "map st_id (upd_first (\<lambda>t. st_id t = st_id s) f (db_stores d)) = map st_id (db_stores d)"
    by (rule map_upd_first) (rule id)
  moreover have "store_ok (db_next_id d) t"
    if "t \<in> set (upd_first (\<lambda>t. st_id t = st_id s) f (db_stores d))" for t
    using set_upd_first [OF that] db ok only by (auto simp: db_ok_def)
  ultimately show ?thesis
    using db by (simp add: db_ok_def store_by_id_def)
qed

section \<open>Creating an index\<close>

lemma store_ok_mono: "store_ok N s \<Longrightarrow> N \<le> M \<Longrightarrow> store_ok M s"
  by (fastforce simp: store_ok_def records_ok_def record_ok_def index_ok_def)

definition with_ikeys :: "nat \<Rightarrow> bytes list \<Rightarrow> idb_record \<Rightarrow> idb_record" where
  "with_ikeys iid ks r = r\<lparr>rec_ikeys := rec_ikeys r @ [(iid, ks)]\<rparr>"

lemma entry_list_with_ikeys:
  "entry_list j pk (with_ikeys iid ks r) =
    entry_list j pk r @ (if j = iid then map (\<lambda>k. k @ pk) ks else [])"
  by (auto simp: entry_list_def with_ikeys_def)

lemma entry_list_fresh: "record_ok N r \<Longrightarrow> N < i \<Longrightarrow> entry_list i pk r = []"
  by (force simp: entry_list_def record_ok_def)

lemma entries_of_get:
  "bt_ok recs \<Longrightarrow> entries_of i recs = {e. \<exists>pk r. bt_get recs pk = Some r \<and> e \<in> set (entry_list i pk r)}"
  unfolding entries_of_def using bt_ok_distinct [of recs] by fastforce

lemma push_ikeys_records:
  assumes "bt_ok (st_records s)" and "distinct (map fst per_record)"
  shows "bt_ok (st_records (fold (push_ikeys iid) per_record s)) \<and>
    (\<forall>pk. bt_get (st_records (fold (push_ikeys iid) per_record s)) pk =
      (case map_of per_record pk of
         None \<Rightarrow> bt_get (st_records s) pk
       | Some ks \<Rightarrow> map_option (with_ikeys iid ks) (bt_get (st_records s) pk)))"
  using assms
proof (induction per_record arbitrary: s)
  case (Cons p per_record)
  obtain pk ks where p: "p = (pk, ks)"
    by (cases p)
  let ?s = "push_ikeys iid (pk, ks) s"
  have ok: "bt_ok (st_records ?s)"
    using Cons.prems(1) by (auto simp: push_ikeys_def bt_ok_insert split: option.splits)
  have get: "bt_get (st_records ?s) k =
      (if k = pk then map_option (with_ikeys iid ks) (bt_get (st_records s) k)
       else bt_get (st_records s) k)" for k
    using Cons.prems(1)
    by (auto simp: push_ikeys_def bt_get_insert with_ikeys_def split: option.splits)
  have fresh: "map_of per_record pk = None"
    using Cons.prems(2) by (simp add: p map_of_eq_None_iff)
  from Cons.IH [OF ok] Cons.prems(2) show ?case
    unfolding p by (auto simp: get fresh split: option.splits)
qed simp

lemma push_ikeys_other [simp]:
  "st_id (push_ikeys iid x s) = st_id s"
  "st_indexes (push_ikeys iid x s) = st_indexes s"
  "st_records_update (\<lambda>_. recs) (push_ikeys iid x s) = s\<lparr>st_records := recs\<rparr>"
  by (auto simp: push_ikeys_def split: prod.splits option.splits)

lemma fold_push_ikeys_other [simp]:
  "st_id (fold (push_ikeys iid) xs s) = st_id s"
  "st_indexes (fold (push_ikeys iid) xs s) = st_indexes s"
  "(fold (push_ikeys iid) xs s)\<lparr>st_records := recs\<rparr> = s\<lparr>st_records := recs\<rparr>"
  by (induction xs arbitrary: s) auto

lemma store_self: "(t :: store) = t\<lparr>st_records := st_records t\<rparr>"
  by (cases t) simp

lemma install_index_records:
  assumes s: "store_ok N s" and new: "new_index_ok (im_id meta) s entries per_record"
  obtains recs where "install_index meta entries per_record s =
      s\<lparr>st_records := recs, st_indexes := st_indexes s @ [\<lparr>ix_meta = meta, ix_entries = entries\<rparr>]\<rparr>"
    and "bt_ok recs"
    and "\<And>pk. bt_get recs pk = (case bt_get (st_records s) pk of None \<Rightarrow> None
      | Some r \<Rightarrow> Some (with_ikeys (im_id meta) (the (map_of per_record pk)) r))"
    and "\<And>pk r. bt_get (st_records s) pk = Some r \<Longrightarrow> (pk, the (map_of per_record pk)) \<in> set per_record"
    and "\<And>pk ks. (pk, ks) \<in> set per_record \<Longrightarrow> map_of per_record pk = Some ks"
    and "\<And>pk ks. (pk, ks) \<in> set per_record \<Longrightarrow> bt_get (st_records s) pk \<noteq> None"
proof -
  let ?s = "fold (push_ikeys (im_id meta)) per_record s"
  have bt: "bt_ok (st_records s)"
    using s by (rule store_ok_bt)
  have keys: "map fst per_record = map fst (st_records s)"
    using new by (simp add: new_index_ok_def)
  have dist: "distinct (map fst per_record)"
    unfolding keys using bt by (rule bt_ok_distinct)
  have dom: "map_of per_record pk = None \<longleftrightarrow> bt_get (st_records s) pk = None" for pk
    unfolding map_of_eq_None_iff using keys by (metis list.set_map)
  note push = push_ikeys_records [OF bt dist, of "im_id meta"]
  show thesis
  proof (rule that [of "st_records ?s"])
    show "install_index meta entries per_record s = s\<lparr>st_records := st_records ?s,
        st_indexes := st_indexes s @ [\<lparr>ix_meta = meta, ix_entries = entries\<rparr>]\<rparr>"
    proof -
      let ?x = "st_indexes s @ [\<lparr>ix_meta = meta, ix_entries = entries\<rparr>]"
      have "?s = ?s\<lparr>st_records := st_records ?s\<rparr>"
        by (rule store_self)
      also have "\<dots> = s\<lparr>st_records := st_records ?s\<rparr>"
        by (rule fold_push_ikeys_other)
      finally have "?s\<lparr>st_indexes := ?x\<rparr> = s\<lparr>st_records := st_records ?s\<rparr>\<lparr>st_indexes := ?x\<rparr>"
        by (rule arg_cong)
      then show ?thesis
        by (simp add: install_index_def Let_def)
    qed
    show "bt_ok (st_records ?s)"
      using push by blast
    show "bt_get (st_records ?s) pk = (case bt_get (st_records s) pk of None \<Rightarrow> None
      | Some r \<Rightarrow> Some (with_ikeys (im_id meta) (the (map_of per_record pk)) r))" for pk
      using push dom [of pk] by (auto split: option.splits)
    show "(pk, the (map_of per_record pk)) \<in> set per_record"
      if "bt_get (st_records s) pk = Some r" for pk r
      using dom [of pk] that by (cases "map_of per_record pk") (auto dest: map_of_SomeD)
    show get: "map_of per_record pk = Some ks" if "(pk, ks) \<in> set per_record" for pk ks
      using dist that by simp
    show "bt_get (st_records s) pk \<noteq> None" if "(pk, ks) \<in> set per_record" for pk ks
      using get [OF that] dom [of pk] by auto
  qed
qed

lemma install_index_ok:
  assumes s: "store_ok N s" and fresh: "N < im_id meta"
    and new: "new_index_ok (im_id meta) s entries per_record"
  shows "store_ok (im_id meta) (install_index meta entries per_record s)" (is ?ok)
    and "drop_index (im_id meta) (install_index meta entries per_record s) = s" (is ?drop)
proof -
  let ?i = "im_id meta"
  obtain recs where inst: "install_index meta entries per_record s =
      s\<lparr>st_records := recs, st_indexes := st_indexes s @ [\<lparr>ix_meta = meta, ix_entries = entries\<rparr>]\<rparr>"
    and bt: "bt_ok recs"
    and get: "\<And>pk. bt_get recs pk = (case bt_get (st_records s) pk of None \<Rightarrow> None
      | Some r \<Rightarrow> Some (with_ikeys ?i (the (map_of per_record pk)) r))"
    and per: "\<And>pk r. bt_get (st_records s) pk = Some r \<Longrightarrow> (pk, the (map_of per_record pk)) \<in> set per_record"
    and per': "\<And>pk ks. (pk, ks) \<in> set per_record \<Longrightarrow> map_of per_record pk = Some ks"
    and per'': "\<And>pk ks. (pk, ks) \<in> set per_record \<Longrightarrow> bt_get (st_records s) pk \<noteq> None"
    using install_index_records [OF s new] by metis
  have ids: "ix_id ix \<le> N" if "ix \<in> set (st_indexes s)" for ix
    using s that by (auto simp: store_ok_def index_ok_def)
  have recs_ok: "records_ok ?i recs"
  proof -
    have "is_enc pk \<and> record_ok ?i r'" if r': "(pk, r') \<in> set recs" for pk r'
    proof -
      have "bt_get recs pk = Some r'"
        using r' bt_ok_distinct [OF bt] by simp
      with get obtain r where r: "bt_get (st_records s) pk = Some r"
        and r'_eq: "r' = with_ikeys ?i (the (map_of per_record pk)) r"
        by (auto split: option.splits)
      have "enc_list (the (map_of per_record pk))"
        using new per [OF r] by (auto simp: new_index_ok_def)
      moreover have "is_enc pk" "record_ok N r"
        using stored_record_ok [OF s r] by auto
      ultimately show ?thesis
        using fresh by (fastforce simp: r'_eq record_ok_def with_ikeys_def)
    qed
    with bt show ?thesis
      by (auto simp: records_ok_def)
  qed
  have bt0: "bt_ok (st_records s)"
    using s by (rule store_ok_bt)
  have old: "entries_of j recs = entries_of j (st_records s)" if "j \<noteq> ?i" for j
    using that by (auto simp: entries_of_get [OF bt] entries_of_get [OF bt0] get
        entry_list_with_ikeys split: option.splits)
  have new_entries: "entries_of ?i recs = set entries"
  proof -
    have el: "entry_list ?i pk (with_ikeys ?i ks r) = map (\<lambda>k. k @ pk) ks"
      if "bt_get (st_records s) pk = Some r" for pk ks r
    proof -
      have "entry_list ?i pk r = []"
        using stored_record_ok [OF s that] fresh by (intro entry_list_fresh) auto
      then show ?thesis
        by (simp add: entry_list_with_ikeys)
    qed
    have entries: "set entries = (\<Union>(pk, ks) \<in> set per_record. (\<lambda>k. k @ pk) ` set ks)"
      using new by (simp add: new_index_ok_def)
    show ?thesis
    proof (intro set_eqI iffI)
      fix e assume "e \<in> entries_of ?i recs"
      then obtain pk r where "bt_get (st_records s) pk = Some r"
        and "e \<in> (\<lambda>k. k @ pk) ` set (the (map_of per_record pk))"
        by (auto simp: entries_of_get [OF bt] get el split: option.splits)
      with per show "e \<in> set entries"
        unfolding entries by blast
    next
      fix e assume "e \<in> set entries"
      then obtain pk ks k where k: "(pk, ks) \<in> set per_record" "k \<in> set ks" "e = k @ pk"
        unfolding entries by blast
      moreover obtain r where r: "bt_get (st_records s) pk = Some r"
        using per'' [OF k(1)] by blast
      moreover from r have "bt_get recs pk = Some (with_ikeys ?i ks r)"
        using per' [OF k(1)] by (simp add: get)
      ultimately show "e \<in> entries_of ?i recs"
        using el [OF r, of ks] unfolding entries_of_get [OF bt] by fastforce
    qed
  qed
  have indexes: "index_ok ?i recs ix" if "ix \<in> set (st_indexes s)" for ix
    using s that fresh ids [OF that] by (auto simp: store_ok_def index_ok_def old)
  have apart: "ix_id ix \<noteq> ?i" if "ix \<in> set (st_indexes s)" for ix
    using ids [OF that] fresh by simp
  show ?ok
    unfolding inst store_ok_def
    using s fresh recs_ok indexes new new_entries apart
    by (auto simp: distinct_ixs_def store_ok_def index_ok_def new_index_ok_def)
  show ?drop
  proof -
    have "map (\<lambda>(k, r). (k, r\<lparr>rec_ikeys := filter (\<lambda>(i, _). i \<noteq> ?i) (rec_ikeys r)\<rparr>)) recs =
        st_records s"
    proof (rule bt_ext)
      show "bt_ok (map (\<lambda>(k, r). (k, r\<lparr>rec_ikeys := filter (\<lambda>(i, _). i \<noteq> ?i) (rec_ikeys r)\<rparr>)) recs)"
        using bt by (simp only: bt_ok_map_snd [of "\<lambda>_. _"])
      have "filter (\<lambda>(i, _). i \<noteq> ?i) (rec_ikeys r) = rec_ikeys r"
        if "bt_get (st_records s) pk = Some r" for pk r
        using stored_record_ok [OF s that] fresh by (auto simp: filter_id_conv record_ok_def)
      then show "bt_get (map (\<lambda>(k, r). (k, r\<lparr>rec_ikeys := filter (\<lambda>(i, _). i \<noteq> ?i) (rec_ikeys r)\<rparr>)) recs) =
          bt_get (st_records s)"
        by (auto simp: fun_eq_iff bt_get_map_snd [of "\<lambda>_. _"] get with_ikeys_def split: option.splits)
    qed (rule bt0)
    moreover have "filter (\<lambda>i. ix_id i \<noteq> ?i) (st_indexes s) = st_indexes s"
      using apart by (auto simp: filter_id_conv)
    ultimately show ?thesis
      by (simp add: inst drop_index_def)
  qed
qed

section \<open>An aborted transaction\<close>

lemma data_mutation:
  assumes "mutation d u d'" and "db_ok d" and "data_undo u"
  shows "db_ok d' \<and> rollback u d' = d \<and> db_next_id d' = db_next_id d"
  using assms
proof (cases rule: mutation.cases)
  case (m_generator s x)
  with assms(2) have "store_ok (db_next_id d) s"
    by (simp add: db_ok_def)
  then have ok: "store_ok (db_next_id d) (s\<lparr>st_next := x\<rparr>)"
    by (simp add: store_ok_def distinct_ixs_def)
  have id: "st_id (t\<lparr>st_next := x\<rparr>) = st_id t" for t :: store
    by simp
  have undo: "s\<lparr>st_next := x\<rparr>\<lparr>st_next := st_next s\<rparr> = s"
    by simp
  show ?thesis
    unfolding m_generator(1,2)
    using db_ok_store_by_id [OF assms(2) m_generator(3) id ok]
      store_by_id_undo [OF assms(2) m_generator(3) id,
        where g = "\<lambda>t. t\<lparr>st_next := st_next s\<rparr>", OF undo]
    by (simp add: store_by_id_def)
next
  case (m_write s pk r)
  with assms(2) have ok: "store_ok (db_next_id d) s"
    by (simp add: db_ok_def)
  have id: "st_id (write_record pk r t) = st_id t" for t
    by (simp add: write_record_def Let_def unindex_def reindex_def split: option.splits)
  show ?thesis
    unfolding m_write(1,2)
    using db_ok_store_by_id [OF assms(2) m_write(3) id store_ok_write_record [OF ok m_write(4,5)]]
      store_by_id_undo [OF assms(2) m_write(3) id,
        where g = "restore_record pk (bt_get (st_records s) pk)",
        OF restore_write_record [OF ok m_write(5)]]
    by (simp add: store_by_id_def)
next
  case (m_remove s pk r)
  with assms(2) have ok: "store_ok (db_next_id d) s"
    by (simp add: db_ok_def)
  have id: "st_id (remove_record pk r t) = st_id t" for t
    by (simp add: remove_record_def unindex_def)
  show ?thesis
    unfolding m_remove(1,2)
    using db_ok_store_by_id [OF assms(2) m_remove(3) id store_ok_remove_record [OF ok m_remove(4)]]
      store_by_id_undo [OF assms(2) m_remove(3) id,
        where g = "restore_record pk (Some r)",
        OF restore_remove_record [OF ok m_remove(4)]]
    by (simp add: store_by_id_def)
next
  case (m_clear s)
  with assms(2) have ok: "store_ok (db_next_id d) s"
    by (simp add: db_ok_def)
  have id: "st_id (clear_indexes (t\<lparr>st_records := []\<rparr>)) = st_id t" for t
    by (simp add: clear_indexes_def)
  show ?thesis
    unfolding m_clear(1,2)
    using db_ok_store_by_id [OF assms(2) m_clear(3) id store_ok_clear [OF ok]]
      store_by_id_undo [OF assms(2) m_clear(3) id,
        where g = "restore_records (st_records s)",
        OF restore_clear [OF ok]]
    by (simp add: store_by_id_def)
qed simp_all

lemma find_rotate:
  assumes "k x \<notin> k ` set xs"
  shows "find (\<lambda>y. k y = i) (xs @ [x]) = find (\<lambda>y. k y = i) (x # xs)"
proof (cases "k x = i")
  case True
  with assms have "find (\<lambda>y. k y = i) xs = None"
    unfolding find_None_iff by (metis image_eqI)
  with True show ?thesis
    by (simp add: find_append_None)
next
  case False
  then show ?thesis
    by (cases "find (\<lambda>y. k y = i) xs") (simp_all add: find_append_None)
qed

lemma find_remove_first_append:
  assumes "distinct (map k xs)" and "find p xs = Some x"
  shows "find (\<lambda>y. k y = i) (remove_first p xs @ [x]) = find (\<lambda>y. k y = i) xs"
  using assms
proof (induction xs)
  case (Cons y xs)
  then show ?case
    using find_rotate [of k y xs i] by (cases "p y") auto
qed simp

lemma remove_first_distinct: "distinct (map k xs) \<Longrightarrow> distinct (map k (remove_first p xs))"
  by (induction xs) (use set_remove_first in fastforce)+

lemma view_undo_in_store:
  assumes "s \<in> set (db_stores d)" and "distinct (map st_id (db_stores d))"
    and "\<And>t. st_id (f t) = st_id t" and "\<And>t. st_id (g t) = st_id t"
    and "view_store (g (f s)) = view_store s"
  shows "same_db (store_by_id (st_id s) g (store_by_id (st_id s) f d)) d"
proof -
  have only: "find (\<lambda>t. st_id t = st_id s) (db_stores d) = Some s"
    using assms(2,1) by (rule find_by_key)
  show ?thesis
    using find_upd_first [of st_id f _ "st_id s" "db_stores d"]
      find_upd_first [of st_id g _ "st_id s" "upd_first (\<lambda>x. st_id x = st_id s) f (db_stores d)"]
      assms(3-5) only
    by (auto simp: same_db_def store_by_id_def view_db_def fun_eq_iff)
qed

lemma store_in_db: "db_ok d \<Longrightarrow> s \<in> set (db_stores d) \<Longrightarrow> store_ok (db_next_id d) s"
  by (simp add: db_ok_def)

lemma db_ok_next_id:
  "db_ok d \<Longrightarrow> db_next_id d \<le> i \<Longrightarrow> i < 2 ^ 32 \<Longrightarrow> db_ok (d\<lparr>db_next_id := i\<rparr>)"
  by (auto simp: db_ok_def intro: store_ok_mono)

lemma store_ok_remove_index:
  "store_ok N s \<Longrightarrow> store_ok N (s\<lparr>st_indexes := remove_first p (st_indexes s)\<rparr>)"
  using set_remove_first [of p "st_indexes s"]
  by (auto simp: store_ok_def distinct_ixs_def remove_first_distinct)

lemma view_remove_index:
  assumes "store_ok N s" and "find p (st_indexes s) = Some ix"
  shows "view_store (s\<lparr>st_indexes := remove_first p (st_indexes s) @ [ix]\<rparr>) = view_store s"
  using assms find_remove_first_append [of "\<lambda>ix. ix_id ix" "st_indexes s" p ix]
  by (simp add: view_store_eq store_ok_def distinct_ixs_def)

lemma store_ok_rename_index: "store_ok N s \<Longrightarrow> store_ok N (rename_index iid name s)"
  by (auto simp: store_ok_def rename_index_def distinct_ixs_def upd_index_map index_ok_def
      comp_def if_distrib cong: if_cong)

lemma rename_index_undo:
  assumes s: "store_ok N s" and ix: "ix \<in> set (st_indexes s)"
  shows "rename_index (ix_id ix) (im_name (ix_meta ix)) (rename_index (ix_id ix) new s) = s"
proof -
  have only: "y = ix" if "y \<in> set (st_indexes s)" "ix_id y = ix_id ix" for y
    using that ix s unfolding store_ok_def distinct_ixs_def by (auto simp: distinct_map dest: inj_onD)
  let ?r = "\<lambda>n ix. ix\<lparr>ix_meta := (ix_meta ix)\<lparr>im_name := n\<rparr>\<rparr> :: index"
  have "upd_index (ix_id ix) (?r (im_name (ix_meta ix))) (upd_index (ix_id ix) (?r new) (st_indexes s)) =
      upd_index (ix_id ix) (?r (im_name (ix_meta ix)) \<circ> ?r new) (st_indexes s)"
    unfolding upd_index_def by (rule upd_first_upd_first) simp
  also have "\<dots> = st_indexes s"
    unfolding upd_index_def by (rule upd_first_same) (auto dest!: only)
  finally show ?thesis
    by (simp add: rename_index_def)
qed

lemma view_create_store:
  assumes "db_ok d" and "st_id s = db_next_id d + 1"
  shows "filter (\<lambda>t. st_id t \<noteq> st_id s) (db_stores d @ [s]) = db_stores d"
  using assms by (fastforce simp: filter_id_conv db_ok_def store_ok_def)

lemma mutation_ok:
  assumes "mutation d u d'" and db: "db_ok d"
  shows "db_ok d' \<and> same_db (rollback u d') d \<and> db_next_id d \<le> db_next_id d'"
  using assms(1)
proof (cases "data_undo u")
  case True
  with data_mutation [OF assms(1) db] show ?thesis
    by simp
next
  case False
  from assms(1) show ?thesis
  proof (cases rule: mutation.cases)
    case (m_version v)
    with db show ?thesis
      by (simp add: db_ok_def same_db_def view_db_def fun_eq_iff)
  next
    case (m_create_store s)
    have new: "st_id s \<notin> st_id ` set (db_stores d)"
      using db m_create_store(3) by (fastforce simp: db_ok_def store_ok_def)
    have "store_ok (st_id s) s"
      using m_create_store by (simp add: store_ok_def records_ok_def distinct_ixs_def)
    moreover have "db_ok (d\<lparr>db_next_id := st_id s\<rparr>)"
      using db m_create_store by (intro db_ok_next_id) auto
    ultimately have "db_ok d'"
      using new m_create_store(2,4) by (simp add: db_ok_def)
    moreover have "rollback u d' = d\<lparr>db_next_id := st_id s\<rparr>"
      using view_create_store [OF db m_create_store(3)] by (simp add: m_create_store(1,2))
    ultimately show ?thesis
      using m_create_store(2,3) by simp
  next
    case (m_delete_store name s)
    then have find: "find (\<lambda>s. st_name s = name) (db_stores d) = Some s"
      by (simp add: find_store_def)
    have "db_ok d'"
      using db set_remove_first [of "\<lambda>s. st_name s = name" "db_stores d"]
      by (auto simp: m_delete_store(2) db_ok_def remove_first_distinct)
    moreover have "same_db (rollback u d') d"
      using find_remove_first_append [OF _ find, of st_id] db
      by (simp add: m_delete_store(1,2) same_db_def view_db_def db_ok_def fun_eq_iff)
    ultimately show ?thesis
      by (simp add: m_delete_store(2))
  next
    case (m_rename_store s new)
    have "store_ok (db_next_id d) (s\<lparr>st_name := new\<rparr>)"
      using store_in_db [OF db m_rename_store(3)] by (simp add: store_ok_def distinct_ixs_def)
    then have "db_ok d'"
      unfolding m_rename_store(2) using db m_rename_store(3) by (intro db_ok_store_by_id) auto
    moreover have "rollback u d' = d"
      unfolding m_rename_store(1,2) rollback.simps
      using db m_rename_store(3) by (intro store_by_id_undo) auto
    ultimately show ?thesis
      by (simp add: m_rename_store(2) store_by_id_def)
  next
    case (m_create_index s meta entries per_record)
    let ?d = "d\<lparr>db_next_id := im_id meta\<rparr>"
    have s: "s \<in> set (db_stores ?d)" and db': "db_ok ?d"
      using m_create_index db by (auto intro: db_ok_next_id)
    have id: "st_id (install_index meta entries per_record t) = st_id t" for t
      by (simp add: install_index_def Let_def)
    note ok = install_index_ok [OF store_in_db [OF db m_create_index(3)] _ m_create_index(6)]
    have "db_ok d'"
      unfolding m_create_index(2) using ok(1) m_create_index(4)
      by (intro db_ok_store_by_id [OF db' s id]) simp
    moreover have "rollback u d' = ?d"
      unfolding m_create_index(1,2) rollback.simps using ok(2) m_create_index(4)
      by (intro store_by_id_undo [OF db' s id]) simp
    ultimately show ?thesis
      using m_create_index(4) by (simp add: m_create_index(2) store_by_id_def)
  next
    case (m_delete_index s name ix)
    let ?f = "\<lambda>s. s\<lparr>st_indexes := remove_first (\<lambda>i. im_name (ix_meta i) = name) (st_indexes s)\<rparr>"
    note s = store_in_db [OF db m_delete_index(3)]
    have "db_ok d'"
      unfolding m_delete_index(2) using db m_delete_index(3) store_ok_remove_index [OF s]
      by (intro db_ok_store_by_id) auto
    moreover have "same_db (rollback u d') d"
      unfolding m_delete_index(1,2) rollback.simps
      using db m_delete_index(3) view_remove_index [OF s m_delete_index(4)]
      by (intro view_undo_in_store) (auto simp: db_ok_def)
    ultimately show ?thesis
      by (simp add: m_delete_index(2) store_by_id_def)
  next
    case (m_rename_index s old ix new)
    note s = store_in_db [OF db m_rename_index(3)]
    have id: "st_id (rename_index (ix_id ix) new t) = st_id t" for t
      by (simp add: rename_index_def)
    have ix: "ix \<in> set (st_indexes s)"
      using m_rename_index(4) by (auto dest: find_Some_in)
    have "db_ok d'"
      unfolding m_rename_index(2)
      using store_ok_rename_index [OF s] by (intro db_ok_store_by_id [OF db m_rename_index(3) id])
    moreover have "rollback u d' = d"
      unfolding m_rename_index(1,2) rollback.simps
      by (rule store_by_id_undo [OF db m_rename_index(3) id,
          where g = "rename_index (ix_id ix) (im_name (ix_meta ix))", OF rename_index_undo [OF s ix]])
    ultimately show ?thesis
      by (simp add: m_rename_index(2) store_by_id_def)
  qed (use False in simp_all)
qed

lemma history_ok:
  assumes "history d us d'" and "db_ok d"
  shows "db_ok d' \<and> same_db (rollback_all us d') d \<and> db_next_id d \<le> db_next_id d'"
  using assms
proof (induction rule: history.induct)
  case (h_start d)
  then show ?case
    by (simp add: rollback_all_def)
next
  case (h_step d us d' u d'')
  with mutation_ok [of d' u d''] have "same_db (rollback u d'') d'" "db_ok d''"
    and le: "db_next_id d' \<le> db_next_id d''"
    by auto
  then have "same_db (rollback_all us (rollback u d'')) (rollback_all us d')"
    by (intro same_db_rollback_all)
  with h_step le \<open>db_ok d''\<close> show ?case
    by (auto simp: rollback_all_append intro: same_db_trans)
next
  case (h_spent_id d us d')
  have "same_db (d'\<lparr>db_next_id := db_next_id d' + 1\<rparr>) d'"
    by simp
  then have "same_db (rollback_all us (d'\<lparr>db_next_id := db_next_id d' + 1\<rparr>)) (rollback_all us d')"
    by (rule same_db_rollback_all)
  with h_spent_id show ?case
    by (auto intro: same_db_trans db_ok_next_id)
qed

text \<open>A transaction that only touched data is taken back exactly.\<close>

lemma data_history:
  assumes "history d us d'" and "db_ok d" and "list_all data_undo us"
    and "db_next_id d' = db_next_id d"
  shows "rollback_all us d' = d"
  using assms
proof (induction rule: history.induct)
  case (h_start d)
  then show ?case
    by (simp add: rollback_all_def)
next
  case (h_step d us d' u d'')
  have "db_ok d'"
    using history_ok [OF h_step.hyps(1) h_step.prems(1)] by simp
  with h_step data_mutation [of d' u d''] show ?case
    by (simp add: rollback_all_append)
next
  case (h_spent_id d us d')
  with history_ok [of d us d'] show ?case
    by simp
qed

end
