(* ===== verification/IdbDemo.thy ===== *)
theory IdbDemo
  imports IdbStore
begin

text \<open>
  A small concrete engine for the parameter \<open>V\<close> of the IndexedDB model, at which the
  properties with hypotheses are evaluated: immutable numbers, strings, arrays and objects,
  and a serializer for the objects with one string property \<open>a\<close> of one code unit.
\<close>

datatype jsval = JUndef | JNum f64 | JStr "u16 list" | JArr "jsval list" | JObj "(string \<times> jsval) list"

definition has_own_js :: "jsval \<Rightarrow> string \<Rightarrow> bool" where
  "has_own_js v name =
     (case v of
        JObj ps \<Rightarrow> map_of ps name \<noteq> None
      | JArr vs \<Rightarrow> list_ex (\<lambda>i. nat_str i = name) [0..<length vs]
      | _ \<Rightarrow> False)"

definition get_js :: "jsval \<Rightarrow> string \<Rightarrow> jsval" where
  "get_js v name =
     (case v of JObj ps \<Rightarrow> (case map_of ps name of Some w \<Rightarrow> w | None \<Rightarrow> JUndef) | _ \<Rightarrow> JUndef)"

definition get_index_js :: "jsval \<Rightarrow> nat \<Rightarrow> jsval" where
  "get_index_js v i = (case v of JArr vs \<Rightarrow> if i < length vs then vs ! i else JUndef | _ \<Rightarrow> JUndef)"

definition write_js :: "jsval \<Rightarrow> bytes option \<times> string option" where
  "write_js v =
     (case v of
        JObj [(n, JStr [u])] \<Rightarrow> if n = ''a'' then (Some [ucast u], None) else (None, None)
      | _ \<Rightarrow> (None, None))"

definition read_js :: "bytes \<Rightarrow> jsval option" where
  "read_js bs = (case bs of [b] \<Rightarrow> Some (JObj [(''a'', JStr [ucast b])]) | _ \<Rightarrow> None)"

definition demo_v8 :: "(unit, jsval) v8" where
  "demo_v8 = \<lparr>
     v8_is_number = (\<lambda>v. case v of JNum _ \<Rightarrow> True | _ \<Rightarrow> False),
     v8_is_string = (\<lambda>v. case v of JStr _ \<Rightarrow> True | _ \<Rightarrow> False),
     v8_is_date = (\<lambda>v. False),
     v8_is_array_buffer = (\<lambda>v. False),
     v8_is_array_buffer_view = (\<lambda>v. False),
     v8_is_array = (\<lambda>v. case v of JArr _ \<Rightarrow> True | _ \<Rightarrow> False),
     v8_is_object = (\<lambda>v. case v of JArr _ \<Rightarrow> True | JObj _ \<Rightarrow> True | _ \<Rightarrow> False),
     v8_is_null_or_undefined = (\<lambda>v. v = JUndef),
     v8_is_undefined = (\<lambda>v. v = JUndef),
     v8_strict_equals = (=),
     v8_boolean_value = (\<lambda>v. v \<noteq> JUndef),
     v8_number_value = (\<lambda>v. case v of JNum x \<Rightarrow> Some x | _ \<Rightarrow> None),
     v8_string_units = (\<lambda>v. case v of JStr u \<Rightarrow> u | _ \<Rightarrow> []),
     v8_date_value = (\<lambda>v. 0),
     v8_was_detached = (\<lambda>v s. False),
     v8_buffer_bytes = (\<lambda>v s. []),
     v8_view_bytes = (\<lambda>v s. []),
     v8_array_length = (\<lambda>v s. case v of JArr vs \<Rightarrow> length vs | _ \<Rightarrow> 0),
     v8_has_own = (\<lambda>v n s. (Some (has_own_js v n), s)),
     v8_get = (\<lambda>v n s. (Some (get_js v n), s)),
     v8_get_index = (\<lambda>v i s. (Some (get_index_js v i), s)),
     v8_to_utf8 = (\<lambda>v s. ([], s)),
     v8_create_data_property = (\<lambda>v n w s. (Some False, s)),
     v8_undefined = JUndef,
     v8_new_number = (\<lambda>x s. (JNum x, s)),
     v8_new_date = (\<lambda>x s. (None, s)),
     v8_new_string = (\<lambda>u s. (Some (JStr u), s)),
     v8_new_array_buffer = (\<lambda>b s. (JUndef, s)),
     v8_new_array = (\<lambda>vs s. (JArr vs, s)),
     v8_new_object = (\<lambda>s. (JObj [], s)),
     v8_write_value = (\<lambda>v s. (write_js v, s)),
     v8_read_header = (\<lambda>b s. (True, s)),
     v8_read_value = (\<lambda>b s. (read_js b, s))\<rparr>"

text \<open>A value of the store, and a prepared \<open>put\<close> of it under an out-of-line key.\<close>

definition demo_put :: "u16 \<Rightarrow> u8 \<Rightarrow> prepared" where
  "demo_put k b = \<lparr>prep_key = Some (KStr [k]), prep_value = [b], prep_inject = False\<rparr>"

definition demo_upgrade :: "schema_op list" where
  "demo_upgrade =
     [SVersion 1, SCreateStore ''s'' PNone False, SCreateIndex ''s'' ''i'' (PStr ''a'') True False]"

end
