(* ===== verification/IdbTx.thy ===== *)
theory IdbTx
  imports IdbUndo IdbDemo
begin

text \<open>
  A transaction as a sequence of operations (\<open>crates/pool/src/idb.rs\<close>: \<open>schema\<close>,
  \<open>store_put\<close>, \<open>delete_records\<close>). Every operation is a sequence of the mutations of
  \<open>IdbUndo\<close>, so it keeps the invariant of the database and its log takes it back; unique
  indexes stay unique, and a \<open>put\<close> that fails leaves every record and index alone.
\<close>

section \<open>Operations are histories\<close>

definition extends :: "log \<Rightarrow> log \<Rightarrow> bool" where
  "extends l l' \<longleftrightarrow> (\<exists>us. snd l' = snd l @ us \<and> history (fst l) us (fst l'))"

lemma history_append:
  assumes "history d' vs d''" and "history d us d'"
  shows "history d (us @ vs) d''"
  using assms
proof (induction rule: history.induct)
  case (h_step d' vs d1 u d2)
  then show ?case
    using history.h_step [of d "us @ vs" d1 u d2] by simp
next
  case (h_spent_id d' vs d1)
  then show ?case
    by (intro history.h_spent_id) auto
qed simp

lemma extends_refl [simp]: "extends l l"
  by (auto simp: extends_def intro: h_start)

lemma extends_trans: "extends l l' \<Longrightarrow> extends l' l'' \<Longrightarrow> extends l l''"
  by (auto simp: extends_def intro: history_append)

lemma extends_mutation: "mutation d u d' \<Longrightarrow> extends (d, us) (d', us @ [u])"
  unfolding extends_def using history.h_step [OF h_start, of d u d'] by auto

lemma extends_ok: "extends l l' \<Longrightarrow> db_ok (fst l) \<Longrightarrow> db_ok (fst l')"
  by (auto simp: extends_def dest: history_ok)

lemma find_store_in: "find_store name d = Some s \<Longrightarrow> s \<in> set (db_stores d) \<and> st_name s = name"
  by (auto simp: find_store_def dest: find_Some_in)

lemma store_mut_by_id:
  assumes "db_ok d" and "find_store name d = Some s"
  shows "store_mut name f d = store_by_id (st_id s) f d"
  using assms upd_first_by_key [of st_id "db_stores d" "\<lambda>s. st_name s = name" s f]
  by (simp add: store_mut_def store_by_id_def find_store_def db_ok_def)

lemma find_store_mut:
  assumes "\<And>s. st_name (f s) = st_name s"
  shows "find_store name (store_mut name f d) = map_option f (find_store name d)"
  unfolding find_store_def store_mut_def
  using find_upd_first [of st_name f name name] assms by simp

lemma store_mut_next_id [simp]:
  "db_next_id (store_mut name f d) = db_next_id d" "db_version (store_mut name f d) = db_version d"
  by (simp_all add: store_mut_def)

lemma extends_set_version: "extends l (set_version v l)"
  by (cases l) (auto simp: set_version_def intro: extends_mutation m_version)

lemma extends_create_store:
  assumes "db_next_id (fst l) + 1 < 2 ^ 32"
  shows "extends l (create_store name kp auto_inc l)"
proof -
  obtain d us where l: "l = (d, us)"
    by (cases l)
  define s where "s = \<lparr>st_id = db_next_id d + 1, st_name = name, st_key_path = kp,
    st_auto_inc = auto_inc, st_next = f64_one, st_records = [], st_indexes = []\<rparr>"
  have "create_store name kp auto_inc l =
      (d\<lparr>db_next_id := st_id s, db_stores := db_stores d @ [s]\<rparr>, us @ [UStoreCreated (st_id s)])"
    using assms by (simp add: l create_store_def next_id_after_eq s_def)
  then show ?thesis
    using assms m_create_store [of s d] by (auto simp: l s_def intro: extends_mutation)
qed

lemma extends_delete_store: "extends l (delete_store name l)"
  by (cases l) (auto simp: delete_store_def intro: extends_mutation m_delete_store split: option.splits)

lemma extends_rename_store: "db_ok (fst l) \<Longrightarrow> extends l (rename_store old new l)"
  by (cases l)
    (auto simp: rename_store_def store_mut_by_id split: option.splits
      dest: find_store_in intro!: extends_mutation m_rename_store)

lemma extends_delete_index: "db_ok (fst l) \<Longrightarrow> extends l (delete_index store name l)"
  by (cases l)
    (auto simp: delete_index_def store_mut_by_id split: option.splits
      dest: find_store_in intro!: extends_mutation m_delete_index)

lemma rename_index_by_name:
  assumes "store_ok N s" and "find (\<lambda>i. im_name (ix_meta i) = old) (st_indexes s) = Some ix"
  shows "s\<lparr>st_indexes := upd_first (\<lambda>i. im_name (ix_meta i) = old)
      (\<lambda>ix. ix\<lparr>ix_meta := (ix_meta ix)\<lparr>im_name := new\<rparr>\<rparr>) (st_indexes s)\<rparr> =
    rename_index (ix_id ix) new s"
  using assms upd_first_by_key [of "\<lambda>i. ix_id i" "st_indexes s"]
  by (simp add: rename_index_def upd_index_def store_ok_def distinct_ixs_def)

lemma store_by_id_cong:
  assumes "db_ok d" and "s \<in> set (db_stores d)" and "f s = g s"
  shows "store_by_id (st_id s) f d = store_by_id (st_id s) g d"
proof -
  have "upd_first (\<lambda>t. st_id t = st_id s) f xs = upd_first (\<lambda>t. st_id t = st_id s) g xs"
    if "\<forall>t \<in> set xs. st_id t = st_id s \<longrightarrow> t = s" for xs
    using that assms(3) by (induction xs) auto
  moreover have "\<forall>t \<in> set (db_stores d). st_id t = st_id s \<longrightarrow> t = s"
    using assms(1,2) unfolding db_ok_def by (auto simp: distinct_map dest: inj_onD)
  ultimately show ?thesis
    by (simp add: store_by_id_def)
qed

lemma extends_rename_index:
  assumes "db_ok (fst l)"
  shows "extends l (rename_index_op store old new l)"
proof -
  obtain d us where l: "l = (d, us)"
    by (cases l)
  let ?f = "\<lambda>s. s\<lparr>st_indexes := upd_first (\<lambda>i. im_name (ix_meta i) = old)
      (\<lambda>ix. ix\<lparr>ix_meta := (ix_meta ix)\<lparr>im_name := new\<rparr>\<rparr>) (st_indexes s)\<rparr>"
  have "extends (d, us) (store_mut store ?f d, us @ [UIndexRenamed (st_id s) (ix_id ix) (im_name (ix_meta ix))])"
    if s: "find_store store d = Some s"
      and ix: "find (\<lambda>i. im_name (ix_meta i) = old) (st_indexes s) = Some ix" for s ix
  proof -
    have db: "db_ok d" and in_d: "s \<in> set (db_stores d)"
      using assms s by (auto simp: l dest: find_store_in)
    have "store_mut store ?f d = store_by_id (st_id s) (rename_index (ix_id ix) new) d"
      unfolding store_mut_by_id [OF db s]
      by (rule store_by_id_cong [OF db in_d]) (rule rename_index_by_name [OF store_in_db [OF db in_d] ix])
    then show ?thesis
      using m_rename_index [OF in_d ix, of new] by (simp add: extends_mutation)
  qed
  then show ?thesis
    by (auto simp: l rename_index_op_def split: option.splits)
qed

subsection \<open>Building an index\<close>

lemma add_index_keys_set:
  assumes "add_index_keys unique pk ks acc = (entries', dup')" and "bs_ok (fst acc)"
  shows "bs_ok entries' \<and> set entries' = set (fst acc) \<union> (\<lambda>k. k @ pk) ` set ks"
  using assms
  by (induction unique pk ks acc rule: add_index_keys.induct)
    (auto simp: bs_ok_insert set_bs_insert)

definition built :: "bytes btree_set \<Rightarrow> (bytes \<times> bytes list) list \<Rightarrow> bool" where
  "built entries per_record \<longleftrightarrow>
     (\<forall>(pk, ks) \<in> set per_record. enc_list ks) \<and> bs_ok entries \<and>
     set entries = (\<Union>(pk, ks) \<in> set per_record. (\<lambda>k. k @ pk) ` set ks)"

lemma build_index_yields:
  assumes "built (fst acc) per_record"
  shows "yields (build_index V n meta pairs acc per_record)
    (\<lambda>(acc', per'). map fst per' = map fst per_record @ map fst pairs \<and> built (fst acc') per')"
  using assms
proof (induction pairs arbitrary: acc per_record)
  case Nil
  then show ?case
    by (auto intro!: yields_ret)
next
  case (Cons pair pairs)
  obtain pk r where pair: "pair = (pk, r)"
    by (cases pair)
  have step: "built (fst (add_index_keys (im_unique meta) pk keys acc)) (per_record @ [(pk, keys)])"
    if "enc_list keys" for keys
    using Cons.prems that add_index_keys_set [of "im_unique meta" pk keys acc]
    by (cases "add_index_keys (im_unique meta) pk keys acc") (auto simp: built_def)
  show ?case
    unfolding pair build_index.simps
    by (intro yields_bind yields_bind_with [OF index_keys_enc])
      (use Cons.IH [OF step] in simp)
qed

lemma extends_create_index:
  assumes "db_ok (fst l)" and "db_next_id (fst l) + 1 < 2 ^ 32"
  shows "yields (create_index V n store name kp unique multi l) (\<lambda>(r, l'). extends l l')"
proof -
  obtain d us where l: "l = (d, us)"
    by (cases l)
  let ?i = "db_next_id d + 1"
  let ?d = "d\<lparr>db_next_id := ?i\<rparr>"
  have next_id: "next_id_after (db_next_id d) = ?i"
    using assms(2) by (simp add: l next_id_after_eq)
  have skip: "extends (d, us) (?d, us)"
    using h_spent_id [OF h_start, of d] assms(2) by (auto simp: extends_def l)
  have found: "extends (d, us) (store_mut store (install_index meta entries per_record) ?d,
      us @ [UIndexCreated (st_id s) ?i])"
    if s: "find_store store ?d = Some s" and meta: "im_id meta = ?i"
      and new: "map fst per_record = map fst (st_records s)" "built entries per_record"
    for s meta entries per_record
  proof -
    have db: "db_ok ?d"
      using assms by (auto simp: l intro: db_ok_next_id)
    have s': "s \<in> set (db_stores d)"
      using s by (auto dest: find_store_in)
    have "mutation d (UIndexCreated (st_id s) (im_id meta))
        (store_by_id (st_id s) (install_index meta entries per_record) (d\<lparr>db_next_id := im_id meta\<rparr>))"
      using s' meta new assms(2)
      by (intro m_create_index) (auto simp: l new_index_ok_def built_def)
    from extends_mutation [OF this] show ?thesis
      unfolding store_mut_by_id [OF db s] meta .
  qed
  have "built (fst ([], False)) []"
    by (simp add: built_def)
  note build = yields_bind_with [OF build_index_yields [OF this]]
  show ?thesis
    unfolding l create_index_def prod.case next_id Let_def
  proof (rule yields_option)
    show "yields (ret (Inr (), ?d, us)) (\<lambda>(r, l'). extends (d, us) l')"
      using skip by (simp add: yields_ret)
  next
    fix s assume s: "find_store store ?d = Some s"
    let ?meta = "\<lparr>im_id = ?i, im_name = name, im_key_path = kp, im_unique = unique, im_multi = multi\<rparr>"
    show "yields (and_then (build_index V n ?meta (st_records s) ([], False) [])
        (\<lambda>((entries, dup), per_record).
          ret (if dup then Inl (constraint_error ''Index key is not unique.'') else Inr (),
            store_mut store (install_index ?meta entries per_record) ?d,
            us @ [UIndexCreated (st_id s) ?i]))) (\<lambda>(r, l'). extends (d, us) l')"
      using found [OF s, of ?meta] by (intro build) (auto intro!: yields_ret simp del: Suc_eq_plus1 Suc_eq_plus1_left One_nat_def add_Suc_right)
  qed
qed

subsection \<open>Writing and deleting records\<close>

lemma extends_move_generator:
  assumes "db_ok (fst l)" and "find_store name (fst l) = Some s"
  shows "extends l (move_generator s nx l)"
proof -
  obtain d us where l: "l = (d, us)"
    by (cases l)
  have "st_name s = name" "s \<in> set (db_stores d)"
    using assms(2) by (auto simp: l dest: find_store_in)
  then show ?thesis
    using assms
    by (auto simp: l move_generator_def store_mut_by_id split: option.splits
        intro: extends_mutation m_generator)
qed

lemma find_after_generator:
  assumes "find_store name (fst l) = Some s"
  shows "find_store name (fst (move_generator s nx l)) =
    Some (case nx of None \<Rightarrow> s | Some x \<Rightarrow> s\<lparr>st_next := x\<rparr>)"
proof -
  have "st_name s = name"
    using assms by (auto dest: find_store_in)
  then show ?thesis
    using assms by (cases l) (auto simp: move_generator_def find_store_mut split: option.splits)
qed

lemma move_generator_next_id: "db_next_id (fst (move_generator s nx l)) = db_next_id (fst l)"
  by (cases l) (simp add: move_generator_def split: option.splits)

lemma collect_ikeys_yields:
  assumes "\<forall>m \<in> set metas. im_id m \<le> N" and "\<forall>(i, ks) \<in> set acc. i \<le> N \<and> enc_list ks"
  shows "yields (collect_ikeys V n clone pkey ixs metas acc)
    (\<lambda>r. \<forall>iks. r = Inr iks \<longrightarrow> (\<forall>(i, ks) \<in> set iks. i \<le> N \<and> enc_list ks))"
  using assms
proof (induction metas arbitrary: acc)
  case (Cons m metas)
  have "yields (collect_ikeys V n clone pkey ixs metas (acc @ [(im_id m, keys)]))
      (\<lambda>r. \<forall>iks. r = Inr iks \<longrightarrow> (\<forall>(i, ks) \<in> set iks. i \<le> N \<and> enc_list ks))"
    if "enc_list keys" for keys
    using Cons.prems that by (intro Cons.IH) auto
  then show ?case
    unfolding collect_ikeys.simps
    by (intro yields_bind_with [OF index_keys_enc]) (auto intro!: yields_intros)
qed (auto intro!: yields_ret)

lemma extends_write_op:
  assumes "db_ok (fst l)" and "find_store (st_name s) (fst l) = Some s'"
    and "st_id s' = st_id s" and "st_records s' = st_records s"
    and "is_enc pk" and "record_ok (db_next_id (fst l)) r"
  shows "extends l (write_op s pk r l)"
proof -
  obtain d us where l: "l = (d, us)"
    by (cases l)
  have "s' \<in> set (db_stores d)"
    using assms(2) by (auto simp: l dest: find_store_in)
  from m_write [OF this assms(5)] assms show ?thesis
    by (simp add: l write_op_def store_mut_by_id extends_mutation)
qed

text \<open>The outcomes of a \<open>put\<close>.\<close>

lemma store_put_cases:
  assumes "store_put V n name prep no_overwrite l \<sigma> = Some ((r, l'), \<sigma>')"
  obtains (gone) "find_store name (fst l) = None" "\<exists>e. r = Inl e" "l' = l"
  | (exhausted) s e where "find_store name (fst l) = Some s" "assign_key s (prep_key prep) = Inl e"
      "r = Inl e" "l' = l"
  | (failed) s key nx e where "find_store name (fst l) = Some s"
      "assign_key s (prep_key prep) = Inr (key, nx)" "r = Inl e" "l' = move_generator s nx l"
  | (stored) s key nx clone v ikeys \<sigma>1 \<sigma>2 where "find_store name (fst l) = Some s"
      "assign_key s (prep_key prep) = Inr (key, nx)"
      "\<not> (no_overwrite \<and> bt_get (st_records s) (encode key) \<noteq> None)"
      "stored_value V s prep key \<sigma> = Some ((clone, v), \<sigma>1)"
      "collect_ikeys V n clone (encode key) (st_indexes s) (map ix_meta (st_indexes s)) [] \<sigma>1 =
         Some (Inr ikeys, \<sigma>2)"
      "r = Inr key"
      "l' = write_op s (encode key) \<lparr>rec_value = v, rec_ikeys = ikeys\<rparr> (move_generator s nx l)"
proof (cases "find_store name (fst l)")
  case None
  with assms gone show thesis
    by (auto simp: store_put_def eff_simps)
next
  case s: (Some s)
  show thesis
  proof (cases "assign_key s (prep_key prep)")
    case (Inl e)
    with assms s exhausted show thesis
      by (auto simp: store_put_def eff_simps)
  next
    case (Inr kn)
    obtain key nx where kn: "kn = (key, nx)"
      by (cases kn)
    note put = assms [unfolded store_put_def s option.case Inr sum.case kn prod.case Let_def]
    from put obtain clone v \<sigma>1 where sv: "stored_value V s prep key \<sigma> = Some ((clone, v), \<sigma>1)"
      by (auto simp: eff_simps)
    show thesis
    proof (cases "no_overwrite \<and> bt_get (st_records s) (encode key) \<noteq> None")
      case True
      with put sv s Inr kn failed show thesis
        by (auto simp: eff_simps)
    next
      case False
      with put sv obtain c \<sigma>2 where
        c: "collect_ikeys V n clone (encode key) (st_indexes s) (map ix_meta (st_indexes s)) [] \<sigma>1 =
          Some (c, \<sigma>2)"
        and rest: "(case c of
            Inl e \<Rightarrow> ret (Inl e, move_generator s nx l)
          | Inr ikeys \<Rightarrow> ret (Inr key, write_op s (encode key) \<lparr>rec_value = v, rec_ikeys = ikeys\<rparr>
              (move_generator s nx l))) \<sigma>2 = Some ((r, l'), \<sigma>')"
        by (auto simp: eff_simps split: if_splits)
      show thesis
        using c rest s Inr kn sv False
        by (cases c) (auto simp: eff_simps intro: failed stored)
    qed
  qed
qed

lemma index_ids:
  assumes "db_ok d" and "find_store name d = Some s"
  shows "\<forall>m \<in> set (map ix_meta (st_indexes s)). im_id m \<le> db_next_id d"
  using assms by (fastforce simp: db_ok_def store_ok_def index_ok_def dest: find_store_in)

lemma collected_record_ok:
  assumes "db_ok d" and "find_store name d = Some s"
    and "collect_ikeys V n clone pkey (st_indexes s) (map ix_meta (st_indexes s)) [] \<sigma>1 =
      Some (Inr ikeys, \<sigma>2)"
  shows "record_ok (db_next_id d) \<lparr>rec_value = v, rec_ikeys = ikeys\<rparr>"
  using yieldsD [OF collect_ikeys_yields [OF index_ids [OF assms(1,2)]] assms(3)]
  by (simp add: record_ok_def)

lemma extends_store_put:
  assumes db: "db_ok (fst l)"
    and put: "store_put V n name prep no_overwrite l \<sigma> = Some ((r, l'), \<sigma>')"
  shows "extends l l'"
  using put
proof (cases rule: store_put_cases)
  case (failed s key nx e)
  then show ?thesis
    using extends_move_generator [OF db] by simp
next
  case (stored s key nx clone v ikeys \<sigma>1 \<sigma>2)
  let ?l = "move_generator s nx l"
  note gen = extends_move_generator [OF db stored(1), of nx]
  have "st_name s = name"
    using stored(1) by (auto dest: find_store_in)
  with find_after_generator [OF stored(1), of nx] collected_record_ok [OF db stored(1,5), of v]
  have "extends ?l l'"
    unfolding stored(7) using extends_ok [OF gen db] move_generator_next_id [of s nx l]
    by (intro extends_write_op [where s' = "case nx of None \<Rightarrow> s | Some x \<Rightarrow> s\<lparr>st_next := x\<rparr>"])
      (auto split: option.splits)
  with gen show ?thesis
    by (rule extends_trans)
qed simp_all

lemma remove_record_simps [simp]:
  "st_id (remove_record k old s) = st_id s" "st_name (remove_record k old s) = st_name s"
  "st_records (remove_record k old s) = bt_remove k (st_records s)"
  by (simp_all add: remove_record_def unindex_def)

lemma extends_delete_keys:
  assumes "db_ok (fst l)" and "find_store (st_name s) (fst l) = Some s"
  shows "extends l (delete_keys s ks l)"
  using assms
proof (induction s ks l rule: delete_keys.induct)
  case (2 s k ks d undo)
  show ?case
  proof (cases "bt_get (st_records s) k")
    case None
    with 2 show ?thesis
      by simp
  next
    case (Some old)
    let ?d = "store_mut (st_name s) (remove_record k old) d"
    have s: "s \<in> set (db_stores d)"
      using 2(4) by (auto dest: find_store_in)
    have step: "extends (d, undo) (?d, undo @ [URecord (st_id s) k (Some old)])"
      using 2(3,4) m_remove [OF s Some] by (simp add: store_mut_by_id extends_mutation)
    have "extends (?d, undo @ [URecord (st_id s) k (Some old)])
        (delete_keys (remove_record k old s) ks (?d, undo @ [URecord (st_id s) k (Some old)]))"
      using extends_ok [OF step] 2(2) [OF Some] 2(3,4) by (simp add: find_store_mut)
    with step Some show ?thesis
      by (auto intro: extends_trans)
  qed
qed simp

lemma extends_delete_records:
  assumes "db_ok (fst l)" and "delete_records name lo hi clear l = Some l'"
  shows "extends l l'"
proof (cases "find_store name (fst l)")
  case None
  with assms show ?thesis
    by (simp add: delete_records_def)
next
  case (Some s)
  then have s: "st_name s = name" "s \<in> set (db_stores (fst l))"
    by (auto dest: find_store_in)
  have "extends l (clear_store s l)"
    using assms(1) Some s m_clear [OF s(2)]
    by (cases l) (simp add: clear_store_def store_mut_by_id extends_mutation)
  with assms Some s show ?thesis
    by (auto simp: delete_records_def intro: extends_delete_keys split: if_splits)
qed

section \<open>Running a transaction\<close>

text \<open>
  The operations a page's requests run on a transaction, in the order the engine processes
  them. A failed operation leaves its error to the page and the transaction goes on.
\<close>

datatype tx_op =
    OpSchema schema_op
  | OpPut string prepared bool
  | OpDelete string "bytes bound" "bytes bound" bool

fun run_op :: "('s, 'v) v8 \<Rightarrow> nat \<Rightarrow> tx_op \<Rightarrow> log \<Rightarrow> ('s, log) eff" where
  "run_op V n (OpSchema op) l = and_then (schema V n op l) (\<lambda>(r, l'). ret l')"
| "run_op V n (OpPut name prep no_overwrite) l =
     and_then (store_put V n name prep no_overwrite l) (\<lambda>(r, l'). ret l')"
| "run_op V n (OpDelete name lo hi clear) l =
     (case delete_records name lo hi clear l of None \<Rightarrow> crash | Some l' \<Rightarrow> ret l')"

fun run_ops :: "('s, 'v) v8 \<Rightarrow> nat \<Rightarrow> tx_op list \<Rightarrow> log \<Rightarrow> ('s, log) eff" where
  "run_ops V n [] l = ret l"
| "run_ops V n (op # ops) l = and_then (run_op V n op l) (run_ops V n ops)"

lemma extends_schema:
  assumes "db_ok (fst l)" and "db_next_id (fst l) + 1 < 2 ^ 32"
  shows "yields (schema V n op l) (\<lambda>(r, l'). extends l l')"
  using assms
  by (cases op)
    (auto intro!: yields_ret extends_create_index extends_set_version extends_create_store
      extends_delete_store extends_rename_store extends_delete_index extends_rename_index)

lemma create_store_next_id:
  "db_next_id (fst l) + 1 < 2 ^ 32 \<Longrightarrow>
   db_next_id (fst (create_store name kp auto_inc l)) = db_next_id (fst l) + 1"
  by (cases l) (simp add: create_store_def next_id_after_eq Let_def)

lemma create_index_next_id:
  "db_next_id (fst l) + 1 < 2 ^ 32 \<Longrightarrow>
   yields (create_index V n store name kp unique multi l)
     (\<lambda>(r, l'). db_next_id (fst l') = db_next_id (fst l) + 1)"
  by (cases l) (auto simp: create_index_def next_id_after_eq Let_def intro!: yields_intros split: prod.splits)

lemma schema_next_id:
  assumes "db_next_id (fst l) + 1 < 2 ^ 32"
  shows "yields (schema V n op l) (\<lambda>(r, l'). db_next_id (fst l') \<le> db_next_id (fst l) + 1)"
proof (cases op)
  case (SCreateIndex store name kp unique multi)
  show ?thesis
    unfolding SCreateIndex schema.simps
    using create_index_next_id [OF assms, of V n store name kp] by (fastforce simp: yields_def)
qed (use assms in \<open>auto intro!: yields_ret simp: create_store_next_id set_version_def delete_store_def
  rename_store_def delete_index_def rename_index_op_def split: prod.splits option.splits\<close>)

lemma delete_keys_next_id: "db_next_id (fst (delete_keys s ks l)) = db_next_id (fst l)"
  by (induction s ks l rule: delete_keys.induct) (auto split: option.splits)

lemma put_next_id:
  assumes "store_put V n name prep no_overwrite l \<sigma> = Some ((r, l'), \<sigma>')"
  shows "db_next_id (fst l') = db_next_id (fst l)"
proof -
  have "db_next_id (fst (write_op s pk rc l0)) = db_next_id (fst l0)" for s pk rc l0
    by (cases l0) (simp add: write_op_def)
  from assms this show ?thesis
    by (cases rule: store_put_cases) (simp_all add: move_generator_next_id)
qed

lemma delete_next_id:
  "delete_records name lo hi clear l = Some l' \<Longrightarrow> db_next_id (fst l') = db_next_id (fst l)"
  by (auto simp: delete_records_def delete_keys_next_id clear_store_def
      split: option.splits if_splits prod.splits)

lemma run_op_ok:
  assumes "db_ok (fst l)" and "db_next_id (fst l) + 1 < 2 ^ 32"
    and "run_op V n op l \<sigma> = Some (l', \<sigma>')"
  shows "extends l l' \<and> db_next_id (fst l') \<le> db_next_id (fst l) + 1"
proof (cases op)
  case (OpSchema sop)
  with assms(3) obtain r where "schema V n sop l \<sigma> = Some ((r, l'), \<sigma>')"
    by (auto simp: eff_simps)
  with yieldsD [OF extends_schema [OF assms(1,2)] this] yieldsD [OF schema_next_id [OF assms(2)] this]
  show ?thesis
    by simp
next
  case (OpPut name prep no_overwrite)
  with assms(3) obtain r where "store_put V n name prep no_overwrite l \<sigma> = Some ((r, l'), \<sigma>')"
    by (auto simp: eff_simps)
  from extends_store_put [OF assms(1) this] put_next_id [OF this] show ?thesis
    by simp
next
  case (OpDelete name lo hi clear)
  with assms(3) have "delete_records name lo hi clear l = Some l'"
    by (auto simp: eff_simps split: option.splits)
  from extends_delete_records [OF assms(1) this] delete_next_id [OF this] show ?thesis
    by simp
qed

lemma run_ops_ok:
  assumes "db_ok (fst l)" and "db_next_id (fst l) + length ops < 2 ^ 32"
    and "run_ops V n ops l \<sigma> = Some (l', \<sigma>')"
  shows "extends l l'"
  using assms
proof (induction ops arbitrary: l \<sigma>)
  case (Cons op ops)
  from Cons.prems(3) obtain l1 \<sigma>1 where op: "run_op V n op l \<sigma> = Some (l1, \<sigma>1)"
    and ops: "run_ops V n ops l1 \<sigma>1 = Some (l', \<sigma>')"
    by (auto simp: eff_simps)
  have step: "extends l l1 \<and> db_next_id (fst l1) \<le> db_next_id (fst l) + 1"
    using Cons.prems(1,2) op by (intro run_op_ok) auto
  with Cons.prems ops have "extends l1 l'"
    by (intro Cons.IH) (auto intro: extends_ok)
  with step show ?case
    by (blast intro: extends_trans)
qed (simp add: eff_simps)

section \<open>Data operations log data only\<close>

definition logs_data :: "log \<Rightarrow> log \<Rightarrow> bool" where
  "logs_data l l' \<longleftrightarrow> (\<exists>us. snd l' = snd l @ us \<and> list_all data_undo us)"

lemma logs_data_refl [simp]: "logs_data l l"
  by (simp add: logs_data_def)

lemma logs_data_trans: "logs_data l l' \<Longrightarrow> logs_data l' l'' \<Longrightarrow> logs_data l l''"
  by (fastforce simp: logs_data_def)

lemma logs_data_one: "data_undo u \<Longrightarrow> logs_data (d, us) (d', us @ [u])"
  by (simp add: logs_data_def)

lemma logs_data_move_generator: "logs_data l (move_generator s nx l)"
  by (cases l) (auto simp: move_generator_def intro: logs_data_one split: option.splits)

lemma logs_data_write_op: "logs_data l (write_op s pk r l)"
  by (cases l) (simp add: write_op_def logs_data_one)

lemma logs_data_put:
  assumes "store_put V n name prep no_overwrite l \<sigma> = Some ((r, l'), \<sigma>')"
  shows "logs_data l l'"
  using assms
  by (cases rule: store_put_cases)
    (auto intro: logs_data_move_generator logs_data_trans [OF logs_data_move_generator logs_data_write_op])

lemma logs_data_delete_keys: "logs_data l (delete_keys s ks l)"
proof (induction s ks l rule: delete_keys.induct)
  case (2 s k ks d undo)
  show ?case
  proof (cases "bt_get (st_records s) k")
    case (Some old)
    have "logs_data (d, undo)
        (store_mut (st_name s) (remove_record k old) d, undo @ [URecord (st_id s) k (Some old)])"
      by (rule logs_data_one) simp
    with 2(2) [OF Some] Some show ?thesis
      by (auto intro: logs_data_trans)
  qed (use 2 in simp)
qed simp

lemma logs_data_delete: "delete_records name lo hi clear l = Some l' \<Longrightarrow> logs_data l l'"
  by (cases l)
    (auto simp: delete_records_def clear_store_def logs_data_one
      intro: logs_data_delete_keys split: option.splits if_splits)

fun data_op :: "tx_op \<Rightarrow> bool" where
  "data_op (OpSchema op) = False"
| "data_op (OpPut name prep no_overwrite) = True"
| "data_op (OpDelete name lo hi clear) = True"

lemma run_data_op:
  assumes "data_op op" and "db_ok (fst l)" and "run_op V n op l \<sigma> = Some (l', \<sigma>')"
  shows "extends l l' \<and> logs_data l l' \<and> db_next_id (fst l') = db_next_id (fst l)"
proof (cases op)
  case (OpPut name prep no_overwrite)
  with assms(3) obtain r where "store_put V n name prep no_overwrite l \<sigma> = Some ((r, l'), \<sigma>')"
    by (auto simp: eff_simps)
  from extends_store_put [OF assms(2) this] put_next_id [OF this] logs_data_put [OF this]
  show ?thesis
    by simp
next
  case (OpDelete name lo hi clear)
  with assms(3) have "delete_records name lo hi clear l = Some l'"
    by (auto simp: eff_simps split: option.splits)
  from extends_delete_records [OF assms(2) this] delete_next_id [OF this] logs_data_delete [OF this]
  show ?thesis
    by simp
qed (use assms(1) in simp)

lemma run_data_ops:
  assumes "list_all data_op ops" and "db_ok (fst l)" and "run_ops V n ops l \<sigma> = Some (l', \<sigma>')"
  shows "extends l l' \<and> logs_data l l' \<and> db_next_id (fst l') = db_next_id (fst l)"
  using assms
proof (induction ops arbitrary: l \<sigma>)
  case (Cons op ops)
  from Cons.prems(3) obtain l1 \<sigma>1 where op: "run_op V n op l \<sigma> = Some (l1, \<sigma>1)"
    and ops: "run_ops V n ops l1 \<sigma>1 = Some (l', \<sigma>')"
    by (auto simp: eff_simps)
  have step: "extends l l1 \<and> logs_data l l1 \<and> db_next_id (fst l1) = db_next_id (fst l)"
    using Cons.prems(1,2) op by (intro run_data_op) auto
  with Cons.prems ops have "extends l1 l' \<and> logs_data l1 l' \<and> db_next_id (fst l') = db_next_id (fst l1)"
    by (intro Cons.IH) (auto intro: extends_ok)
  with step show ?case
    by (auto intro: extends_trans logs_data_trans)
qed (simp add: eff_simps)

lemma data_ops_abort:
  assumes "db_ok d" and "list_all data_op ops"
    and "run_ops V n ops (d, []) \<sigma> = Some ((d', undo), \<sigma>')"
  shows "rollback_all undo d' = d"
proof -
  have "extends (d, []) (d', undo) \<and> logs_data (d, []) (d', undo) \<and> db_next_id d' = db_next_id d"
    using run_data_ops [OF assms(2) _ assms(3)] assms(1) by simp
  then show ?thesis
    using assms(1) by (intro data_history) (auto simp: extends_def logs_data_def)
qed

section \<open>A database of the concrete engine\<close>

definition demo_run :: "tx_op list \<Rightarrow> db_data \<Rightarrow> log" where
  "demo_run ops d =
     (case run_ops demo_v8 3 ops (d, []) () of Some (l, _) \<Rightarrow> l | None \<Rightarrow> (d, []))"

definition demo_db :: db_data where
  "demo_db = fst (demo_run (map OpSchema demo_upgrade) empty_db)"

definition demo_data_ops :: "tx_op list" where
  "demo_data_ops = [OpPut ''s'' (demo_put 7 9) False, OpPut ''s'' (demo_put 7 8) False,
     OpPut ''s'' (demo_put 3 8) False, OpDelete ''s'' Unbounded Unbounded False]"

lemma db_ok_empty [simp]: "db_ok empty_db" "db_next_id empty_db = 0"
  by (simp_all add: db_ok_def empty_db_def)

definition demo_runs :: "tx_op list \<Rightarrow> db_data \<Rightarrow> bool" where
  "demo_runs ops d = (case run_ops demo_v8 3 ops (d, []) () of Some _ \<Rightarrow> True | None \<Rightarrow> False)"

lemma demo_run_eq:
  "demo_runs ops d \<Longrightarrow> run_ops demo_v8 3 ops (d, []) () = Some (demo_run ops d, ())"
  by (auto simp: demo_run_def demo_runs_def split: option.splits)

lemma demo_db_ok [simp]: "db_ok demo_db"
proof -
  let ?ops = "map OpSchema demo_upgrade"
  have "demo_runs ?ops empty_db"
    by code_simp
  from run_ops_ok [OF _ _ demo_run_eq [OF this]] have "extends (empty_db, []) (demo_run ?ops empty_db)"
    by (simp add: demo_upgrade_def)
  from extends_ok [OF this] show ?thesis
    by (simp add: demo_db_def)
qed

text \<open>
  Claim C1. A transaction that ran any sequence of schema changes, writes and deletions and
  is then aborted leaves no trace: playing back its undo log gives a database with the same
  version, and with the same stores, records, indexes and key generators under the same
  identifiers. The database also satisfies the invariant before the playback: every index
  holds exactly the entries of its records.
\<close>

theorem abort_leaves_no_trace:
  assumes "db_ok d" and "db_next_id d + length ops < 2 ^ 32"
    and "run_ops V n ops (d, []) \<sigma> = Some ((d', undo), \<sigma>')"
  shows "db_ok d' \<and> same_db (rollback_all undo d') d"
proof -
  have "extends (d, []) (d', undo)"
    using assms by (intro run_ops_ok) auto
  then have "history d undo d'"
    by (simp add: extends_def)
  with assms(1) show ?thesis
    by (auto dest: history_ok)
qed

theorem abort_leaves_no_trace_witness:
  "length (snd (demo_run (map OpSchema demo_upgrade @ demo_data_ops) empty_db)) = 6 \<and>
   same_db (rollback_all (snd (demo_run (map OpSchema demo_upgrade @ demo_data_ops) empty_db))
     (fst (demo_run (map OpSchema demo_upgrade @ demo_data_ops) empty_db))) empty_db"
  (is "length (snd ?l) = 6 \<and> _")
proof
  show "length (snd ?l) = 6"
    by code_simp
  have "demo_runs (map OpSchema demo_upgrade @ demo_data_ops) empty_db"
    by code_simp
  then have run: "run_ops demo_v8 3 (map OpSchema demo_upgrade @ demo_data_ops) (empty_db, []) () =
      Some ((fst ?l, snd ?l), ())"
    by (simp add: demo_run_eq)
  show "same_db (rollback_all (snd ?l) (fst ?l)) empty_db"
    using abort_leaves_no_trace [OF _ _ run]
    by (simp add: demo_upgrade_def demo_data_ops_def)
qed

text \<open>
  Aborting a transaction that only wrote, deleted and cleared records restores
  the database exactly, key generators, index entries and order included.
\<close>

theorem abort_restores_data:
  assumes "db_ok d" and "list_all data_op ops"
    and "run_ops V n ops (d, []) \<sigma> = Some ((d', undo), \<sigma>')"
  shows "rollback_all undo d' = d"
  by (rule data_ops_abort [OF assms])

theorem abort_restores_data_witness:
  "demo_run demo_data_ops demo_db \<noteq> (demo_db, []) \<and>
   rollback_all (snd (demo_run demo_data_ops demo_db)) (fst (demo_run demo_data_ops demo_db)) = demo_db"
  (is "?l \<noteq> _ \<and> _")
proof
  have "length (snd ?l) = 3"
    by code_simp
  then show "?l \<noteq> (demo_db, [])"
    by auto
  have "demo_runs demo_data_ops demo_db"
    by code_simp
  then have run: "run_ops demo_v8 3 demo_data_ops (demo_db, []) () = Some ((fst ?l, snd ?l), ())"
    by (simp add: demo_run_eq)
  show "rollback_all (snd ?l) (fst ?l) = demo_db"
    by (rule abort_restores_data [OF demo_db_ok _ run]) (simp add: demo_data_ops_def)
qed

end
