(* ===== verification/IdbPut.thy ===== *)
theory IdbPut
  imports IdbTx
begin

text \<open>
  What \<open>put\<close> and \<open>createIndex\<close> promise (\<open>crates/pool/src/idb.rs\<close>): unique indexes stay
  unique, a failed \<open>put\<close> changes nothing but the key generator, a successful one changes
  exactly its record, and the numbers the key generator hands out.
\<close>

section \<open>Prefix searches in ordered sets\<close>

definition starts_with :: "'a list \<Rightarrow> 'a list \<Rightarrow> bool" where
  "starts_with k e \<longleftrightarrow> take (length k) e = k"

lemma starts_with_append [simp]: "starts_with k (k @ s)"
  by (simp add: starts_with_def)

lemma starts_with_iff: "starts_with k e \<longleftrightarrow> (\<exists>s. e = k @ s)"
  by (metis append_take_drop_id starts_with_append starts_with_def)

lemma starts_with_ge: "starts_with k e \<Longrightarrow> k \<le> (e :: 'a :: linorder list)"
  by (auto simp: starts_with_iff le_append_self)

lemma sorted_dropWhile_less: "sorted_wrt (<) xs \<Longrightarrow> dropWhile (\<lambda>e. e < k) xs = filter (\<lambda>e. \<not> e < (k :: 'a :: linorder)) xs"
proof (induction xs)
  case (Cons x xs)
  then show ?case
    by (auto simp: filter_id_conv intro!: filter_True [symmetric])
qed simp

lemma takeWhile_prefix:
  fixes k :: "'a :: linorder list"
  assumes "sorted_wrt (<) xs" and "\<forall>x \<in> set xs. k \<le> x"
  shows "set (takeWhile (starts_with k) xs) = {e \<in> set xs. starts_with k e}"
  using assms
proof (induction xs)
  case (Cons x xs)
  have "\<not> starts_with k y" if "y \<in> set xs" "\<not> starts_with k x" for y
  proof
    assume "starts_with k y"
    then obtain s where "y = k @ s"
      by (auto simp: starts_with_iff)
    with that Cons.prems have "x < k @ s" "k \<le> x"
      by auto
    from prefix_between [OF this(2,1)] that(2) show False
      by (simp add: starts_with_iff)
  qed
  with Cons show ?case
    by auto
qed simp

lemma prefix_run:
  assumes "bs_ok es"
  shows "set (takeWhile (starts_with k) (dropWhile (\<lambda>e. e < k) es)) = {e \<in> set es. starts_with k e}"
proof -
  have "sorted_wrt (<) es"
    using assms by (simp add: bs_ok_def)
  then show ?thesis
    by (subst takeWhile_prefix)
      (auto simp: sorted_dropWhile_less sorted_wrt_filter not_less dest: starts_with_ge)
qed

lemma key_clash_iff:
  assumes "bs_ok es"
  shows "key_clash es pkey k \<longleftrightarrow> (\<exists>s. k @ s \<in> set es \<and> s \<noteq> pkey)"
proof -
  have "(\<lambda>e. take (length k) e = k) = starts_with k"
    by (rule ext) (simp add: starts_with_def)
  then have "key_clash es pkey k \<longleftrightarrow> (\<exists>e \<in> {e \<in> set es. starts_with k e}. drop (length k) e \<noteq> pkey)"
    unfolding key_clash_def prefix_run [OF assms, symmetric] by simp
  then show ?thesis
    by (force simp: starts_with_iff)
qed

lemma first_clash_iff:
  assumes "bs_ok es"
  shows "first_clash es k \<longleftrightarrow> (\<exists>s. k @ s \<in> set es)"
proof (cases "dropWhile (\<lambda>e. e < k) es")
  case Nil
  have "set (takeWhile (starts_with k) (dropWhile (\<lambda>e. e < k) es)) = {}"
    unfolding Nil by simp
  then have "\<not> (\<exists>s. k @ s \<in> set es)"
    unfolding prefix_run [OF assms] by (auto simp: starts_with_iff)
  then show ?thesis
    unfolding first_clash_def Nil by simp
next
  case (Cons e r)
  have "set (takeWhile (starts_with k) (e # r)) = {e \<in> set es. starts_with k e}"
    using prefix_run [OF assms, of k] Cons by simp
  then have "starts_with k e \<longleftrightarrow> (\<exists>s. k @ s \<in> set es)"
    by (cases "starts_with k e") (auto simp: starts_with_iff)
  with Cons show ?thesis
    by (simp add: first_clash_def starts_with_def)
qed

section \<open>Unique indexes\<close>

definition unique_entries :: "bytes set \<Rightarrow> bool" where
  "unique_entries E \<longleftrightarrow>
     (\<forall>k pk pk'. is_enc k \<longrightarrow> k @ pk \<in> E \<longrightarrow> k @ pk' \<in> E \<longrightarrow> pk = pk')"

definition store_unique :: "store \<Rightarrow> bool" where
  "store_unique s \<longleftrightarrow>
     (\<forall>ix \<in> set (st_indexes s). im_unique (ix_meta ix) \<longrightarrow> unique_entries (set (ix_entries ix)))"

definition db_unique :: "db_data \<Rightarrow> bool" where
  "db_unique d \<longleftrightarrow> (\<forall>s \<in> set (db_stores d). store_unique s)"

lemma unique_entries_subset: "unique_entries E \<Longrightarrow> F \<subseteq> E \<Longrightarrow> unique_entries F"
  unfolding unique_entries_def by blast

lemma unique_entries_add:
  assumes "unique_entries E" and "\<forall>k \<in> K. is_enc k" and "\<forall>k \<in> K. \<forall>s. k @ s \<in> E \<longrightarrow> s = pkey"
  shows "unique_entries (E \<union> (\<lambda>k. k @ pkey) ` K)"
  unfolding unique_entries_def
proof (intro allI impI)
  fix k pk pk' assume k: "is_enc k" and pk: "k @ pk \<in> E \<union> (\<lambda>k. k @ pkey) ` K"
    and pk': "k @ pk' \<in> E \<union> (\<lambda>k. k @ pkey) ` K"
  have new: "k \<in> K \<and> s = pkey" if "k @ s \<in> (\<lambda>k. k @ pkey) ` K" for s
    using that assms(2) k by (auto simp: is_enc_append_inj)
  show "pk = pk'"
  proof (cases "k @ pk \<in> E \<and> k @ pk' \<in> E")
    case True
    with assms(1) k show ?thesis
      unfolding unique_entries_def by blast
  next
    case False
    then have "k \<in> K" "k @ pk \<in> E \<or> pk = pkey" "k @ pk' \<in> E \<or> pk' = pkey"
      using pk pk' new by blast+
    with assms(3) show ?thesis
      by blast
  qed
qed

lemma collected_no_clash:
  assumes "\<forall>(i, ks) \<in> set acc. P i ks"
    and "\<And>m ks. m \<in> set metas \<Longrightarrow> enc_list ks \<Longrightarrow>
      (im_unique m \<Longrightarrow> \<exists>ix. find (\<lambda>i. ix_id i = im_id m) ixs = Some ix \<and>
        \<not> (\<exists>k \<in> set ks. key_clash (ix_entries ix) pkey k)) \<Longrightarrow> P (im_id m) ks"
  shows "yields (collect_ikeys V n clone pkey ixs metas acc)
    (\<lambda>r. \<forall>iks. r = Inr iks \<longrightarrow> (\<forall>(i, ks) \<in> set iks. P i ks))"
  using assms
proof (induction metas arbitrary: acc)
  case (Cons m metas)
  have rec: "yields (collect_ikeys V n clone pkey ixs metas (acc @ [(im_id m, keys)]))
      (\<lambda>r. \<forall>iks. r = Inr iks \<longrightarrow> (\<forall>(i, ks) \<in> set iks. P i ks))" if "P (im_id m) keys" for keys
    using Cons.prems that by (intro Cons.IH) auto
  show ?case
    unfolding collect_ikeys.simps
    by (rule yields_bind_with [OF index_keys_enc]) (auto intro!: yields_intros rec Cons.prems(2))
qed (auto intro!: yields_ret)

lemma set_store_mut:
  assumes "t \<in> set (db_stores (store_mut name f d))"
  obtains "t \<in> set (db_stores d)" | s where "find_store name d = Some s" "t = f s"
proof -
  have "t \<in> set (upd_first p f xs) \<Longrightarrow> t \<in> set xs \<or> (\<exists>s. find p xs = Some s \<and> t = f s)" for p xs
    by (induction xs) (auto split: if_splits)
  with assms that show thesis
    unfolding store_mut_def find_store_def by (cases d) auto
qed

lemma db_unique_move_generator:
  "db_unique d \<Longrightarrow> db_unique (fst (move_generator s nx (d, us)))"
  by (auto simp: move_generator_def db_unique_def store_unique_def
      split: option.splits elim!: set_store_mut dest!: find_store_in)

lemma find_ix:
  assumes "distinct_ixs s" and "ix \<in> set (st_indexes s)"
  shows "find (\<lambda>i. ix_id i = ix_id ix) (st_indexes s) = Some ix"
  using assms find_by_key [of "\<lambda>i. ix_id i" "st_indexes s" ix] by (simp add: distinct_ixs_def)

text \<open>What the uniqueness check has established for the keys of the new record.\<close>

lemma collected_keys_free:
  assumes s: "store_ok N s"
    and collect: "collect_ikeys V n clone pkey (st_indexes s) (map ix_meta (st_indexes s)) [] \<sigma>1 =
      Some (Inr ikeys, \<sigma>2)"
    and ix: "ix \<in> set (st_indexes s)" "im_unique (ix_meta ix)" and ks: "(ix_id ix, ks) \<in> set ikeys"
  shows "\<forall>k \<in> set ks. is_enc k \<and> (\<forall>pk. k @ pk \<in> set (ix_entries ix) \<longrightarrow> pk = pkey)"
proof -
  have d: "distinct_ixs s"
    using s by (rule store_ok_distinct)
  let ?P = "\<lambda>i ks. \<forall>ix \<in> set (st_indexes s). i = ix_id ix \<longrightarrow> im_unique (ix_meta ix) \<longrightarrow>
      (\<forall>k \<in> set ks. is_enc k \<and> \<not> key_clash (ix_entries ix) pkey k)"
  have step: "?P (im_id m) ks"
    if m: "m \<in> set (map ix_meta (st_indexes s))" and enc: "enc_list ks"
      and no: "im_unique m \<Longrightarrow> \<exists>ix. find (\<lambda>i. ix_id i = im_id m) (st_indexes s) = Some ix \<and>
        \<not> (\<exists>k \<in> set ks. key_clash (ix_entries ix) pkey k)" for m ks
  proof (intro ballI impI)
    fix ix k assume ix: "ix \<in> set (st_indexes s)" "im_id m = ix_id ix" "im_unique (ix_meta ix)"
      and k: "k \<in> set ks"
    obtain ix' where ix': "ix' \<in> set (st_indexes s)" "m = ix_meta ix'"
      using m by auto
    have "ix' = ix"
      using find_ix [OF d ix(1)] find_ix [OF d ix'(1)] ix(2) ix'(2) by simp
    with no ix ix' find_ix [OF d ix(1)] k enc show "is_enc k \<and> \<not> key_clash (ix_entries ix) pkey k"
      by (auto simp: enc_list_def)
  qed
  have "yields (collect_ikeys V n clone pkey (st_indexes s) (map ix_meta (st_indexes s)) [])
      (\<lambda>r. \<forall>iks. r = Inr iks \<longrightarrow> (\<forall>(i, ks) \<in> set iks. ?P i ks))"
    by (rule collected_no_clash) (simp, rule step)
  from yieldsD [OF this collect] ks ix show ?thesis
    using key_clash_iff [OF index_facts(1) [OF s ix(1)]] by fastforce
qed

lemma store_unique_write_record:
  assumes s: "store_ok N s" and u: "store_unique s"
    and free: "\<And>ix ks k pk. ix \<in> set (st_indexes s) \<Longrightarrow> im_unique (ix_meta ix) \<Longrightarrow>
      (ix_id ix, ks) \<in> set (rec_ikeys r) \<Longrightarrow> k \<in> set ks \<Longrightarrow>
      is_enc k \<and> (k @ pk \<in> set (ix_entries ix) \<longrightarrow> pk = pkey)"
  shows "store_unique (write_record pkey r s)"
proof -
  have "unique_entries (set (ix_entries ix'))"
    if ix': "ix' \<in> set (st_indexes (write_record pkey r s))" and uq: "im_unique (ix_meta ix')" for ix'
  proof -
    let ?new = "\<lambda>ix. fold bs_insert (entry_list (ix_id ix) pkey r)
      (fold bs_remove (own_entries (ix_id ix) pkey s) (ix_entries ix))"
    obtain ix where ix: "ix \<in> set (st_indexes s)" and eq: "ix' = ix\<lparr>ix_entries := ?new ix\<rparr>"
      using ix' s by (auto simp: write_record_eq map_entries_def)
    let ?K = "\<Union> (set ` {ks. (ix_id ix, ks) \<in> set (rec_ikeys r)})"
    let ?E = "set (ix_entries ix) - set (own_entries (ix_id ix) pkey s)"
    have el: "set (entry_list (ix_id ix) pkey r) = (\<lambda>k. k @ pkey) ` ?K"
      by (force simp: entry_list_def)
    have E: "set (ix_entries ix') = ?E \<union> (\<lambda>k. k @ pkey) ` ?K"
      using index_facts [OF s ix] el
      by (simp add: eq bs.elems_fold_insert bs.elems_fold_remove)
    have "unique_entries ?E"
      using u ix uq by (auto simp: eq store_unique_def intro: unique_entries_subset)
    moreover have "\<forall>k \<in> ?K. is_enc k \<and> (\<forall>pk. k @ pk \<in> ?E \<longrightarrow> pk = pkey)"
      using free ix uq by (auto simp: eq)
    ultimately show ?thesis
      unfolding E by (intro unique_entries_add) auto
  qed
  then show ?thesis
    by (simp add: store_unique_def)
qed

lemma db_unique_write_op:
  assumes db: "db_ok d" and u: "db_unique d" and s': "find_store (st_name s) d = Some s'"
    and ok: "store_unique (write_record pk r s')"
  shows "db_unique (fst (write_op s pk r (d, us)))"
  unfolding db_unique_def
proof
  fix t assume "t \<in> set (db_stores (fst (write_op s pk r (d, us))))"
  then have "t \<in> set (db_stores (store_mut (st_name s) (write_record pk r) d))"
    by (simp add: write_op_def)
  then show "store_unique t"
    by (rule set_store_mut) (use u s' ok in \<open>auto simp: db_unique_def\<close>)
qed

lemma put_keeps_unique:
  assumes db: "db_ok (fst l)" and u: "db_unique (fst l)"
    and put: "store_put V n name prep no_overwrite l \<sigma> = Some ((r, l'), \<sigma>')"
  shows "db_unique (fst l')"
proof -
  obtain d us where l: "l = (d, us)"
    by (cases l)
  from put show ?thesis
  proof (cases rule: store_put_cases)
    case (failed s key nx e)
    with u show ?thesis
      by (simp add: l db_unique_move_generator)
  next
    case (stored s key nx clone v ikeys \<sigma>1 \<sigma>2)
    let ?r = "\<lparr>rec_value = v, rec_ikeys = ikeys\<rparr>"
    let ?s = "case nx of None \<Rightarrow> s | Some x \<Rightarrow> s\<lparr>st_next := x\<rparr>"
    obtain d' us' where l1: "move_generator s nx l = (d', us')"
      by (cases "move_generator s nx l")
    have name: "st_name s = name" and s_in: "s \<in> set (db_stores d)"
      using stored(1) by (auto simp: l dest: find_store_in)
    have s: "store_ok (db_next_id d) s" and su: "store_unique s"
      using db u s_in by (auto simp: l store_in_db db_unique_def)
    have found: "find_store (st_name s) d' = Some ?s"
      using find_after_generator [OF stored(1), of nx] by (simp add: l1 name)
    have db': "db_ok d'"
      using extends_ok [OF extends_move_generator [OF db stored(1), of nx] db] by (simp add: l1)
    have u': "db_unique d'"
      using db_unique_move_generator [of d s nx us] u l1 by (simp add: l)
    note free = collected_keys_free [OF s stored(5)]
    have "store_ok (db_next_id d) ?s" "store_unique ?s" "st_indexes ?s = st_indexes s"
      using s su by (auto simp: store_ok_def store_unique_def distinct_ixs_def split: option.splits)
    then have "store_unique (write_record (encode key) ?r ?s)"
      using free by (intro store_unique_write_record) auto
    from db_unique_write_op [OF db' u' found this] show ?thesis
      by (simp add: stored(7) l1)
  qed (use u in simp_all)
qed

text \<open>The concrete database: after the upgrade, and with one record.\<close>

definition demo_store_put :: "u16 \<Rightarrow> u8 \<Rightarrow> bool \<Rightarrow> log \<Rightarrow> (dom_error + key) \<times> log" where
  "demo_store_put k b no_overwrite l =
     (case store_put demo_v8 3 ''s'' (demo_put k b) no_overwrite l () of
        Some (r, _) \<Rightarrow> r
      | None \<Rightarrow> (Inl ([], []), l))"

definition demo_puts :: "u16 \<Rightarrow> u8 \<Rightarrow> bool \<Rightarrow> log \<Rightarrow> bool" where
  "demo_puts k b no_overwrite l =
     (case store_put demo_v8 3 ''s'' (demo_put k b) no_overwrite l () of
        Some _ \<Rightarrow> True | None \<Rightarrow> False)"

lemma demo_store_put_eq:
  "demo_puts k b no_overwrite l \<Longrightarrow>
   store_put demo_v8 3 ''s'' (demo_put k b) no_overwrite l () =
     Some (demo_store_put k b no_overwrite l, ())"
  by (auto simp: demo_puts_def demo_store_put_def split: option.splits)

definition demo_one :: log where
  "demo_one = snd (demo_store_put 7 9 False (demo_db, []))"

definition is_error :: "(dom_error + key) \<times> log \<Rightarrow> bool" where
  "is_error r = (case fst r of Inl _ \<Rightarrow> True | Inr _ \<Rightarrow> False)"


lemma demo_puts: "demo_puts 7 9 False (demo_db, [])" "demo_puts 7 9 True demo_one"
  by code_simp+

lemma demo_db_unique: "db_unique demo_db"
proof -
  have "list_all (\<lambda>s. list_all (\<lambda>ix. length (ix_entries ix) = 0) (st_indexes s))
      (db_stores demo_db)"
    by code_simp
  then show ?thesis
    by (auto simp: db_unique_def store_unique_def unique_entries_def list_all_iff)
qed

text \<open>
  Claim C2. A \<open>put\<close> or \<open>add\<close> never breaks a unique index: if in every unique index no two
  entries share an index key, the same holds after the call, whatever it returns.
\<close>

theorem put_preserves_uniqueness:
  assumes "db_ok d" and "db_unique d"
    and "store_put V n name prep no_overwrite (d, undo) \<sigma> = Some ((r, (d', undo')), \<sigma>')"
  shows "db_ok d' \<and> db_unique d'"
  using put_keeps_unique [OF _ _ assms(3)] extends_ok [OF extends_store_put [OF _ assms(3)]] assms(1,2)
  by simp

theorem put_preserves_uniqueness_witness:
  "db_unique (fst (snd (demo_store_put 7 9 False (demo_db, []))))"
proof -
  obtain r d' undo' where l: "demo_store_put 7 9 False (demo_db, []) = (r, (d', undo'))"
    by (cases "demo_store_put 7 9 False (demo_db, [])") auto
  from put_preserves_uniqueness [OF demo_db_ok demo_db_unique
      demo_store_put_eq [OF demo_puts(1), unfolded l]] l
  show ?thesis
    by simp
qed

text \<open>
  A \<open>put\<close> that reports an error has changed no record and no index: the database
  is as before, except that the key generator of the store may have moved on.
\<close>

theorem failed_put_changes_no_record:
  assumes "store_put V n name prep no_overwrite (d, undo) \<sigma> = Some ((Inl e, (d', undo')), \<sigma>')"
  shows "\<exists>f. d' = store_mut name (\<lambda>s. s\<lparr>st_next := f (st_next s)\<rparr>) d"
  using assms
proof (cases rule: store_put_cases)
  case (failed s key nx e)
  have "st_name s = name"
    using failed(1) by (auto dest: find_store_in)
  with failed(4) have "d' = store_mut name (\<lambda>s. s\<lparr>st_next := (case nx of None \<Rightarrow> st_next s | Some x \<Rightarrow> x)\<rparr>) d"
    by (cases nx) (auto simp: move_generator_def store_mut_def upd_first_same)
  then show ?thesis
    by (intro exI [of _ "\<lambda>x. case nx of None \<Rightarrow> x | Some y \<Rightarrow> y"])
qed (auto simp: store_mut_def upd_first_same intro: exI [of _ id])

theorem failed_put_changes_no_record_witness:
  "is_error (demo_store_put 7 9 True demo_one) \<and>
   (\<exists>f. fst (snd (demo_store_put 7 9 True demo_one)) =
     store_mut ''s'' (\<lambda>s. s\<lparr>st_next := f (st_next s)\<rparr>) (fst demo_one))"
proof
  show e: "is_error (demo_store_put 7 9 True demo_one)"
    by code_simp
  then obtain e d' undo' where l: "demo_store_put 7 9 True demo_one = (Inl e, (d', undo'))"
    by (cases "demo_store_put 7 9 True demo_one") (auto simp: is_error_def split: sum.splits)
  have "store_put demo_v8 3 ''s'' (demo_put 7 9) True (fst demo_one, snd demo_one) () =
      Some ((Inl e, (d', undo')), ())"
    using demo_store_put_eq [OF demo_puts(2)] l by simp
  from failed_put_changes_no_record [OF this] l
  show "\<exists>f. fst (snd (demo_store_put 7 9 True demo_one)) =
     store_mut ''s'' (\<lambda>s. s\<lparr>st_next := f (st_next s)\<rparr>) (fst demo_one)"
    by simp
qed

lemma write_record_simps [simp]:
  "st_id (write_record pk r s) = st_id s" "st_name (write_record pk r s) = st_name s"
  "st_records (write_record pk r s) = bt_insert pk r (bt_remove pk (st_records s))"
  by (auto simp: write_record_def Let_def unindex_def reindex_def split: option.splits)






section \<open>The key generator\<close>

text \<open>The generator holds a whole number from 1 to the limit \<open>2 ^ 53\<close>.\<close>

definition generator_ok :: "store \<Rightarrow> bool" where
  "generator_ok s \<longleftrightarrow> (\<exists>j. 0 < j \<and> j \<le> 2 ^ 53 \<and> st_next s = f64_of_nat j)"

definition db_generators :: "db_data \<Rightarrow> bool" where
  "db_generators d \<longleftrightarrow> (\<forall>s \<in> set (db_stores d). generator_ok s)"

lemma generator_not_exhausted:
  assumes "generator_ok s"
  shows "\<not> f64_less f64_2p53 (st_next s)"
proof -
  obtain j where j: "0 < j" "j \<le> 2 ^ 53" "st_next s = f64_of_nat j"
    using assms by (auto simp: generator_ok_def)
  have "int (j * f64_scale) \<le> int (2 ^ 53 * f64_scale)"
    using mult_le_mono1 [OF j(2), of f64_scale] by (simp only: of_nat_le_iff)
  moreover have "f64_units (f64_of_nat (2 ^ 53)) = int (2 ^ 53 * f64_scale)"
    by (rule f64_of_nat_exact) simp_all
  ultimately have "f64_units (f64_of_nat j) \<le> f64_units (f64_of_nat (2 ^ 53))"
    by (simp only: f64_of_nat_exact(1) [OF j(1,2)])
  then show ?thesis
    by (simp only: j(3) f64_less_def f64_of_nat_limits(2)) simp
qed

lemma assign_key_generator:
  assumes g: "generator_ok s" and key: "assign_key s key = Inr (k, Some x)"
  shows "generator_ok (s'\<lparr>st_next := x\<rparr>)"
proof -
  obtain j where j: "0 < j" "j \<le> 2 ^ 53" "st_next s = f64_of_nat j"
    using g by (auto simp: generator_ok_def)
  show ?thesis
  proof (cases key)
    case None
    with key generator_not_exhausted [OF g] have "x = f64_of_nat (min (j + 1) (2 ^ 53))"
      using f64_add_one [OF j(1,2)] by (simp add: assign_key_def j(3))
    then show ?thesis
      unfolding generator_ok_def by (intro exI [of _ "min (j + 1) (2 ^ 53)"]) simp
  next
    case (Some k')
    with key obtain n where "f64_le (f64_of_nat j) n"
      and x: "x = f64_min (f64_add (f64_floor n) f64_one) (f64_add f64_2p53 f64_one)"
      by (auto simp: assign_key_def j(3) split: key.splits if_splits)
    from f64_next_key [OF j(1,2) this(1)] obtain k where "j \<le> k" "k \<le> 2 ^ 53" "x = f64_of_nat k"
      unfolding x by blast
    with j(1) show ?thesis
      unfolding generator_ok_def by (intro exI [of _ k]) simp
  qed
qed

lemma generators_store_mut:
  assumes "db_generators d" and "\<And>s. find_store name d = Some s \<Longrightarrow> generator_ok (f s)"
  shows "db_generators (store_mut name f d)"
  using assms by (auto simp: db_generators_def elim!: set_store_mut)

text \<open>
  The key generator of every store holds a whole number from 1 to
  9007199254740992 before and after any \<open>put\<close>, so the branch of \<open>put\<close> that reports an
  exhausted generator is never taken.
\<close>

theorem generator_stays_in_range:
  assumes "db_generators d"
    and "store_put V n name prep no_overwrite (d, undo) \<sigma> = Some ((r, (d', undo')), \<sigma>')"
  shows "db_generators d' \<and>
    (\<forall>s. find_store name d = Some s \<longrightarrow> assign_key s (prep_key prep) \<notin> range Inl)"
proof -
  have gen: "db_generators (fst (move_generator s nx (d, undo)))"
    if "find_store name d = Some s" "assign_key s (prep_key prep) = Inr (k, nx)" for s k nx
  proof (cases nx)
    case (Some x)
    have s: "st_name s = name" "generator_ok s"
      using find_store_in [OF that(1)] assms(1) by (auto simp: db_generators_def)
    have "db_generators (store_mut name (\<lambda>s. s\<lparr>st_next := x\<rparr>) d)"
      using assms(1) assign_key_generator [OF s(2) that(2) [unfolded Some]]
      by (rule generators_store_mut)
    with Some s show ?thesis
      by (simp add: move_generator_def)
  qed (use assms(1) in \<open>simp add: move_generator_def\<close>)
  have "db_generators d'"
    using assms(2)
  proof (cases rule: store_put_cases)
    case (failed s key nx e)
    then show ?thesis
      using gen [of s key nx] by (metis fst_conv)
  next
    case (stored s key nx clone v ikeys \<sigma>1 \<sigma>2)
    obtain d1 us1 where l1: "move_generator s nx (d, undo) = (d1, us1)"
      by (cases "move_generator s nx (d, undo)")
    have g: "db_generators d1"
      using gen [of s key nx] stored(1,2) l1 by simp
    have "st_next (write_record pk rc t) = st_next t" for pk rc t
      by (simp add: write_record_def Let_def unindex_def reindex_def split: option.splits)
    then have "db_generators (store_mut (st_name s) (write_record pk rc) d1)" for pk rc
      using g by (intro generators_store_mut)
        (auto simp: db_generators_def generator_ok_def dest: find_store_in)
    with stored(7) l1 show ?thesis
      by (simp add: write_op_def)
  qed (use assms(1) in simp_all)
  moreover have "assign_key s (prep_key prep) \<noteq> Inl e" if "find_store name d = Some s" for s e
    using generator_not_exhausted [of s] assms(1) find_store_in [OF that]
    by (auto simp: assign_key_def db_generators_def split: option.splits)
  ultimately show ?thesis
    by auto
qed

theorem generator_stays_in_range_witness:
  "db_generators (fst demo_one) \<and>
   (\<exists>s. find_store ''s'' demo_db = Some s \<and> assign_key s (prep_key (demo_put 7 9)) \<notin> range Inl)"
proof -
  have "list_all (\<lambda>s. st_next s = f64_one) (db_stores demo_db)"
    by code_simp
  then have g: "db_generators demo_db"
    unfolding db_generators_def generator_ok_def f64_of_nat_limits(1) [symmetric]
    by (auto simp: list_all_iff intro!: exI [of _ 1])
  have "case find_store ''s'' demo_db of Some _ \<Rightarrow> True | None \<Rightarrow> False"
    by code_simp
  then obtain s where s: "find_store ''s'' demo_db = Some s"
    by (auto split: option.splits)
  obtain r d' undo' where l: "demo_store_put 7 9 False (demo_db, []) = (r, (d', undo'))"
    by (cases "demo_store_put 7 9 False (demo_db, [])") auto
  from generator_stays_in_range [OF g demo_store_put_eq [OF demo_puts(1), unfolded l]] l s
  show ?thesis
    by (simp add: demo_one_def)
qed

text \<open>
  At the limit the generator stays where it is: it hands out the key
  9007199254740992 again and again, because adding one to it rounds back to it. The test
  \<open>next > 9007199254740992.0\<close> that should report a \<open>ConstraintError\<close> cannot succeed.
\<close>

theorem generator_repeats_at_the_limit:
  assumes "st_next s = f64_2p53"
  shows "assign_key s None = Inr (KNum f64_2p53, Some f64_2p53)"
proof -
  have "f64_add (f64_of_nat (2 ^ 53)) f64_one = f64_of_nat (min (2 ^ 53 + 1) (2 ^ 53))"
    by (rule f64_add_one) simp_all
  also have "min (2 ^ 53 + 1) (2 ^ 53) = (2 ^ 53 :: nat)"
    by simp
  finally have "f64_add f64_2p53 f64_one = f64_2p53"
    unfolding f64_of_nat_limits(2) .
  with assms show ?thesis
    by (simp add: assign_key_def f64_less_def)
qed

theorem generator_repeats_at_the_limit_witness:
  "assign_key \<lparr>st_id = 1, st_name = ''s'', st_key_path = PNone, st_auto_inc = True,
     st_next = f64_2p53, st_records = [], st_indexes = []\<rparr> None =
   Inr (KNum f64_2p53, Some f64_2p53)"
  by (rule generator_repeats_at_the_limit) simp

section \<open>Creating a unique index\<close>

lemma add_index_keys_unique:
  assumes "add_index_keys True pk ks (E, dup) = (E', dup')" and "\<not> dup'"
    and "bs_ok E" and "\<forall>k \<in> set ks. is_enc k" and "\<not> dup \<Longrightarrow> unique_entries (set E)"
  shows "\<not> dup \<and> unique_entries (set E')"
  using assms
proof (induction ks arbitrary: E dup)
  case (Cons k ks)
  let ?dup = "dup \<or> first_clash E k"
  have "unique_entries (set (bs_insert (k @ pk) E))" if "\<not> ?dup"
    using unique_entries_add [of "set E" "{k}" pk] Cons.prems(3-5) that
    by (simp add: first_clash_iff set_bs_insert)
  with Cons.IH [of "bs_insert (k @ pk) E" ?dup] Cons.prems show ?case
    by (auto simp: bs_ok_insert)
qed simp

lemma build_index_unique:
  assumes "im_unique meta" and "bs_ok (fst acc)" and "\<not> snd acc \<Longrightarrow> unique_entries (set (fst acc))"
  shows "yields (build_index V n meta pairs acc per)
    (\<lambda>(acc', per'). \<not> snd acc' \<longrightarrow> unique_entries (set (fst acc')))"
  using assms(2,3)
proof (induction pairs arbitrary: acc per)
  case (Cons pair pairs)
  obtain pk r where pair: "pair = (pk, r)"
    by (cases pair)
  have "yields (build_index V n meta pairs (add_index_keys True pk keys acc) (per @ [(pk, keys)]))
      (\<lambda>(acc', per'). \<not> snd acc' \<longrightarrow> unique_entries (set (fst acc')))"
    if enc: "enc_list keys" for keys
  proof -
    obtain E dup where acc: "acc = (E, dup)"
      by (cases acc)
    obtain E' dup' where add: "add_index_keys True pk keys (E, dup) = (E', dup')"
      by (cases "add_index_keys True pk keys (E, dup)")
    have "bs_ok E'"
      using add_index_keys_set [OF add] Cons.prems(1) by (simp add: acc)
    moreover have "unique_entries (set E')" if "\<not> dup'"
      using add_index_keys_unique [OF add that] enc Cons.prems by (auto simp: acc enc_list_def)
    ultimately show ?thesis
      unfolding acc add by (intro Cons.IH) auto
  qed
  then show ?case
    unfolding pair build_index.simps using assms(1)
    by (intro yields_bind [where f = "\<lambda>v. and_then (index_keys V n v meta) _"]
        yields_bind_with [OF index_keys_enc]) simp
qed (auto intro!: yields_ret)

lemma create_index_cases:
  assumes "create_index V n store name kp unique multi (d, us) \<sigma> = Some ((Inr (), (d', us')), \<sigma>')"
  obtains (missing) "d' = d\<lparr>db_next_id := next_id_after (db_next_id d)\<rparr>"
  | (built) s :: store and meta entries per where "im_unique meta = unique"
      "build_index V n meta (st_records s) ([], False) [] \<sigma> = Some (((entries, False), per), \<sigma>')"
      "d' = store_mut store (install_index meta entries per)
         (d\<lparr>db_next_id := next_id_after (db_next_id d)\<rparr>)"
proof (cases "find_store store (d\<lparr>db_next_id := next_id_after (db_next_id d)\<rparr>)")
  case None
  with assms missing show thesis
    by (auto simp: create_index_def Let_def eff_simps)
next
  case (Some s)
  let ?meta = "\<lparr>im_id = next_id_after (db_next_id d), im_name = name, im_key_path = kp,
    im_unique = unique, im_multi = multi\<rparr>"
  from assms Some show thesis
    by (auto simp: create_index_def Let_def eff_simps split: if_splits intro!: built [of ?meta s])
qed

text \<open>
  \<open>createIndex\<close> on a store with records builds the index from them; when it
  reports no error, an index declared unique is unique, and the others stay so. (When it
  reports a \<open>ConstraintError\<close> the version-change transaction is aborted.)
\<close>

theorem create_index_detects_duplicates:
  assumes "db_unique d"
    and "create_index V n store name kp unique multi (d, undo) \<sigma> = Some ((Inr (), (d', undo')), \<sigma>')"
  shows "db_unique d'"
  using assms(2)
proof (cases rule: create_index_cases)
  case missing
  with assms(1) show ?thesis
    by (simp add: db_unique_def)
next
  case (built s meta entries per)
  have "unique_entries (set entries)" if "im_unique meta"
    using yieldsD [OF build_index_unique [OF that] built(2)] by (simp add: unique_entries_def)
  then have "store_unique (install_index meta entries per t)" if "store_unique t" for t
    using that by (auto simp: store_unique_def install_index_def Let_def)
  with assms(1) show ?thesis
    unfolding built(3) db_unique_def
    by (auto elim!: set_store_mut dest!: find_store_in)
qed

definition demo_index :: "((dom_error + unit) \<times> log) option" where
  "demo_index = map_option fst
     (create_index demo_v8 3 ''s'' ''j'' (PStr ''a'') True False demo_one ())"

definition is_done :: "((dom_error + unit) \<times> log) option \<Rightarrow> bool" where
  "is_done r = (case r of Some (Inr _, _) \<Rightarrow> True | _ \<Rightarrow> False)"

theorem create_index_detects_duplicates_witness:
  "\<exists>d' undo'. demo_index = Some (Inr (), (d', undo')) \<and> db_unique d'"
proof -
  have "is_done demo_index"
    by code_simp
  then obtain d' undo' where i: "demo_index = Some (Inr (), (d', undo'))"
    by (auto simp: is_done_def split: option.splits sum.splits)
  have u: "db_unique (fst demo_one)"
  proof -
    obtain r l where l: "demo_store_put 7 9 False (demo_db, []) = (r, l)"
      by (cases "demo_store_put 7 9 False (demo_db, [])")
    from put_keeps_unique [OF _ _ demo_store_put_eq [OF demo_puts(1), unfolded l]] demo_db_unique
    show ?thesis
      by (simp add: demo_one_def l)
  qed
  have "create_index demo_v8 3 ''s'' ''j'' (PStr ''a'') True False (fst demo_one, snd demo_one) () =
      Some ((Inr (), (d', undo')), ())"
    using i by (auto simp: demo_index_def)
  from create_index_detects_duplicates [OF u this] i show ?thesis
    by blast
qed

end
