(* ===== verification/IdbRead.thy ===== *)
theory IdbRead
  imports IdbPut
begin

text \<open>
  Reading (\<open>crates/pool/src/idb.rs\<close>): key ranges, \<open>get\<close>, \<open>getAll\<close>, \<open>count\<close> and the
  cursors. A range query of an ordered container panics on an inverted range; that is the
  result \<open>None\<close>. The lemmas show that a read finds exactly the records of the range, in
  key order, that a cursor goes through the same records, and that cursors cannot panic.
\<close>

section \<open>Ranges\<close>

record key_range =
  r_lower :: "bytes bound"
  r_upper :: "bytes bound"

definition whole_range :: key_range where
  "whole_range = \<lparr>r_lower = Unbounded, r_upper = Unbounded\<rparr>"

definition bound_arg :: "('s, 'v) v8 \<Rightarrow> nat \<Rightarrow> 'v \<Rightarrow> bool \<Rightarrow> ('s, bytes bound option) eff" where
  "bound_arg V n v is_open =
     (if v8_is_undefined V v then ret (Some Unbounded)
      else and_then (to_key V n v) (\<lambda>k.
        ret (map_option (\<lambda>k. if is_open then Excluded (encode k) else Included (encode k)) k)))"

text \<open>The elements of the range array; one that throws ends the conversion.\<close>

definition get_elem ::
  "('s, 'v) v8 \<Rightarrow> 'v \<Rightarrow> nat \<Rightarrow> ('v \<Rightarrow> ('s, 'a option) eff) \<Rightarrow> ('s, 'a option) eff" where
  "get_elem V arr i f =
     and_then (call (v8_get_index V arr i)) (\<lambda>x. case x of None \<Rightarrow> ret None | Some x \<Rightarrow> f x)"

definition range_arg :: "('s, 'v) v8 \<Rightarrow> nat \<Rightarrow> 'v \<Rightarrow> ('s, key_range option) eff" where
  "range_arg V n v =
     (if v8_is_null_or_undefined V v then ret (Some whole_range)
      else if \<not> v8_is_array V v then ret None
      else get_elem V v 0 (\<lambda>lo. get_elem V v 1 (\<lambda>hi.
             get_elem V v 2 (\<lambda>lo_open. get_elem V v 3 (\<lambda>hi_open.
               and_then (bound_arg V n lo (v8_boolean_value V lo_open)) (\<lambda>l.
                 case l of
                   None \<Rightarrow> ret None
                 | Some l \<Rightarrow>
                     and_then (bound_arg V n hi (v8_boolean_value V hi_open)) (\<lambda>u.
                       ret (map_option (\<lambda>u. \<lparr>r_lower = l, r_upper = u\<rparr>) u))))))))"

fun index_lower :: "bytes bound \<Rightarrow> bytes bound" where
  "index_lower Unbounded = Unbounded"
| "index_lower (Included b) = Included b"
| "index_lower (Excluded b) = Excluded (b @ [0xFF])"

fun index_upper :: "bytes bound \<Rightarrow> bytes bound" where
  "index_upper Unbounded = Unbounded"
| "index_upper (Included b) = Excluded (b @ [0xFF])"
| "index_upper (Excluded b) = Excluded b"

definition index_bounds :: "key_range \<Rightarrow> bytes bound \<times> bytes bound" where
  "index_bounds r = (index_lower (r_lower r), index_upper (r_upper r))"

fun tighter_lower :: "bytes bound \<Rightarrow> bytes bound \<Rightarrow> bytes bound" where
  "tighter_lower Unbounded b = b"
| "tighter_lower a Unbounded = a"
| "tighter_lower (Included x) (Included y) = (if x < y then Included y else Included x)"
| "tighter_lower (Included x) (Excluded y) = (if x < y \<or> y = x then Excluded y else Included x)"
| "tighter_lower (Excluded x) (Included y) = (if x < y then Included y else Excluded x)"
| "tighter_lower (Excluded x) (Excluded y) = (if x < y \<or> y = x then Excluded y else Excluded x)"

fun tighter_upper :: "bytes bound \<Rightarrow> bytes bound \<Rightarrow> bytes bound" where
  "tighter_upper Unbounded b = b"
| "tighter_upper a Unbounded = a"
| "tighter_upper (Included x) (Included y) = (if y < x then Included y else Included x)"
| "tighter_upper (Included x) (Excluded y) = (if y < x \<or> y = x then Excluded y else Included x)"
| "tighter_upper (Excluded x) (Included y) = (if y < x then Included y else Excluded x)"
| "tighter_upper (Excluded x) (Excluded y) = (if y < x \<or> y = x then Excluded y else Excluded x)"

fun bounds_empty :: "bytes bound \<Rightarrow> bytes bound \<Rightarrow> bool" where
  "bounds_empty (Included a) (Included b) = (b < a)"
| "bounds_empty (Included a) (Excluded b) = (b \<le> a)"
| "bounds_empty (Excluded a) (Included b) = (b \<le> a)"
| "bounds_empty (Excluded a) (Excluded b) = (b \<le> a)"
| "bounds_empty _ _ = False"

section \<open>Reads\<close>

text \<open>A row: index key, primary key, value. \<open>want\<close> limits the rows.\<close>

type_synonym row = "bytes \<times> bytes \<times> bytes option"

datatype hits = HCount nat | HRows "row list"

definition need_value :: "nat \<Rightarrow> bool" where
  "need_value kind \<longleftrightarrow> kind = 0 \<or> kind = 2 \<or> kind = 5"

definition single_kind :: "nat \<Rightarrow> bool" where
  "single_kind kind \<longleftrightarrow> kind = 0 \<or> kind = 1"

text \<open>\<open>take(want)\<close>, where \<open>None\<close> stands for \<open>usize::MAX\<close>, in iteration order.\<close>

definition taken :: "bool \<Rightarrow> nat option \<Rightarrow> 'a list \<Rightarrow> 'a list" where
  "taken reverse want xs =
     (let xs = (if reverse then rev xs else xs)
      in case want of None \<Rightarrow> xs | Some n \<Rightarrow> take n xs)"

definition want_of :: "nat \<Rightarrow> nat \<Rightarrow> nat option" where
  "want_of kind limit = (if single_kind kind then Some 1 else if limit = 0 then None else Some limit)"

definition store_row :: "bool \<Rightarrow> bytes \<times> idb_record \<Rightarrow> row" where
  "store_row vals = (\<lambda>(k, r). (k, k, if vals then Some (rec_value r) else None))"

definition index_row :: "bool \<Rightarrow> store \<Rightarrow> bytes \<Rightarrow> row" where
  "index_row vals s e =
     (let (ik, pk) = split_entry e
      in (ik, pk, if vals then map_option rec_value (bt_get (st_records s) pk) else None))"

definition store_hits :: "store \<Rightarrow> key_range \<Rightarrow> nat \<Rightarrow> nat \<Rightarrow> bool \<Rightarrow> hits option" where
  "store_hits s r kind limit reverse =
     (case bt_range (r_lower r) (r_upper r) (st_records s) of
        None \<Rightarrow> None
      | Some it \<Rightarrow>
          if kind = 4 then Some (HCount (length it))
          else Some (HRows (map (store_row (need_value kind))
                 (taken reverse (want_of kind limit) it))))"

definition index_hits :: "store \<Rightarrow> index \<Rightarrow> key_range \<Rightarrow> nat \<Rightarrow> nat \<Rightarrow> bool \<Rightarrow> hits option" where
  "index_hits s ix r kind limit reverse =
     (let (lo, hi) = index_bounds r in
      case bs_range lo hi (ix_entries ix) of
        None \<Rightarrow> None
      | Some it \<Rightarrow>
          if kind = 4 then Some (HCount (length it))
          else Some (HRows (map (index_row (need_value kind) s)
                 (taken reverse (want_of kind limit) it))))"

definition invalid_state :: "string \<Rightarrow> dom_error" where
  "invalid_state msg = (''InvalidStateError'', msg)"

definition find_index :: "string \<Rightarrow> store \<Rightarrow> index option" where
  "find_index name s = find (\<lambda>i. im_name (ix_meta i) = name) (st_indexes s)"

definition read_hits ::
  "db_data \<Rightarrow> string \<Rightarrow> string option \<Rightarrow> key_range \<Rightarrow> nat \<Rightarrow> nat \<Rightarrow> bool \<Rightarrow>
   (dom_error + hits) option" where
  "read_hits d store_name index_name r kind limit reverse =
     (case find_store store_name d of
        None \<Rightarrow> Some (Inl (invalid_state ''The object store has been deleted.''))
      | Some s \<Rightarrow>
          (case index_name of
             None \<Rightarrow> map_option Inr (store_hits s r kind limit reverse)
           | Some iname \<Rightarrow>
               (case find_index iname s of
                  None \<Rightarrow> Some (Inl (invalid_state ''The index has been deleted.''))
                | Some ix \<Rightarrow> map_option Inr (index_hits s ix r kind limit reverse))))"

text \<open>The value handed to the page, after the lock is released.\<close>

definition decode_value :: "('s, 'v) v8 \<Rightarrow> bytes \<Rightarrow> ('s, 'v) eff" where
  "decode_value V enc =
     (case decode enc of
        Some k \<Rightarrow> call (key_to_value V k)
      | None \<Rightarrow> ret (v8_undefined V))"

definition value_of :: "('s, 'v) v8 \<Rightarrow> bytes option \<Rightarrow> ('s, 'v) eff" where
  "value_of V val = (case val of Some b \<Rightarrow> deserialize V b | None \<Rightarrow> crash)"

definition row_value :: "('s, 'v) v8 \<Rightarrow> nat \<Rightarrow> row \<Rightarrow> ('s, 'v) eff" where
  "row_value V kind = (\<lambda>(ik, pk, val).
     if kind = 2 then value_of V val
     else if kind = 3 then decode_value V pk
     else and_then (decode_value V ik) (\<lambda>a.
          and_then (decode_value V pk) (\<lambda>b.
          and_then (case val of Some v \<Rightarrow> deserialize V v | None \<Rightarrow> ret (v8_undefined V)) (\<lambda>c.
            call (v8_new_array V [a, b, c])))))"

fun row_values :: "('s, 'v) v8 \<Rightarrow> nat \<Rightarrow> row list \<Rightarrow> 'v list \<Rightarrow> ('s, 'v) eff" where
  "row_values V kind [] out = call (v8_new_array V out)"
| "row_values V kind (r # rs) out =
     and_then (row_value V kind r) (\<lambda>v. row_values V kind rs (out @ [v]))"

definition hits_value :: "('s, 'v) v8 \<Rightarrow> nat \<Rightarrow> hits \<Rightarrow> ('s, 'v) eff" where
  "hits_value V kind h =
     (case h of
        HCount c \<Rightarrow> call (v8_new_number V (f64_of_nat c))
      | HRows rows \<Rightarrow>
          if single_kind kind then
            (case rows of
               [] \<Rightarrow> ret (v8_undefined V)
             | (_, pk, val) # _ \<Rightarrow> if kind = 0 then value_of V val else decode_value V pk)
          else row_values V kind rows [])"

definition read_op ::
  "('s, 'v) v8 \<Rightarrow> db_data \<Rightarrow> string \<Rightarrow> string option \<Rightarrow> key_range \<Rightarrow> nat \<Rightarrow> nat \<Rightarrow> bool \<Rightarrow>
   ('s, dom_error + 'v) eff" where
  "read_op V d store_name index_name r kind limit reverse =
     (case read_hits d store_name index_name r kind limit reverse of
        None \<Rightarrow> crash
      | Some (Inl e) \<Rightarrow> ret (Inl e)
      | Some (Inr h) \<Rightarrow> and_then (hits_value V kind h) (\<lambda>v. ret (Inr v)))"

section \<open>Cursors\<close>

definition nth_opt :: "nat \<Rightarrow> 'a list \<Rightarrow> 'a option" where
  "nth_opt n xs = (if n < length xs then Some (xs ! n) else None)"

definition tighten :: "(bytes bound \<Rightarrow> bytes bound \<Rightarrow> bytes bound) \<Rightarrow> bytes bound \<Rightarrow> bytes bound option \<Rightarrow> bytes bound" where
  "tighten f b x = (case x of None \<Rightarrow> b | Some y \<Rightarrow> f b y)"

definition store_bounds ::
  "key_range \<Rightarrow> bool \<Rightarrow> bytes option \<Rightarrow> bytes option \<Rightarrow> bytes bound \<times> bytes bound" where
  "store_bounds r reverse pos_key target_key =
     (let excl = map_option Excluded pos_key; incl = map_option Included target_key in
      if \<not> reverse
      then (tighten tighter_lower (tighten tighter_lower (r_lower r) excl) incl, r_upper r)
      else (r_lower r, tighten tighter_upper (tighten tighter_upper (r_upper r) excl) incl))"

definition store_cursor_next ::
  "store \<Rightarrow> key_range \<Rightarrow> bool \<Rightarrow> bytes option \<Rightarrow> bytes option \<Rightarrow> nat \<Rightarrow>
   (bytes \<times> bytes) option option" where
  "store_cursor_next s r reverse pos_key target_key skip =
     (let (lower, upper) = store_bounds r reverse pos_key target_key in
      if bounds_empty lower upper then Some None
      else
        (case bt_range lower upper (st_records s) of
           None \<Rightarrow> None
         | Some hits \<Rightarrow>
             let ks = map fst hits; ks = (if reverse then rev ks else ks)
             in Some (map_option (\<lambda>k. (k, k)) (nth_opt skip ks))))"

definition entry_bounds ::
  "key_range \<Rightarrow> bool \<Rightarrow> bool \<Rightarrow> bytes option \<Rightarrow> bytes option \<Rightarrow> bytes option \<Rightarrow> bytes option \<Rightarrow>
   bytes bound \<times> bytes bound" where
  "entry_bounds r reverse unique pos_key pos_primary target_key target_primary =
     (let (lo, hi) = index_bounds r;
          pos = (case (pos_key, pos_primary) of (Some k, Some p) \<Rightarrow> Some (k, k @ p) | _ \<Rightarrow> None)
      in if \<not> reverse then
           (let lo = tighten tighter_lower lo (map_option (\<lambda>(k, e).
                  if unique then Excluded (k @ [0xFF]) else Excluded e) pos);
                lo = tighten tighter_lower lo (map_option (\<lambda>t.
                  Included (case target_primary of None \<Rightarrow> t | Some p \<Rightarrow> t @ p)) target_key)
            in (lo, hi))
         else
           (let hi = tighten tighter_upper hi (map_option (\<lambda>(k, e).
                  if unique then Excluded k else Excluded e) pos);
                hi = tighten tighter_upper hi (map_option (\<lambda>t.
                  case target_primary of
                    Some p \<Rightarrow> Included (t @ p)
                  | None \<Rightarrow> Excluded (t @ [0xFF])) target_key)
            in (lo, hi)))"

text \<open>The loop over the entries: \<open>lk\<close> is the last key seen, for the unique directions.\<close>

fun scan_entries ::
  "bool \<Rightarrow> bool \<Rightarrow> bytes btree_set \<Rightarrow> bytes list \<Rightarrow> nat \<Rightarrow> bytes option \<Rightarrow> (bytes \<times> bytes) option" where
  "scan_entries reverse unique entries [] skip lk = None"
| "scan_entries reverse unique entries (e # es) skip lk =
     (let (k, p) = split_entry e in
      if unique \<and> lk = Some k then scan_entries reverse unique entries es skip lk
      else if 0 < skip then scan_entries reverse unique entries es (skip - 1) (Some k)
      else if unique \<and> reverse then
        Some (k, case filter (\<lambda>e. k \<le> e) entries of [] \<Rightarrow> p | e # _ \<Rightarrow> snd (split_entry e))
      else Some (k, p))"

definition index_cursor_next ::
  "index \<Rightarrow> key_range \<Rightarrow> bool \<Rightarrow> bool \<Rightarrow> bytes option \<Rightarrow> bytes option \<Rightarrow> bytes option \<Rightarrow>
   bytes option \<Rightarrow> nat \<Rightarrow> (bytes \<times> bytes) option option" where
  "index_cursor_next ix r reverse unique pos_key pos_primary target_key target_primary skip =
     (let (lo, hi) = entry_bounds r reverse unique pos_key pos_primary target_key target_primary in
      if bounds_empty lo hi then Some None
      else
        (case bs_range lo hi (ix_entries ix) of
           None \<Rightarrow> None
         | Some hits \<Rightarrow>
             Some (scan_entries reverse unique (ix_entries ix)
               (if reverse then rev hits else hits) skip None)))"

definition cursor_next ::
  "store \<Rightarrow> index option \<Rightarrow> key_range \<Rightarrow> int \<Rightarrow> bytes option \<Rightarrow> bytes option \<Rightarrow> bytes option \<Rightarrow>
   bytes option \<Rightarrow> nat \<Rightarrow> (bytes \<times> bytes) option option" where
  "cursor_next s ix r dir pos_key pos_primary target_key target_primary skip =
     (let reverse = (2 \<le> dir); unique = (dir = 1 \<or> dir = 3) in
      case ix of
        None \<Rightarrow> store_cursor_next s r reverse pos_key target_key skip
      | Some ix \<Rightarrow>
          index_cursor_next ix r reverse unique pos_key pos_primary target_key target_primary skip)"

text \<open>
  The prefetch loop: \<open>count\<close> calls at most, the target and the skip count for the first only.
\<close>

fun cursor_rows ::
  "store \<Rightarrow> index option \<Rightarrow> key_range \<Rightarrow> int \<Rightarrow> bool \<Rightarrow> nat \<Rightarrow> bytes option \<Rightarrow> bytes option \<Rightarrow>
   bytes option \<Rightarrow> bytes option \<Rightarrow> nat \<Rightarrow> row list option" where
  "cursor_rows s ix r dir vals 0 pk pp tk tp skip = Some []"
| "cursor_rows s ix r dir vals (Suc count) pk pp tk tp skip =
     (case cursor_next s ix r dir pk pp tk tp skip of
        None \<Rightarrow> None
      | Some None \<Rightarrow> Some []
      | Some (Some (k, p)) \<Rightarrow>
          map_option (\<lambda>rows.
              (k, p, if vals then map_option rec_value (bt_get (st_records s) p) else None) # rows)
            (cursor_rows s ix r dir vals count (Some k) (Some p) None None 0))"

definition clamp_count :: "nat \<Rightarrow> nat" where
  "clamp_count c = max 1 (min 1024 c)"

text \<open>A missing store or index gives \<open>null\<close>, the inner \<open>None\<close>.\<close>

definition cursor ::
  "db_data \<Rightarrow> string \<Rightarrow> string option \<Rightarrow> key_range \<Rightarrow> int \<Rightarrow> bytes option \<Rightarrow> bytes option \<Rightarrow>
   bytes option \<Rightarrow> bytes option \<Rightarrow> nat \<Rightarrow> bool \<Rightarrow> nat \<Rightarrow> row list option option" where
  "cursor d store_name index_name r dir pk pp tk tp skip vals count =
     (case find_store store_name d of
        None \<Rightarrow> Some None
      | Some s \<Rightarrow>
          (case index_name of
             None \<Rightarrow> map_option Some (cursor_rows s None r dir vals (clamp_count count) pk pp tk tp skip)
           | Some iname \<Rightarrow>
               (case find_index iname s of
                  None \<Rightarrow> Some None
                | Some ix \<Rightarrow> map_option Some
                    (cursor_rows s (Some ix) r dir vals (clamp_count count) pk pp tk tp skip))))"

section \<open>Comparing and copying keys\<close>

definition idb_cmp :: "('s, 'v) v8 \<Rightarrow> nat \<Rightarrow> 'v \<Rightarrow> 'v \<Rightarrow> ('s, dom_error + int) eff" where
  "idb_cmp V n a b =
     and_then (to_key V n a) (\<lambda>ka. and_then (to_key V n b) (\<lambda>kb.
       ret (case (ka, kb) of
              (Some x, Some y) \<Rightarrow>
                Inr (if encode x < encode y then -1 else if encode x = encode y then 0 else 1)
            | _ \<Rightarrow> Inl (data_error ''The parameter is not a valid key.''))))"

definition key_copy :: "('s, 'v) v8 \<Rightarrow> nat \<Rightarrow> 'v \<Rightarrow> ('s, dom_error + 'v) eff" where
  "key_copy V n v =
     and_then (to_key V n v) (\<lambda>k.
       case k of
         Some k \<Rightarrow> and_then (call (key_to_value V k)) (\<lambda>v. ret (Inr v))
       | None \<Rightarrow> ret (Inl (data_error ''The parameter is not a valid key.'')))"

definition clone_value :: "('s, 'v) v8 \<Rightarrow> 'v \<Rightarrow> ('s, dom_error + 'v) eff" where
  "clone_value V v =
     and_then (serialize V v) (\<lambda>r.
       case r of
         Inr b \<Rightarrow> and_then (deserialize V b) (\<lambda>v. ret (Inr v))
       | Inl msg \<Rightarrow> ret (Inl (''DataCloneError'', msg)))"

definition key_of :: "('s, 'v) v8 \<Rightarrow> nat \<Rightarrow> 'v \<Rightarrow> 'v \<Rightarrow> ('s, dom_error + 'v) eff" where
  "key_of V n kp v =
     and_then (key_path_from_value V kp) (\<lambda>path.
     and_then (key_at_path V n v path) (\<lambda>r.
       case r of
         Inr (Some k) \<Rightarrow> and_then (call (key_to_value V k)) (\<lambda>w. ret (Inr w))
       | Inr None \<Rightarrow> ret (Inr (v8_undefined V))
       | Inl _ \<Rightarrow> ret (Inl (data_error ''The parameter is not a valid key.''))))"

section \<open>Bounds\<close>

lemma above_tighter: "above (tighter_lower a b) k \<longleftrightarrow> above a k \<and> above b k"
  by (cases a; cases b) auto

lemma below_tighter: "below (tighter_upper a b) k \<longleftrightarrow> below a k \<and> below b k"
  by (cases a; cases b) auto

lemma bounds_empty_none: "bounds_empty lo hi \<Longrightarrow> \<not> (above lo k \<and> below hi k)"
  by (cases lo; cases hi) auto

lemma range_panics_empty: "range_panics lo hi \<Longrightarrow> bounds_empty lo hi"
  by (cases lo; cases hi) auto

fun bound_ok :: "bytes bound \<Rightarrow> bool" where
  "bound_ok Unbounded = True"
| "bound_ok (Included b) = is_enc b"
| "bound_ok (Excluded b) = is_enc b"

definition range_ok :: "key_range \<Rightarrow> bool" where
  "range_ok r \<longleftrightarrow> bound_ok (r_lower r) \<and> bound_ok (r_upper r)"

definition in_range :: "key_range \<Rightarrow> bytes \<Rightarrow> bool" where
  "in_range r k \<longleftrightarrow> above (r_lower r) k \<and> below (r_upper r) k"

lemma not_enc_FF: "\<not> is_enc [0xFF]"
  using is_enc_less_FF [of "[0xFF]" "[]"] by auto

lemma above_index_lower:
  assumes "bound_ok b" "is_enc ik" "is_enc pk"
  shows "above (index_lower b) (ik @ pk) \<longleftrightarrow> above b ik"
proof (cases b)
  case (Excluded k)
  with assms have k: "is_enc k"
    by simp
  have "ik @ pk \<noteq> k @ [0xFF]"
    using is_enc_append_inj [OF assms(2) k] assms(3) not_enc_FF by auto
  with entry_range(3) [OF k assms(2,3)] Excluded show ?thesis
    by (auto simp: not_less order_le_less)
qed (use assms entry_range(1) in auto)

lemma below_index_upper:
  assumes "bound_ok b" "is_enc ik" "is_enc pk"
  shows "below (index_upper b) (ik @ pk) \<longleftrightarrow> below b ik"
  using assms entry_range(2,3) by (cases b) auto

text \<open>
  \<open>index_bounds\<close> selects the entries whose index key is in the range.
\<close>

lemma index_bounds_exact:
  assumes "range_ok r" "is_enc ik" "is_enc pk" "index_bounds r = (lo, hi)"
  shows "above lo (ik @ pk) \<and> below hi (ik @ pk) \<longleftrightarrow> in_range r ik"
  using assms above_index_lower below_index_upper
  by (auto simp: index_bounds_def range_ok_def in_range_def)

text \<open>The ranges the page can build: not inverted, and closed when both ends are one key.\<close>

fun bounds_valid :: "bytes bound \<Rightarrow> bytes bound \<Rightarrow> bool" where
  "bounds_valid (Included a) (Included b) = (a \<le> b)"
| "bounds_valid (Included a) (Excluded b) = (a < b)"
| "bounds_valid (Excluded a) (Included b) = (a < b)"
| "bounds_valid (Excluded a) (Excluded b) = (a < b)"
| "bounds_valid _ _ = True"

lemma valid_no_panic: "bounds_valid lo hi \<Longrightarrow> \<not> range_panics lo hi"
  by (cases lo; cases hi) auto

lemma valid_index_no_panic:
  assumes "bounds_valid lo hi" "bound_ok lo" "bound_ok hi"
  shows "\<not> range_panics (index_lower lo) (index_upper hi)"
proof (cases lo)
  case lo: (Excluded a)
  show ?thesis
  proof (cases hi)
    case (Included b)
    with assms lo have ab: "a < b" "is_enc a" "is_enc b"
      by auto
    then obtain x y where "a = encode x" "b = encode y"
      by (auto simp: is_enc_def)
    with ab have "a @ [0xFF] < b @ [0xFF]"
      using encode_less(1) [of x "[0xFF]" y "[0xFF]"] encode_less(1) [of x "[]" y "[]"] by simp
    with lo Included show ?thesis
      by simp
  next
    case (Excluded b)
    with assms lo have ab: "a < b" "is_enc a" "is_enc b"
      by auto
    then obtain x y where "a = encode x" "b = encode y"
      by (auto simp: is_enc_def)
    with ab have "a @ [0xFF] < b"
      using encode_less(1) [of x "[0xFF]" y "[]"] encode_less(1) [of x "[]" y "[]"] by simp
    with lo Excluded show ?thesis
      by simp
  qed simp
next
  case (Included a)
  with assms show ?thesis
    using le_append_self by (cases hi) (auto simp: not_less intro: order_trans)
qed simp

section \<open>Reads find the records of the range\<close>

definition entries_in :: "key_range \<Rightarrow> bytes btree_set \<Rightarrow> bytes list" where
  "entries_in r es = filter (\<lambda>e. in_range r (fst (split_entry e))) es"

lemma entry_parts:
  assumes s: "store_ok N s" and ix: "ix \<in> set (st_indexes s)" and e: "e \<in> set (ix_entries ix)"
  obtains ik pk rc ks where "e = ik @ pk" "is_enc ik" "is_enc pk" "split_entry e = (ik, pk)"
    "bt_get (st_records s) pk = Some rc" "(ix_id ix, ks) \<in> set (rec_ikeys rc)" "ik \<in> set ks"
proof -
  have "e \<in> entries_of (ix_id ix) (st_records s)"
    using index_facts(2) [OF s ix] e by simp
  then obtain pk rc where rc: "bt_get (st_records s) pk = Some rc"
    and el: "e \<in> set (entry_list (ix_id ix) pk rc)"
    by (auto simp: entries_of_get [OF store_ok_bt [OF s]])
  then obtain ks ik where ks: "(ix_id ix, ks) \<in> set (rec_ikeys rc)" "ik \<in> set ks" "e = ik @ pk"
    by (auto simp: entry_list_def split: if_splits)
  moreover have "is_enc pk \<and> record_ok N rc"
    by (rule stored_record_ok [OF s rc])
  moreover from this ks have "is_enc ik"
    by (auto simp: record_ok_def enc_list_def)
  ultimately show thesis
    using rc by (intro that [of ik pk rc ks]) auto
qed

lemma index_range:
  assumes "range_ok r" "store_ok N s" "ix \<in> set (st_indexes s)" "index_bounds r = (lo, hi)"
  shows "filter (\<lambda>e. above lo e \<and> below hi e) (ix_entries ix) = entries_in r (ix_entries ix)"
  unfolding entries_in_def
proof (rule filter_cong [OF refl])
  fix e assume "e \<in> set (ix_entries ix)"
  then obtain ik pk where "e = ik @ pk" "is_enc ik" "is_enc pk" "split_entry e = (ik, pk)"
    by (rule entry_parts [OF assms(2,3)])
  then show "above lo e \<and> below hi e \<longleftrightarrow> in_range r (fst (split_entry e))"
    using index_bounds_exact [OF assms(1) _ _ assms(4)] by simp
qed

lemma bs_range_index:
  assumes "range_ok r" "store_ok N s" "ix \<in> set (st_indexes s)"
    and "bounds_valid (r_lower r) (r_upper r)"
  shows "bs_range (fst (index_bounds r)) (snd (index_bounds r)) (ix_entries ix) =
    Some (entries_in r (ix_entries ix))"
  using assms index_range [OF assms(1-3), of "fst (index_bounds r)" "snd (index_bounds r)"]
    valid_index_no_panic [OF assms(4)]
  by (simp add: bs_range_def index_bounds_def range_ok_def)

lemma index_hits_valid:
  assumes "range_ok r" "store_ok N s" "ix \<in> set (st_indexes s)"
    and "bounds_valid (r_lower r) (r_upper r)"
  shows "index_hits s ix r kind limit reverse =
    Some (if kind = 4 then HCount (length (entries_in r (ix_entries ix)))
          else HRows (map (index_row (need_value kind) s)
            (taken reverse (want_of kind limit) (entries_in r (ix_entries ix)))))"
  using bs_range_index [OF assms] by (cases "index_bounds r") (simp add: index_hits_def)

lemma find_index_in: "find_index name s = Some ix \<Longrightarrow> ix \<in> set (st_indexes s)"
  by (auto simp: find_index_def dest: find_Some_in)

definition record_in_index :: "store \<Rightarrow> index \<Rightarrow> bytes \<Rightarrow> bytes \<Rightarrow> idb_record \<Rightarrow> bool" where
  "record_in_index s ix ik pk rc \<longleftrightarrow>
     bt_get (st_records s) pk = Some rc \<and> (\<exists>ks. (ix_id ix, ks) \<in> set (rec_ikeys rc) \<and> ik \<in> set ks)"

lemma record_in_index_iff:
  assumes s: "store_ok N s" and ix: "ix \<in> set (st_indexes s)"
  shows "record_in_index s ix ik pk rc \<longleftrightarrow>
    ik @ pk \<in> set (ix_entries ix) \<and> split_entry (ik @ pk) = (ik, pk) \<and> bt_get (st_records s) pk = Some rc"
proof
  assume r: "record_in_index s ix ik pk rc"
  then obtain ks where ks: "(ix_id ix, ks) \<in> set (rec_ikeys rc)" "ik \<in> set ks"
    and rc: "bt_get (st_records s) pk = Some rc"
    by (auto simp: record_in_index_def)
  have "is_enc ik"
    using stored_record_ok [OF s rc] ks by (auto simp: record_ok_def enc_list_def)
  moreover have "ik @ pk \<in> set (entry_list (ix_id ix) pk rc)"
    using ks by (force simp: entry_list_def)
  ultimately show "ik @ pk \<in> set (ix_entries ix) \<and> split_entry (ik @ pk) = (ik, pk) \<and>
      bt_get (st_records s) pk = Some rc"
    using rc index_facts(2) [OF s ix] entries_of_get [OF store_ok_bt [OF s]] by auto
next
  assume a: "ik @ pk \<in> set (ix_entries ix) \<and> split_entry (ik @ pk) = (ik, pk) \<and>
      bt_get (st_records s) pk = Some rc"
  then obtain ik' pk' rc' ks where "ik @ pk = ik' @ pk'" "split_entry (ik @ pk) = (ik', pk')"
    "bt_get (st_records s) pk' = Some rc'" "(ix_id ix, ks) \<in> set (rec_ikeys rc')" "ik' \<in> set ks"
    by (metis entry_parts [OF s ix])
  with a show "record_in_index s ix ik pk rc"
    by (auto simp: record_in_index_def)
qed

text \<open>
  Claim C6. A read of an index over a range of keys returns, in order of index key and
  then primary key, exactly one row for every record and every index key of the record that
  lies in the range, with the record's value; the count is the number of these rows.
\<close>

theorem index_read_is_complete:
  assumes "db_ok d" and "find_store name d = Some s" and "find_index iname s = Some ix"
    and "range_ok r" and "bounds_valid (r_lower r) (r_upper r)"
  shows "\<exists>rows. read_hits d name (Some iname) r 5 0 False = Some (Inr (HRows rows)) \<and>
    set rows = {(ik, pk, Some (rec_value rc)) | ik pk rc.
      record_in_index s ix ik pk rc \<and> in_range r ik} \<and>
    sorted_wrt (<) (map (\<lambda>(ik, pk, _). ik @ pk) rows) \<and>
    read_hits d name (Some iname) r 4 0 False = Some (Inr (HCount (length rows)))"
proof -
  have s: "store_ok (db_next_id d) s"
    using assms(1,2) by (auto intro: store_in_db dest: find_store_in)
  note ix = find_index_in [OF assms(3)]
  let ?es = "entries_in r (ix_entries ix)"
  let ?rows = "map (index_row True s) ?es"
  have row: "\<exists>ik pk rc. e = ik @ pk \<and> index_row True s e = (ik, pk, Some (rec_value rc)) \<and>
      record_in_index s ix ik pk rc \<and> fst (split_entry e) = ik"
    if "e \<in> set (ix_entries ix)" for e
    using that
  proof (rule entry_parts [OF s ix])
    fix ik pk rc ks
    assume "e = ik @ pk" "split_entry e = (ik, pk)" "bt_get (st_records s) pk = Some rc"
      "(ix_id ix, ks) \<in> set (rec_ikeys rc)" "ik \<in> set ks"
    then show ?thesis
      by (intro exI [of _ ik] exI [of _ pk] exI [of _ rc]) (auto simp: index_row_def record_in_index_def)
  qed
  have "set ?rows = {(ik, pk, Some (rec_value rc)) | ik pk rc.
      record_in_index s ix ik pk rc \<and> in_range r ik}" (is "_ = ?spec")
  proof (intro set_eqI iffI)
    fix x assume "x \<in> set ?rows"
    then obtain e where e: "e \<in> set (ix_entries ix)" "in_range r (fst (split_entry e))"
      "x = index_row True s e"
      by (auto simp: entries_in_def)
    with row [OF e(1)] show "x \<in> ?spec"
      by auto
  next
    fix x assume "x \<in> ?spec"
    then obtain ik pk rc where x: "x = (ik, pk, Some (rec_value rc))"
      and rc: "record_in_index s ix ik pk rc" and "in_range r ik"
      by blast
    with record_in_index_iff [OF s ix] have "ik @ pk \<in> set ?es" "index_row True s (ik @ pk) = x"
      by (auto simp: entries_in_def index_row_def)
    then show "x \<in> set ?rows"
      by force
  qed
  moreover have "map (\<lambda>(ik, pk, _). ik @ pk) ?rows = ?es"
    using row by (fastforce simp: entries_in_def intro!: map_idI)
  then have "sorted_wrt (<) (map (\<lambda>(ik, pk, _). ik @ pk) ?rows)"
    using index_facts(1) [OF s ix] by (simp add: entries_in_def bs_ok_def sorted_wrt_filter)
  moreover have "read_hits d name (Some iname) r 5 0 False = Some (Inr (HRows ?rows))"
    using assms(2,3) index_hits_valid [OF assms(4) s ix assms(5)]
    by (simp add: read_hits_def need_value_def want_of_def single_kind_def taken_def)
  moreover have "read_hits d name (Some iname) r 4 0 False = Some (Inr (HCount (length ?rows)))"
    using assms(2,3) index_hits_valid [OF assms(4) s ix assms(5)] by (simp add: read_hits_def)
  ultimately show ?thesis
    by blast
qed

text \<open>The data of the witnesses: one record, whose index key is the string \<open>9\<close>.\<close>

definition demo_range :: key_range where
  "demo_range = \<lparr>r_lower = Included (encode (KStr [9])), r_upper = Included (encode (KStr [9]))\<rparr>"

definition demo_found :: bool where
  "demo_found =
     (case find_store ''s'' (fst demo_one) of
        None \<Rightarrow> False
      | Some s \<Rightarrow> (case find_index ''i'' s of None \<Rightarrow> False | Some _ \<Rightarrow> True))"

definition demo_hits :: "nat \<Rightarrow> nat" where
  "demo_hits kind =
     (case read_hits (fst demo_one) ''s'' (Some ''i'') demo_range kind 0 False of
        Some (Inr (HRows rows)) \<Rightarrow> length rows
      | Some (Inr (HCount n)) \<Rightarrow> n
      | _ \<Rightarrow> 0)"

lemma demo_store:
  obtains s ix where "find_store ''s'' (fst demo_one) = Some s" "find_index ''i'' s = Some ix"
proof -
  have demo_found
    by code_simp
  then show thesis
    using that by (auto simp: demo_found_def split: option.splits)
qed

lemma demo_one_ok: "db_ok (fst demo_one)"
proof -
  have "store_put demo_v8 3 ''s'' (demo_put 7 9) False (demo_db, []) () =
      Some (demo_store_put 7 9 False (demo_db, []), ())"
    by (rule demo_store_put_eq [OF demo_puts(1)])
  then have "store_put demo_v8 3 ''s'' (demo_put 7 9) False (demo_db, []) () =
      Some ((fst (demo_store_put 7 9 False (demo_db, [])), (fst demo_one, snd demo_one)), ())"
    by (simp add: demo_one_def)
  from extends_ok [OF extends_store_put [OF _ this]] show ?thesis
    using demo_db_ok by simp
qed

lemma demo_range_ok: "range_ok demo_range" "bounds_valid (r_lower demo_range) (r_upper demo_range)"
  using is_enc_encode [of "KStr [9]"] by (simp_all add: demo_range_def range_ok_def)

theorem index_read_is_complete_witness:
  "\<exists>rows. read_hits (fst demo_one) ''s'' (Some ''i'') demo_range 5 0 False = Some (Inr (HRows rows)) \<and>
     read_hits (fst demo_one) ''s'' (Some ''i'') demo_range 4 0 False = Some (Inr (HCount (length rows))) \<and>
     length rows = 1"
proof -
  obtain s ix where "find_store ''s'' (fst demo_one) = Some s" "find_index ''i'' s = Some ix"
    by (rule demo_store)
  from index_read_is_complete [OF demo_one_ok this demo_range_ok]
  obtain rows where rows: "read_hits (fst demo_one) ''s'' (Some ''i'') demo_range 5 0 False = Some (Inr (HRows rows))"
    "read_hits (fst demo_one) ''s'' (Some ''i'') demo_range 4 0 False = Some (Inr (HCount (length rows)))"
    by blast
  have "demo_hits 5 = 1"
    by code_simp
  with rows show ?thesis
    by (simp add: demo_hits_def)
qed

section \<open>Cursors\<close>

lemma cursor_next_returns: "cursor_next s ix r dir pk pp tk tp skip \<noteq> None"
  using range_panics_empty
  by (fastforce simp: cursor_next_def store_cursor_next_def index_cursor_next_def Let_def
      bt_range_def bs_range_def split: option.splits prod.splits)

lemma cursor_rows_returns: "cursor_rows s ix r dir vals count pk pp tk tp skip \<noteq> None"
  using cursor_next_returns
  by (induction count arbitrary: pk pp tk tp skip) (auto split: option.splits)

text \<open>
  Claim C7. A cursor call always returns: whatever the range, the position, the target and
  the counts, no range query of the containers panics, and at most 1024 rows come back.
\<close>

theorem cursor_never_panics:
  "\<exists>res. cursor d store_name index_name r dir pk pp tk tp skip vals count = Some res \<and>
     (case res of None \<Rightarrow> True | Some rows \<Rightarrow> length rows \<le> 1024)"
proof -
  have len: "length rows \<le> n" if "cursor_rows s ix r dir vals n pk pp tk tp skip = Some rows"
    for s ix n pk pp tk tp skip rows
    using that
    by (induction n arbitrary: pk pp tk tp skip rows) (auto split: option.splits)
  have "clamp_count count \<le> 1024"
    by (simp add: clamp_count_def)
  then have rows: "\<exists>rows. cursor_rows s ix r dir vals (clamp_count count) pk pp tk tp skip = Some rows \<and>
      length rows \<le> 1024" for s ix
    using cursor_rows_returns [of s ix] len by (meson not_Some_eq order_trans)
  show ?thesis
  proof (cases "find_store store_name d")
    case (Some s)
    then show ?thesis
      using rows [of s None] rows [of s "find_index (the index_name) s"]
      by (cases index_name; cases "find_index (the index_name) s") (auto simp: cursor_def)
  qed (simp add: cursor_def)
qed

text \<open>
  The rows of a cursor that reads through a list: \<open>rest\<close> is what is left of the list after
  a position.
\<close>

definition rows_of :: "store \<Rightarrow> bool \<Rightarrow> bytes \<times> bytes \<Rightarrow> row" where
  "rows_of s vals = (\<lambda>(k, p). (k, p, if vals then map_option rec_value (bt_get (st_records s) p) else None))"

definition hd_opt :: "'a list \<Rightarrow> 'a option" where
  "hd_opt xs = (case xs of [] \<Rightarrow> None | x # _ \<Rightarrow> Some x)"

lemma hd_opt_simps [simp]: "hd_opt [] = None" "hd_opt (x # xs) = Some x"
  by (simp_all add: hd_opt_def)

lemma nth_opt_0: "nth_opt 0 xs = hd_opt xs"
  by (cases xs) (simp_all add: nth_opt_def)

lemma cursor_rows_list:
  assumes step: "\<And>pos. P pos \<Longrightarrow>
      cursor_next s ix r dir (map_option fst pos) (map_option snd pos) None None 0 =
        Some (map_option kp (hd_opt (rest pos)))"
    and move: "\<And>pos e es. P pos \<Longrightarrow> rest pos = e # es \<Longrightarrow> P (Some (kp e)) \<and> rest (Some (kp e)) = es"
  shows "P pos \<Longrightarrow> cursor_rows s ix r dir vals n (map_option fst pos) (map_option snd pos) None None 0 =
    Some (map (rows_of s vals \<circ> kp) (take n (rest pos)))"
proof (induction n arbitrary: pos)
  case (Suc n)
  show ?case
  proof (cases "rest pos")
    case Nil
    with step [OF Suc.prems] show ?thesis
      by simp
  next
    case (Cons e es)
    obtain k p where kp: "kp e = (k, p)"
      by (cases "kp e")
    from move [OF Suc.prems Cons] have "P (Some (k, p))" "rest (Some (k, p)) = es"
      by (simp_all add: kp)
    with Suc.IH [of "Some (k, p)"] step [OF Suc.prems] Cons kp show ?thesis
      by (simp add: rows_of_def)
  qed
qed simp

text \<open>What is left of a list, strictly ordered by \<open>R\<close>, after an element.\<close>

definition after :: "('a \<Rightarrow> 'a \<Rightarrow> bool) \<Rightarrow> 'a list \<Rightarrow> 'a option \<Rightarrow> 'a list" where
  "after R xs pos = filter (\<lambda>x. case pos of None \<Rightarrow> True | Some p \<Rightarrow> R p x) xs"

lemma after_step:
  assumes "sorted_wrt R xs" and trans: "\<And>a b c. R a b \<Longrightarrow> R b c \<Longrightarrow> R a c" and irrefl: "\<And>a. \<not> R a a"
    and "after R xs pos = e # es"
  shows "after R xs (Some e) = es"
  using assms(1,4)
proof (induction xs arbitrary: e es)
  case (Cons x xs)
  show ?case
  proof (cases "case pos of None \<Rightarrow> True | Some p \<Rightarrow> R p x")
    case True
    with Cons.prems(2) have "e = x" "es = after R xs pos"
      by (auto simp: after_def)
    moreover have "after R xs (Some x) = xs" "after R xs pos = xs"
      using Cons.prems(1) True trans
      by (auto simp: after_def filter_id_conv split: option.splits)
    ultimately show ?thesis
      using irrefl by (simp add: after_def)
  next
    case False
    then have rest: "after R xs pos = e # es"
      using Cons.prems(2) by (simp add: after_def)
    then have "e \<in> set (after R xs pos)"
      by simp
    then have "e \<in> set xs"
      by (simp add: after_def)
    moreover have "after R xs (Some e) = es"
      using Cons.IH [OF _ rest] Cons.prems(1) by simp
    moreover have "\<not> R e x"
      using Cons.prems(1) \<open>e \<in> set xs\<close> trans irrefl by (metis sorted_wrt.simps(2))
    ultimately show ?thesis
      by (simp add: after_def)
  qed
qed (simp add: after_def)

text \<open>The order in which a cursor goes through keys or entries.\<close>

definition cursor_order :: "bool \<Rightarrow> bytes \<Rightarrow> bytes \<Rightarrow> bool" where
  "cursor_order reverse a b = (if reverse then b < a else a < b)"

lemma cursor_order_trans: "cursor_order rv a b \<Longrightarrow> cursor_order rv b c \<Longrightarrow> cursor_order rv a c"
  by (auto simp: cursor_order_def split: if_splits)

lemma cursor_order_irrefl: "\<not> cursor_order rv a a"
  by (simp add: cursor_order_def)

lemma sorted_cursor_order:
  "bs_ok xs \<Longrightarrow> sorted_wrt (cursor_order rv) (taken rv None xs)"
  by (auto simp: taken_def cursor_order_def [abs_def] bs_ok_def sorted_wrt_rev)

lemma after_cursor:
  "after (cursor_order rv) (taken rv None xs) (Some p) =
    taken rv None (filter (\<lambda>x. if rv then x < p else p < x) xs)"
  by (auto simp: after_def taken_def cursor_order_def rev_filter)

lemma after_None [simp]: "after R xs None = xs"
  by (simp add: after_def)

lemma after_cursor_filter:
  "after (cursor_order rv) (taken rv None xs) pos =
    taken rv None (filter (\<lambda>x. case pos of None \<Rightarrow> True | Some p \<Rightarrow> cursor_order rv p x) xs)"
  by (auto simp: after_def taken_def rev_filter)

lemma after_cursor_step:
  "bs_ok xs \<Longrightarrow> after (cursor_order rv) (taken rv None xs) pos = e # es \<Longrightarrow>
    after (cursor_order rv) (taken rv None xs) (Some e) = es"
  by (rule after_step [OF sorted_cursor_order cursor_order_trans cursor_order_irrefl]) auto

lemma keys_filter: "map fst (filter (\<lambda>(k, _). P k) m) = filter P (map fst m)"
  by (induction m) auto

lemma hd_opt_map: "hd_opt (map f xs) = map_option f (hd_opt xs)"
  by (cases xs) auto

text \<open>One step of a store cursor, and of an index cursor, from a position.\<close>

lemma store_bounds_filter:
  assumes "store_bounds r rv pos None = (lo, hi)"
  shows "filter (\<lambda>k. above lo k \<and> below hi k) ks =
    filter (\<lambda>k. case pos of None \<Rightarrow> True | Some p \<Rightarrow> cursor_order rv p k) (filter (in_range r) ks)"
  using assms
  by (cases pos; cases rv)
    (auto simp: store_bounds_def Let_def tighten_def above_tighter below_tighter in_range_def cursor_order_def
      intro!: filter_cong)

lemma store_cursor_step:
  "store_cursor_next s r rv pos None 0 =
    Some (map_option (\<lambda>k. (k, k))
      (hd_opt (after (cursor_order rv) (taken rv None (filter (in_range r) (map fst (st_records s)))) pos)))"
proof -
  obtain lo hi where b: "store_bounds r rv pos None = (lo, hi)"
    by (cases "store_bounds r rv pos None")
  note f = store_bounds_filter [OF b, of "map fst (st_records s)"]
  show ?thesis
  proof (cases "bounds_empty lo hi")
    case True
    then have "filter (\<lambda>k. above lo k \<and> below hi k) (map fst (st_records s)) = []"
      using bounds_empty_none by (metis (mono_tags, lifting) filter_False)
    then show ?thesis
      using b True unfolding after_cursor_filter f [symmetric] by (simp add: store_cursor_next_def taken_def)
  next
    case False
    then show ?thesis
      using b range_panics_empty [of lo hi] unfolding after_cursor_filter f [symmetric]
      by (auto simp: store_cursor_next_def bt_range_def keys_filter [of "\<lambda>k. above lo k \<and> below hi k"]
          taken_def nth_opt_0)
  qed
qed

lemma entry_bounds_filter:
  assumes "range_ok r" "store_ok N s" "ix \<in> set (st_indexes s)"
    and "entry_bounds r rv False (map_option fst pos) (map_option snd pos) None None = (lo, hi)"
  shows "filter (\<lambda>e. above lo e \<and> below hi e) (ix_entries ix) =
    filter (\<lambda>e. case map_option (\<lambda>(k, p). k @ p) pos of None \<Rightarrow> True | Some p \<Rightarrow> cursor_order rv p e)
      (entries_in r (ix_entries ix))"
proof -
  obtain l h where lh: "index_bounds r = (l, h)"
    by (cases "index_bounds r")
  show ?thesis
    using assms(4) lh
    by (cases pos; cases rv)
      (auto simp: index_range [OF assms(1-3) lh, symmetric] entry_bounds_def Let_def tighten_def
        above_tighter below_tighter cursor_order_def intro!: filter_cong)
qed

lemma scan_entries_hd: "scan_entries rv False es xs 0 None = map_option split_entry (hd_opt xs)"
  by (cases xs) (auto split: prod.splits)

lemma index_cursor_step:
  assumes "range_ok r" "store_ok N s" "ix \<in> set (st_indexes s)"
  shows "index_cursor_next ix r rv False (map_option fst pos) (map_option snd pos) None None 0 =
    Some (map_option split_entry (hd_opt (after (cursor_order rv)
      (taken rv None (entries_in r (ix_entries ix))) (map_option (\<lambda>(k, p). k @ p) pos))))"
proof -
  obtain lo hi where b: "entry_bounds r rv False (map_option fst pos) (map_option snd pos) None None = (lo, hi)"
    by fastforce
  note f = entry_bounds_filter [OF assms b]
  show ?thesis
  proof (cases "bounds_empty lo hi")
    case True
    then have "filter (\<lambda>e. above lo e \<and> below hi e) (ix_entries ix) = []"
      using bounds_empty_none by (metis (mono_tags, lifting) filter_False)
    then show ?thesis
      using b True unfolding after_cursor_filter f [symmetric] by (simp add: index_cursor_next_def taken_def)
  next
    case False
    then show ?thesis
      using b range_panics_empty [of lo hi] unfolding after_cursor_filter f [symmetric]
      by (auto simp: index_cursor_next_def bs_range_def taken_def scan_entries_hd)
  qed
qed

lemma entries_in_ok: "bs_ok es \<Longrightarrow> bs_ok (entries_in r es)"
  by (simp add: entries_in_def bs_ok_def sorted_wrt_filter)

lemma store_cursor_list:
  assumes "store_ok N s"
  shows "cursor_rows s None r (if rv then 2 else 0) True n None None None None 0 =
    Some (map (\<lambda>k. (k, k, map_option rec_value (bt_get (st_records s) k)))
      (take n (taken rv None (filter (in_range r) (map fst (st_records s))))))"
proof -
  let ?xs = "filter (in_range r) (map fst (st_records s))"
  let ?rest = "\<lambda>pos. after (cursor_order rv) (taken rv None ?xs) (map_option fst pos)"
  let ?none = "None :: (bytes \<times> bytes) option"
  have ok: "bs_ok ?xs"
    using store_ok_bt [OF assms] by (simp add: bs_ok_def bt_ok_def sorted_wrt_filter)
  have "cursor_rows s None r (if rv then 2 else 0) True n (map_option fst ?none) (map_option snd ?none) None None 0 =
      Some (map (rows_of s True \<circ> (\<lambda>k. (k, k))) (take n (?rest ?none)))"
  proof (rule cursor_rows_list [where P = "\<lambda>_. True" and rest = ?rest])
    fix pos :: "(bytes \<times> bytes) option"
    show "cursor_next s None r (if rv then 2 else 0) (map_option fst pos) (map_option snd pos) None None 0 =
        Some (map_option (\<lambda>k. (k, k)) (hd_opt (?rest pos)))"
      using store_cursor_step by (simp add: cursor_next_def)
  next
    fix pos :: "(bytes \<times> bytes) option" and e es
    assume "?rest pos = e # es"
    then show "True \<and> ?rest (Some (e, e)) = es"
      using after_cursor_step [OF ok] by simp
  qed simp
  then show ?thesis
    by (simp add: rows_of_def comp_def)
qed

lemma index_cursor_list:
  assumes r: "range_ok r" and s: "store_ok N s" and ix: "ix \<in> set (st_indexes s)"
  shows "cursor_rows s (Some ix) r (if rv then 2 else 0) True n None None None None 0 =
    Some (map (index_row True s) (take n (taken rv None (entries_in r (ix_entries ix)))))"
proof -
  let ?xs = "entries_in r (ix_entries ix)"
  let ?rest = "\<lambda>pos. after (cursor_order rv) (taken rv None ?xs) (map_option (\<lambda>(k, p). k @ p) pos)"
  let ?none = "None :: (bytes \<times> bytes) option"
  have ok: "bs_ok ?xs"
    using index_facts(1) [OF s ix] by (rule entries_in_ok)
  have "cursor_rows s (Some ix) r (if rv then 2 else 0) True n (map_option fst ?none) (map_option snd ?none) None None 0 =
      Some (map (rows_of s True \<circ> split_entry) (take n (?rest ?none)))"
  proof (rule cursor_rows_list [where P = "\<lambda>_. True" and rest = ?rest])
    fix pos :: "(bytes \<times> bytes) option"
    show "cursor_next s (Some ix) r (if rv then 2 else 0) (map_option fst pos) (map_option snd pos) None None 0 =
        Some (map_option split_entry (hd_opt (?rest pos)))"
      using index_cursor_step [OF r s ix] by (simp add: cursor_next_def)
  next
    fix pos :: "(bytes \<times> bytes) option" and e es
    assume l: "?rest pos = e # es"
    then have "e \<in> set (?rest pos)"
      by simp
    then have "e \<in> set (ix_entries ix)"
      by (auto simp: after_def taken_def entries_in_def split: if_splits)
    then obtain k p where "e = k @ p" "split_entry e = (k, p)"
      by (rule entry_parts [OF s ix])
    with l show "True \<and> ?rest (Some (split_entry e)) = es"
      using after_cursor_step [OF ok] by simp
  qed simp
  moreover have "rows_of s True \<circ> split_entry = index_row True s"
    by (auto simp: rows_of_def index_row_def fun_eq_iff split: prod.splits)
  ultimately show ?thesis
    by simp
qed

lemma clamp_count_pos: "clamp_count c \<noteq> 0"
  by (simp add: clamp_count_def)

lemma taken_limit: "taken rv (Some n) xs = take n (taken rv None xs)"
  by (simp add: taken_def Let_def)

text \<open>
  Claim C8. The rows a cursor prefetches, forward or backward, over a store or an index,
  are the rows that \<open>getAll\<close> returns for the same range, direction and count.
\<close>

theorem cursor_equals_read:
  assumes "db_ok d" and "find_store name d = Some s"
    and "range_ok r" and "bounds_valid (r_lower r) (r_upper r)"
    and "case ixn of None \<Rightarrow> True | Some i \<Rightarrow> find_index i s \<noteq> None"
  shows "\<exists>rows. read_hits d name ixn r 5 (clamp_count count) rv = Some (Inr (HRows rows)) \<and>
    cursor d name ixn r (if rv then 2 else 0) None None None None 0 True count = Some (Some rows)"
proof -
  have s: "store_ok (db_next_id d) s"
    using assms(1,2) by (auto intro: store_in_db dest: find_store_in)
  show ?thesis
  proof (cases ixn)
    case None
    have in_r: "filter (\<lambda>(k, _). above (r_lower r) k \<and> below (r_upper r) k) (st_records s) =
        filter (\<lambda>(k, _). in_range r k) (st_records s)"
      by (simp add: in_range_def)
    have "map (store_row True) (filter (\<lambda>(k, _). in_range r k) (st_records s)) =
        map (\<lambda>k. (k, k, map_option rec_value (bt_get (st_records s) k)))
          (filter (in_range r) (map fst (st_records s)))"
      unfolding keys_filter [symmetric] map_map
      by (rule map_cong [OF refl]) (use bt_ok_distinct [OF store_ok_bt [OF s]] in \<open>auto simp: store_row_def\<close>)
    then have "map (store_row True) (take n (taken rv None (filter (\<lambda>(k, _). in_range r k) (st_records s)))) =
        map (\<lambda>k. (k, k, map_option rec_value (bt_get (st_records s) k)))
          (take n (taken rv None (filter (in_range r) (map fst (st_records s)))))" for n
      by (simp add: taken_def Let_def flip: take_map rev_map)
    then show ?thesis
      using None assms(2) valid_no_panic [OF assms(4)] clamp_count_pos [of count]
      by (simp add: read_hits_def store_hits_def bt_range_def in_r need_value_def want_of_def
          single_kind_def taken_limit cursor_def store_cursor_list [OF s])
  next
    case (Some i)
    with assms(5) obtain ix where i: "find_index i s = Some ix"
      by auto
    note ix = find_index_in [OF i]
    show ?thesis
      using Some i assms(2) clamp_count_pos [of count]
      by (simp add: read_hits_def index_hits_valid [OF assms(3) s ix assms(4)] need_value_def want_of_def
          single_kind_def taken_limit cursor_def index_cursor_list [OF assms(3) s ix])
  qed
qed

theorem cursor_equals_read_witness:
  "\<exists>rows. read_hits (fst demo_one) ''s'' (Some ''i'') demo_range 5 (clamp_count 3) True = Some (Inr (HRows rows)) \<and>
     cursor (fst demo_one) ''s'' (Some ''i'') demo_range 2 None None None None 0 True 3 = Some (Some rows)"
proof -
  obtain s ix where "find_store ''s'' (fst demo_one) = Some s" "find_index ''i'' s = Some ix"
    by (rule demo_store)
  then show ?thesis
    using cursor_equals_read [OF demo_one_ok _ demo_range_ok, of "''s''" s "Some ''i''" 3 True] by simp
qed

end
