(* ===== verification/IdbWorld.thy ===== *)
theory IdbWorld
  imports IdbRead "HOL-Library.AList" "HOL-Library.Char_ord" "HOL-Library.Product_Lexorder"
begin

text \<open>
  The state of the process around the databases (\<open>crates/pool/src/idb.rs\<close>): partitions and
  their names, databases shared by reference (\<open>Arc\<close>: an address into \<open>w_heap\<close>), live
  transactions, and the tickets of prepared values. A \<open>HashMap\<close> is an association list with
  the operations of \<open>AList\<close>; nothing depends on its order. Identifiers are \<open>u64\<close> counters
  with wrap-around. \<open>end\<close> is two steps, as other threads may run between them: the
  transaction is unregistered under the locks, and its log is played back afterwards.
\<close>

section \<open>State\<close>

datatype mode = ReadOnly | ReadWrite | VersionChange

record tx =
  tx_mode :: mode
  tx_stores :: "string list"
  tx_undo :: "undo list"

record database =
  dbase_data :: db_data
  dbase_txs :: "(u64 \<times> tx) list"

type_synonym db_key = "string \<times> string"

type_synonym partition = "(db_key \<times> nat) list"

record world =
  w_names :: "(string \<times> u64) list"
  w_partitions :: "(u64 \<times> partition) list"
  w_next_partition :: u64
  w_next_tx :: u64
  w_txs :: "(u64 \<times> nat) list"
  w_heap :: "database list"
  w_ending :: "(nat \<times> undo list) list"

definition initial_world :: world where
  "initial_world = \<lparr>w_names = [], w_partitions = [], w_next_partition = 1, w_next_tx = 1,
     w_txs = [], w_heap = [], w_ending = []\<rparr>"

definition new_database :: database where
  "new_database = \<lparr>dbase_data = empty_db, dbase_txs = []\<rparr>"

section \<open>Partitions and databases\<close>

definition partition_for :: "string \<Rightarrow> world \<Rightarrow> u64 \<times> world" where
  "partition_for name w =
     (case map_of (w_names w) name of
        Some i \<Rightarrow> (i, w)
      | None \<Rightarrow>
          let i = w_next_partition w
          in (i, w\<lparr>w_next_partition := i + 1,
                  w_names := AList.update name i (w_names w),
                  w_partitions := AList.update i [] (w_partitions w)\<rparr>))"

definition drop_partition :: "string \<Rightarrow> world \<Rightarrow> world" where
  "drop_partition name w =
     (case map_of (w_names w) name of
        None \<Rightarrow> w
      | Some i \<Rightarrow> w\<lparr>w_names := AList.delete name (w_names w),
                   w_partitions := AList.delete i (w_partitions w)\<rparr>)"

text \<open>
  The partition of a context is a number kept in a private property of its global; \<open>ctx\<close>
  is that number, if there is one.
\<close>

definition partition_of :: "u64 option \<Rightarrow> world \<Rightarrow> (u64 \<times> partition) option" where
  "partition_of ctx w =
     (case ctx of None \<Rightarrow> None | Some i \<Rightarrow> map_option (Pair i) (map_of (w_partitions w) i))"

definition db_handle :: "u64 option \<Rightarrow> string \<Rightarrow> string \<Rightarrow> bool \<Rightarrow> world \<Rightarrow> nat option \<times> world" where
  "db_handle ctx origin name create w =
     (case partition_of ctx w of
        None \<Rightarrow> (None, w)
      | Some (i, part) \<Rightarrow>
          (case map_of part (origin, name) of
             Some a \<Rightarrow> (Some a, w)
           | None \<Rightarrow>
               if \<not> create then (None, w)
               else
                 let a = length (w_heap w)
                 in (Some a, w\<lparr>w_heap := w_heap w @ [new_database],
                       w_partitions := AList.update i (AList.update (origin, name) a part) (w_partitions w)\<rparr>)))"

type_synonym index_info = "string \<times> key_path \<times> bool \<times> bool"
type_synonym store_info = "string \<times> key_path \<times> bool \<times> index_info list"

definition meta_value :: "db_data \<Rightarrow> u64 \<times> store_info list" where
  "meta_value d =
     (db_version d,
      map (\<lambda>s. (st_name s, st_key_path s, st_auto_inc s,
        map (\<lambda>ix. (im_name (ix_meta ix), im_key_path (ix_meta ix), im_unique (ix_meta ix),
          im_multi (ix_meta ix))) (st_indexes s))) (db_stores d))"

definition data_at :: "world \<Rightarrow> nat \<Rightarrow> db_data" where
  "data_at w a = dbase_data (w_heap w ! a)"

definition info :: "u64 option \<Rightarrow> string \<Rightarrow> string \<Rightarrow> world \<Rightarrow> (u64 \<times> store_info list) option" where
  "info ctx origin name w =
     map_option (\<lambda>a. meta_value (data_at w a)) (fst (db_handle ctx origin name False w))"

definition list_dbs :: "u64 option \<Rightarrow> string \<Rightarrow> world \<Rightarrow> (string \<times> u64) list" where
  "list_dbs ctx origin w =
     (case partition_of ctx w of
        None \<Rightarrow> []
      | Some (_, part) \<Rightarrow>
          sort (concat (map (\<lambda>((or, name), a).
            if or = origin \<and> 0 < db_version (data_at w a) then [(name, db_version (data_at w a))] else [])
            part)))"

definition delete_db :: "u64 option \<Rightarrow> string \<Rightarrow> string \<Rightarrow> world \<Rightarrow> u64 option \<times> world" where
  "delete_db ctx origin name w =
     (case partition_of ctx w of
        None \<Rightarrow> (None, w)
      | Some (i, part) \<Rightarrow>
          (map_option (\<lambda>a. db_version (data_at w a)) (map_of part (origin, name)),
           w\<lparr>w_partitions := AList.update i (AList.delete (origin, name) part) (w_partitions w)\<rparr>))"

section \<open>Transactions\<close>

fun mode_of :: "int \<Rightarrow> mode" where
  "mode_of n = (if n = 1 then ReadWrite else if n = 2 then VersionChange else ReadOnly)"

text \<open>A new transaction in \<open>mode\<close> over \<open>stores\<close> has to wait for the live one \<open>t\<close>.\<close>

definition conflicts :: "mode \<Rightarrow> string list \<Rightarrow> tx \<Rightarrow> bool" where
  "conflicts mode stores t =
     (if tx_mode t = VersionChange \<or> mode = VersionChange then True
      else if tx_mode t = ReadOnly \<and> mode = ReadOnly then False
      else list_ex (\<lambda>s. List.member stores s) (tx_stores t))"

definition set_txs :: "nat \<Rightarrow> (u64 \<times> tx) list \<Rightarrow> world \<Rightarrow> world" where
  "set_txs a txs w = w\<lparr>w_heap := (w_heap w)[a := (w_heap w ! a)\<lparr>dbase_txs := txs\<rparr>]\<rparr>"

definition set_data :: "nat \<Rightarrow> db_data \<Rightarrow> world \<Rightarrow> world" where
  "set_data a d w = w\<lparr>w_heap := (w_heap w)[a := (w_heap w ! a)\<lparr>dbase_data := d\<rparr>]\<rparr>"

abbreviation txs_at :: "world \<Rightarrow> nat \<Rightarrow> (u64 \<times> tx) list" where
  "txs_at w a \<equiv> dbase_txs (w_heap w ! a)"

text \<open>\<open>begin\<close>: the new identifier, or 0 while the caller has to wait.\<close>

definition begin_tx ::
  "u64 option \<Rightarrow> string \<Rightarrow> string \<Rightarrow> string list \<Rightarrow> mode \<Rightarrow> world \<Rightarrow> u64 \<times> world" where
  "begin_tx ctx origin name stores mode w =
     (case db_handle ctx origin name (mode = VersionChange) w of
        (None, w) \<Rightarrow> (0, w)
      | (Some a, w) \<Rightarrow>
          if list_ex (\<lambda>(_, t). conflicts mode stores t) (txs_at w a) then (0, w)
          else
            let i = w_next_tx w;
                t = \<lparr>tx_mode = mode, tx_stores = stores, tx_undo = []\<rparr>;
                w = set_txs a (AList.update i t (txs_at w a)) w
            in (i, w\<lparr>w_next_tx := i + 1, w_txs := AList.update i a (w_txs w)\<rparr>))"

text \<open>
  \<open>end\<close>, up to the point where the locks on the transactions are gone: the database and the
  log are left to be played back in \<open>w_ending\<close>.
\<close>

definition end_take :: "u64 \<Rightarrow> bool \<Rightarrow> world \<Rightarrow> world" where
  "end_take i commit w =
     (case map_of (w_txs w) i of
        None \<Rightarrow> w
      | Some a \<Rightarrow>
          let w = w\<lparr>w_txs := AList.delete i (w_txs w)\<rparr>
          in case map_of (txs_at w a) i of
               None \<Rightarrow> w
             | Some t \<Rightarrow>
                 let w = set_txs a (AList.delete i (txs_at w a)) w
                 in if commit \<or> tx_undo t = [] then w
                    else w\<lparr>w_ending := w_ending w @ [(a, tx_undo t)]\<rparr>)"

text \<open>The playback, under the lock of the data; \<open>k\<close> picks the thread that gets it.\<close>

definition end_undo :: "nat \<Rightarrow> world \<Rightarrow> world" where
  "end_undo k w =
     (if k < length (w_ending w) then
        let (a, undo) = w_ending w ! k
        in set_data a (rollback_all undo (data_at w a))
             (w\<lparr>w_ending := take k (w_ending w) @ drop (Suc k) (w_ending w)\<rparr>)
      else w)"


text \<open>
  \<open>with_write\<close>: \<open>f\<close> runs on the data and the log of the transaction; \<open>Inr None\<close> stands for a
  transaction that is registered but unknown to its database.
\<close>

definition with_write ::
  "u64 \<Rightarrow> (log \<Rightarrow> ('s, 'r \<times> log) eff) \<Rightarrow> world \<Rightarrow> ('s, (dom_error + 'r option) \<times> world) eff" where
  "with_write i f w =
     (case map_of (w_txs w) i of
        None \<Rightarrow> ret (Inl (''TransactionInactiveError'', ''The transaction has finished.''), w)
      | Some a \<Rightarrow>
          (case map_of (txs_at w a) i of
             None \<Rightarrow> ret (Inr None, w)
           | Some t \<Rightarrow>
               and_then (f (data_at w a, tx_undo t)) (\<lambda>(r, (d, undo)).
                 ret (Inr (Some r),
                   set_txs a (AList.update i (t\<lparr>tx_undo := undo\<rparr>) (txs_at w a)) (set_data a d w)))))"

section \<open>Tickets of prepared values\<close>

record tickets =
  tk_next :: u64
  tk_prepared :: "(u64 \<times> prepared) list"

definition add_ticket :: "prepared \<Rightarrow> tickets \<Rightarrow> u64 \<times> tickets" where
  "add_ticket p ts =
     (tk_next ts, ts\<lparr>tk_next := tk_next ts + 1,
        tk_prepared := AList.update (tk_next ts) p (tk_prepared ts)\<rparr>)"

definition take_ticket :: "u64 \<Rightarrow> tickets \<Rightarrow> prepared option \<times> tickets" where
  "take_ticket i ts =
     (map_of (tk_prepared ts) i, ts\<lparr>tk_prepared := AList.delete i (tk_prepared ts)\<rparr>)"

definition drop_prepared :: "u64 \<Rightarrow> tickets \<Rightarrow> tickets" where
  "drop_prepared i ts = snd (take_ticket i ts)"

definition stats :: "world \<Rightarrow> tickets \<Rightarrow> nat \<times> nat" where
  "stats w ts = (length (w_txs w), length (tk_prepared ts))"

section \<open>Steps of the process\<close>

text \<open>
  One call at a time, in any order the threads choose. \<open>s_begin\<close> leaves out the transaction
  that would exhaust the \<open>u64\<close> counter, and \<open>s_partition\<close> likewise.
\<close>

inductive wstep :: "('s, 'v) v8 \<Rightarrow> nat \<Rightarrow> world \<Rightarrow> world \<Rightarrow> bool" for V n where
  s_partition: "w_next_partition w + 1 \<noteq> 0 \<Longrightarrow> wstep V n w (snd (partition_for name w))"
| s_drop_partition: "wstep V n w (drop_partition name w)"
| s_delete_db: "wstep V n w (snd (delete_db ctx origin name w))"
| s_begin: "w_next_tx w + 1 \<noteq> 0 \<Longrightarrow> wstep V n w (snd (begin_tx ctx origin name stores mode w))"
| s_write: "with_write i (\<lambda>l. and_then (run_op V n op l) (\<lambda>l. ret ((), l))) w \<sigma> = Some ((r, w'), \<sigma>') \<Longrightarrow>
    wstep V n w w'"
| s_end_take: "wstep V n w (end_take i commit w)"
| s_end_undo: "wstep V n w (end_undo k w)"

inductive reachable :: "('s, 'v) v8 \<Rightarrow> nat \<Rightarrow> world \<Rightarrow> bool" for V n where
  r_start: "reachable V n initial_world"
| r_step: "reachable V n w \<Longrightarrow> wstep V n w w' \<Longrightarrow> reachable V n w'"

section \<open>Live transactions\<close>

lemma data_at_set_txs [simp]: "data_at (set_txs a txs w) b = data_at w b"
  by (cases "a < length (w_heap w)") (auto simp: set_txs_def data_at_def nth_list_update list_update_beyond)

lemma txs_at_set_data [simp]: "txs_at (set_data a d w) b = txs_at w b"
  by (cases "a < length (w_heap w)") (auto simp: set_data_def nth_list_update list_update_beyond)

lemma heap_set [simp]:
  "length (w_heap (set_txs a txs w)) = length (w_heap w)"
  "length (w_heap (set_data a d w)) = length (w_heap w)"
  "a < length (w_heap w) \<Longrightarrow> txs_at (set_txs a txs w) b = (if b = a then txs else txs_at w b)"
  "a < length (w_heap w) \<Longrightarrow> data_at (set_data a d w) b = (if b = a then d else data_at w b)"
  by (auto simp: set_txs_def set_data_def data_at_def nth_list_update)

lemma world_set [simp]:
  "w_txs (set_txs a txs w) = w_txs w" "w_txs (set_data a d w) = w_txs w"
  "w_next_tx (set_txs a txs w) = w_next_tx w" "w_next_tx (set_data a d w) = w_next_tx w"
  "w_ending (set_txs a txs w) = w_ending w" "w_ending (set_data a d w) = w_ending w"
  "w_partitions (set_txs a txs w) = w_partitions w" "w_partitions (set_data a d w) = w_partitions w"
  "w_names (set_txs a txs w) = w_names w" "w_names (set_data a d w) = w_names w"
  "w_next_partition (set_txs a txs w) = w_next_partition w"
  "w_next_partition (set_data a d w) = w_next_partition w"
  by (simp_all add: set_txs_def set_data_def)

definition compatible :: "tx \<Rightarrow> tx \<Rightarrow> bool" where
  "compatible t u \<longleftrightarrow> \<not> conflicts (tx_mode t) (tx_stores t) u"

lemma compatible_sym: "compatible t u \<Longrightarrow> compatible u t"
  by (auto simp: compatible_def conflicts_def list_ex_iff split: if_splits)

lemma compatible_undo [simp]:
  "compatible (t\<lparr>tx_undo := us\<rparr>) u = compatible t u" "compatible t (u\<lparr>tx_undo := us\<rparr>) = compatible t u"
  by (simp_all add: compatible_def conflicts_def)

definition all_compatible :: "(u64 \<times> tx) list \<Rightarrow> bool" where
  "all_compatible txs \<longleftrightarrow>
     (\<forall>i t j u. map_of txs i = Some t \<longrightarrow> map_of txs j = Some u \<longrightarrow> i \<noteq> j \<longrightarrow> compatible t u)"

lemma all_compatible_Nil [simp]: "all_compatible []"
  by (simp add: all_compatible_def)

lemma all_compatible_insert:
  assumes "all_compatible txs" and "\<And>j u. map_of txs j = Some u \<Longrightarrow> compatible t u"
  shows "all_compatible (AList.update i t txs)"
  using assms by (auto simp: all_compatible_def update_conv intro: compatible_sym)

lemma all_compatible_delete: "all_compatible txs \<Longrightarrow> all_compatible (AList.delete i txs)"
  by (auto simp: all_compatible_def delete_conv)

lemma all_compatible_log:
  "all_compatible txs \<Longrightarrow> map_of txs i = Some t \<Longrightarrow> all_compatible (AList.update i (t\<lparr>tx_undo := us\<rparr>) txs)"
  by (auto simp: all_compatible_def update_conv)

text \<open>
  The invariant: every registered transaction is known to its database and the other way
  round, identifiers are below the counter, and the live transactions of a database are
  pairwise compatible.
\<close>

definition registered :: "world \<Rightarrow> u64 \<Rightarrow> nat \<Rightarrow> bool" where
  "registered w i a \<longleftrightarrow> a < length (w_heap w) \<and> map_of (txs_at w a) i \<noteq> None"

definition txs_ok :: "world \<Rightarrow> bool" where
  "txs_ok w \<longleftrightarrow>
     (\<forall>i a. map_of (w_txs w) i = Some a \<longleftrightarrow> registered w i a) \<and>
     (\<forall>i a. registered w i a \<longrightarrow> 0 < i \<and> i < w_next_tx w) \<and> 0 < w_next_tx w \<and>
     (\<forall>a < length (w_heap w). all_compatible (txs_at w a))"

definition parts_ok :: "world \<Rightarrow> bool" where
  "parts_ok w \<longleftrightarrow>
     (\<forall>i part k a. map_of (w_partitions w) i = Some part \<longrightarrow> map_of part k = Some a \<longrightarrow> a < length (w_heap w)) \<and>
     (\<forall>i part k a j part' k'. map_of (w_partitions w) i = Some part \<longrightarrow> map_of part k = Some a \<longrightarrow>
        map_of (w_partitions w) j = Some part' \<longrightarrow> map_of part' k' = Some a \<longrightarrow> i = j \<and> k = k')"

definition pending_ok :: "world \<Rightarrow> bool" where
  "pending_ok w \<longleftrightarrow> (\<forall>(a, us) \<in> set (w_ending w). a < length (w_heap w))"

definition world_ok :: "world \<Rightarrow> bool" where
  "world_ok w \<longleftrightarrow> txs_ok w \<and> parts_ok w \<and> pending_ok w"

lemma db_handle_ok:
  assumes ok: "world_ok w" and handle: "db_handle ctx origin name create w = (r, w')"
  shows "world_ok w' \<and> w_next_tx w' = w_next_tx w \<and> w_txs w' = w_txs w \<and> w_ending w' = w_ending w \<and>
    (\<forall>a. r = Some a \<longrightarrow> a < length (w_heap w'))"
proof (cases "\<exists>i part. partition_of ctx w = Some (i, part) \<and> map_of part (origin, name) = None \<and> create")
  case False
  then show ?thesis
    using assms
    by (auto simp: db_handle_def world_ok_def parts_ok_def partition_of_def split: option.splits if_splits prod.splits)
next
  case True
  then obtain i part where i: "partition_of ctx w = Some (i, part)" "map_of part (origin, name) = None" create
    by blast
  then have part: "map_of (w_partitions w) i = Some part"
    by (auto simp: partition_of_def split: option.splits)
  let ?a = "length (w_heap w)"
  have w': "r = Some ?a" "w' = w\<lparr>w_heap := w_heap w @ [new_database],
      w_partitions := AList.update i (AList.update (origin, name) ?a part) (w_partitions w)\<rparr>"
    using handle i by (auto simp: db_handle_def Let_def)
  have reg: "registered w' j b \<longleftrightarrow> registered w j b" for j b
    by (auto simp: registered_def w' nth_append new_database_def less_Suc_eq)
  have "all_compatible (txs_at w' a)" if "a < length (w_heap w')" for a
    using that ok by (auto simp: world_ok_def txs_ok_def w' nth_append new_database_def less_Suc_eq)
  then have "txs_ok w'"
    using ok reg by (auto simp: world_ok_def txs_ok_def w')
  moreover have "parts_ok w'"
    using ok part unfolding parts_ok_def world_ok_def w'
    by (auto simp: update_conv less_Suc_eq split: if_splits) blast+
  moreover have "pending_ok w'"
    using ok by (auto simp: world_ok_def pending_ok_def w')
  ultimately show ?thesis
    by (simp add: world_ok_def w')
qed

lemma less_succ_word:
  assumes "x + 1 \<noteq> (0 :: u64)"
  shows "x < x + 1"
proof -
  have "unat (x + 1) = (unat x + 1) mod 2 ^ 64"
    by (simp add: unat_word_ariths)
  moreover have "unat (x + 1) \<noteq> 0"
    using assms by (simp add: unat_eq_0)
  ultimately have "unat x + 1 \<noteq> 2 ^ 64"
    by auto
  moreover have "unat x < 2 ^ 64"
    by (rule order_less_le_trans [OF unsigned_less]) simp
  ultimately show ?thesis
    by (simp add: word_less_nat_alt unat_word_ariths)
qed

lemma begin_tx_ok:
  assumes ok: "world_ok w" and "w_next_tx w + 1 \<noteq> 0"
  shows "world_ok (snd (begin_tx ctx origin name stores mode w))"
proof -
  obtain r w1 where h: "db_handle ctx origin name (mode = VersionChange) w = (r, w1)"
    by fastforce
  note w1 = db_handle_ok [OF ok h]
  show ?thesis
  proof (cases "\<exists>a. r = Some a \<and> \<not> list_ex (\<lambda>(_, t). conflicts mode stores t) (txs_at w1 a)")
    case False
    then show ?thesis
      using h w1 by (auto simp: begin_tx_def split: option.splits)
  next
    case True
    then obtain a where r: "r = Some a" and free: "\<not> list_ex (\<lambda>(_, t). conflicts mode stores t) (txs_at w1 a)"
      by blast
    let ?i = "w_next_tx w1" and ?t = "\<lparr>tx_mode = mode, tx_stores = stores, tx_undo = []\<rparr>"
    let ?w2 = "set_txs a (AList.update ?i ?t (txs_at w1 a)) w1"
    let ?w' = "?w2\<lparr>w_next_tx := ?i + 1, w_txs := AList.update ?i a (w_txs w1)\<rparr>"
    have a: "a < length (w_heap w1)"
      using w1 r by simp
    have next_tx: "?i < ?i + 1" "0 < ?i + 1"
      using assms(2) w1 by (auto simp: word_neq_0_conv [symmetric] intro: less_succ_word)
    have old: "\<forall>j b. map_of (w_txs w1) j = Some b \<longleftrightarrow> registered w1 j b"
        "\<forall>j b. registered w1 j b \<longrightarrow> 0 < j \<and> j < ?i" "0 < ?i"
        "\<forall>b < length (w_heap w1). all_compatible (txs_at w1 b)"
      using w1 unfolding world_ok_def txs_ok_def by blast+
    have fresh: "\<not> registered w1 ?i b" for b
      using old(2) by fastforce
    have reg: "registered ?w' j b \<longleftrightarrow> registered w1 j b \<or> j = ?i \<and> b = a" for j b
      using a fresh by (auto simp: registered_def update_conv)
    have "compatible ?t u" if "map_of (txs_at w1 a) j = Some u" for j u
      using free map_of_SomeD [OF that] by (auto simp: compatible_def list_ex_iff)
    then have "all_compatible (AList.update ?i ?t (txs_at w1 a))"
      using old(4) a by (intro all_compatible_insert) auto
    then have "\<forall>b < length (w_heap ?w'). all_compatible (txs_at ?w' b)"
      using old(4) a by simp
    moreover have "map_of (w_txs ?w') j = Some b \<longleftrightarrow> registered ?w' j b" for j b
      unfolding reg using old(1) fresh by (auto simp: update_conv)
    moreover have "registered ?w' j b \<Longrightarrow> 0 < j \<and> j < w_next_tx ?w'" for j b
      unfolding reg using old(2,3) next_tx by (auto intro: order_less_trans)
    ultimately have "txs_ok ?w'"
      unfolding txs_ok_def using next_tx(2) by auto
    moreover have "parts_ok ?w' \<and> pending_ok ?w'"
      using w1 by (simp add: world_ok_def parts_ok_def pending_ok_def)
    moreover have "snd (begin_tx ctx origin name stores mode w) = ?w'"
      using h r free by (simp add: begin_tx_def Let_def)
    ultimately show ?thesis
      by (simp add: world_ok_def)
  qed
qed

lemma set_txs_ok:
  assumes ok: "world_ok w" and a: "a < length (w_heap w)"
    and same: "\<And>j. map_of txs j = None \<longleftrightarrow> map_of (txs_at w a) j = None" and "all_compatible txs"
  shows "world_ok (set_txs a txs w)"
proof -
  have "registered (set_txs a txs w) j b \<longleftrightarrow> registered w j b" for j b
    using a same by (auto simp: registered_def simp del: not_None_eq)
  then show ?thesis
    using assms by (auto simp: world_ok_def txs_ok_def parts_ok_def pending_ok_def)
qed

lemma set_data_ok: "world_ok w \<Longrightarrow> world_ok (set_data a d w)"
  by (auto simp: world_ok_def txs_ok_def parts_ok_def pending_ok_def registered_def)

lemma with_write_ok:
  assumes ok: "world_ok w" and run: "with_write i f w \<sigma> = Some ((r, w'), \<sigma>')"
  shows "world_ok w'"
proof (cases "\<exists>a t. map_of (w_txs w) i = Some a \<and> map_of (txs_at w a) i = Some t")
  case False
  then show ?thesis
    using assms by (auto simp: with_write_def eff_simps split: option.splits)
next
  case True
  then obtain a t where at: "map_of (w_txs w) i = Some a" "map_of (txs_at w a) i = Some t"
    by blast
  then have a: "a < length (w_heap w)" "all_compatible (txs_at w a)"
    using ok by (auto simp: world_ok_def txs_ok_def registered_def)
  obtain d undo where w': "w' = set_txs a (AList.update i (t\<lparr>tx_undo := undo\<rparr>) (txs_at w a)) (set_data a d w)"
    using run at by (auto simp: with_write_def eff_simps)
  show ?thesis
    unfolding w' using a at ok
    by (intro set_txs_ok set_data_ok) (auto simp: update_conv all_compatible_log)
qed

lemma end_take_ok:
  assumes ok: "world_ok w"
  shows "world_ok (end_take i commit w)"
proof (cases "map_of (w_txs w) i")
  case None
  with ok show ?thesis
    by (simp add: end_take_def)
next
  case (Some a)
  with ok obtain t where t: "map_of (txs_at w a) i = Some t" and a: "a < length (w_heap w)"
    by (auto simp: world_ok_def txs_ok_def registered_def)
  let ?w1 = "w\<lparr>w_txs := AList.delete i (w_txs w)\<rparr>"
  let ?w2 = "set_txs a (AList.delete i (txs_at w a)) ?w1"
  have old: "\<forall>j b. map_of (w_txs w) j = Some b \<longleftrightarrow> registered w j b"
      "\<forall>j b. registered w j b \<longrightarrow> 0 < j \<and> j < w_next_tx w" "0 < w_next_tx w"
      "\<forall>b < length (w_heap w). all_compatible (txs_at w b)"
    using ok unfolding world_ok_def txs_ok_def by blast+
  have only: "registered w i b \<Longrightarrow> b = a" for b
    using old(1) Some by (metis option.inject)
  have reg: "registered ?w2 j b \<longleftrightarrow> registered w j b \<and> j \<noteq> i" for j b
    using a only by (auto simp: registered_def delete_conv simp del: not_None_eq)
  have "map_of (w_txs ?w2) j = Some b \<longleftrightarrow> registered ?w2 j b" for j b
    unfolding reg using old(1) by (auto simp: delete_conv)
  moreover have "\<forall>b < length (w_heap ?w2). all_compatible (txs_at ?w2 b)"
    using old(4) a by (auto intro: all_compatible_delete)
  ultimately have "txs_ok ?w2"
    unfolding txs_ok_def using old(2,3) reg by auto
  moreover have "parts_ok ?w2 \<and> pending_ok ?w2"
    using ok by (simp add: world_ok_def parts_ok_def pending_ok_def)
  ultimately have "world_ok ?w2" and "world_ok (?w2\<lparr>w_ending := w_ending w @ [(a, us)]\<rparr>)" for us
    using a by (auto simp: world_ok_def txs_ok_def parts_ok_def pending_ok_def registered_def)
  then show ?thesis
    using Some t by (simp add: end_take_def Let_def)
qed

lemma end_undo_ok:
  assumes "world_ok w"
  shows "world_ok (end_undo k w)"
proof -
  have "pending_ok (w\<lparr>w_ending := take k (w_ending w) @ drop (Suc k) (w_ending w)\<rparr>)"
    using assms by (auto simp: world_ok_def pending_ok_def dest!: in_set_takeD in_set_dropD)
  then have "world_ok (w\<lparr>w_ending := take k (w_ending w) @ drop (Suc k) (w_ending w)\<rparr>)"
    using assms by (auto simp: world_ok_def txs_ok_def parts_ok_def registered_def)
  with assms show ?thesis
    by (auto simp: end_undo_def intro: set_data_ok split: prod.splits)
qed

lemma world_ok_parts:
  assumes "world_ok w" and "parts_ok (w\<lparr>w_partitions := ps, w_names := ns, w_next_partition := nx\<rparr>)"
  shows "world_ok (w\<lparr>w_partitions := ps, w_names := ns, w_next_partition := nx\<rparr>)"
  using assms by (simp add: world_ok_def txs_ok_def pending_ok_def registered_def)

lemma parts_ok_change:
  assumes "parts_ok w" and "w_heap w' = w_heap w"
    and "\<And>i part k a. map_of (w_partitions w') i = Some part \<Longrightarrow> map_of part k = Some a \<Longrightarrow>
      \<exists>part'. map_of (w_partitions w) i = Some part' \<and> map_of part' k = Some a"
  shows "parts_ok w'"
  using assms unfolding parts_ok_def by metis

lemma partition_for_ok: "world_ok w \<Longrightarrow> world_ok (snd (partition_for name w))"
  by (auto simp: partition_for_def Let_def world_ok_def txs_ok_def pending_ok_def registered_def update_conv
      elim!: parts_ok_change split: option.splits if_splits)

lemma drop_partition_ok: "world_ok w \<Longrightarrow> world_ok (drop_partition name w)"
  by (auto simp: drop_partition_def world_ok_def txs_ok_def pending_ok_def registered_def delete_conv
      elim!: parts_ok_change split: option.splits if_splits)

lemma delete_db_ok: "world_ok w \<Longrightarrow> world_ok (snd (delete_db ctx origin name w))"
  by (auto simp: delete_db_def partition_of_def world_ok_def txs_ok_def pending_ok_def registered_def
      delete_conv update_conv elim!: parts_ok_change split: option.splits if_splits)

lemma initial_world_ok: "world_ok initial_world"
  by (simp add: initial_world_def world_ok_def txs_ok_def parts_ok_def pending_ok_def registered_def)

lemma wstep_ok: "wstep V n w w' \<Longrightarrow> world_ok w \<Longrightarrow> world_ok w'"
  by (induction rule: wstep.induct)
    (auto intro: partition_for_ok drop_partition_ok delete_db_ok begin_tx_ok with_write_ok end_take_ok end_undo_ok)

lemma reachable_ok: "reachable V n w \<Longrightarrow> world_ok w"
  by (induction rule: reachable.induct) (auto intro: initial_world_ok wstep_ok)

lemma no_conflict_apart:
  "\<not> conflicts mode stores t \<longleftrightarrow>
     tx_mode t \<noteq> VersionChange \<and> mode \<noteq> VersionChange \<and>
     (tx_mode t = ReadOnly \<and> mode = ReadOnly \<or> set stores \<inter> set (tx_stores t) = {})"
  by (auto simp: conflicts_def list_ex_iff List.member_iff)

text \<open>
  Claim C9. Whatever calls the threads make, two different live transactions of a database
  never conflict: no version change runs beside another transaction, and where one of the two
  writes, they have no store in common.
\<close>

theorem live_transactions_do_not_conflict:
  assumes "reachable V n w"
    and "map_of (w_txs w) i = Some a" and "map_of (w_txs w) j = Some a" and "i \<noteq> j"
  shows "\<exists>t u. map_of (txs_at w a) i = Some t \<and> map_of (txs_at w a) j = Some u \<and>
    tx_mode t \<noteq> VersionChange \<and> tx_mode u \<noteq> VersionChange \<and>
    (tx_mode t = ReadOnly \<and> tx_mode u = ReadOnly \<or> set (tx_stores t) \<inter> set (tx_stores u) = {})"
proof -
  have "txs_ok w"
    using reachable_ok [OF assms(1)] by (simp add: world_ok_def)
  then obtain t u where "map_of (txs_at w a) i = Some t" "map_of (txs_at w a) j = Some u"
      "all_compatible (txs_at w a)"
    using assms(2,3) by (auto simp: txs_ok_def registered_def)
  with assms(4) have "\<not> conflicts (tx_mode t) (tx_stores t) u" "map_of (txs_at w a) i = Some t" "map_of (txs_at w a) j = Some u"
    by (auto simp: all_compatible_def compatible_def)
  then show ?thesis
    by (auto simp: no_conflict_apart)
qed


section \<open>Aborting\<close>

fun write_all ::
  "('s, 'v) v8 \<Rightarrow> nat \<Rightarrow> u64 \<Rightarrow> tx_op list \<Rightarrow> world \<Rightarrow> ('s, world) eff" where
  "write_all V n i [] w = ret w"
| "write_all V n i (op # ops) w =
     and_then (with_write i (\<lambda>l. and_then (run_op V n op l) (\<lambda>l. ret ((), l))) w)
       (\<lambda>(r, w). write_all V n i ops w)"




section \<open>A concrete process\<close>

definition demo_ctx :: "u64 option" where
  "demo_ctx = Some 1"

definition demo_begin :: "string list \<Rightarrow> mode \<Rightarrow> world \<Rightarrow> u64 \<times> world" where
  "demo_begin = begin_tx demo_ctx ''o'' ''n''"

definition demo_writes :: "u64 \<Rightarrow> tx_op list \<Rightarrow> world \<Rightarrow> world" where
  "demo_writes i ops w = (case write_all demo_v8 3 i ops w () of Some (w', _) \<Rightarrow> w' | None \<Rightarrow> w)"

definition demo_written :: "u64 \<Rightarrow> tx_op list \<Rightarrow> world \<Rightarrow> bool" where
  "demo_written i ops w = (case write_all demo_v8 3 i ops w () of Some _ \<Rightarrow> True | None \<Rightarrow> False)"

text \<open>A store is made; then a writer puts a record and is aborted, up to the playback.\<close>

definition demo_created :: world where
  "demo_created =
     end_undo 0 (end_take 1 True (demo_writes 1 (map OpSchema demo_upgrade)
       (snd (demo_begin [] VersionChange (snd (partition_for ''p'' initial_world))))))"

definition demo_begun :: world where
  "demo_begun = snd (demo_begin [''s''] ReadWrite demo_created)"

definition demo_put_op :: tx_op where
  "demo_put_op = OpPut ''s'' (demo_put 7 9) False"

definition demo_aborted :: world where
  "demo_aborted = end_take 2 False (demo_writes 2 [demo_put_op] demo_begun)"

definition demo_count :: "world \<Rightarrow> nat" where
  "demo_count w =
     (case read_hits (data_at w 0) ''s'' None whole_range 4 0 False of
        Some (Inr (HCount n)) \<Rightarrow> n
      | _ \<Rightarrow> 0)"

lemma demo_written_eq: "demo_written i ops w \<Longrightarrow> write_all demo_v8 3 i ops w () = Some (demo_writes i ops w, ())"
  by (auto simp: demo_written_def demo_writes_def split: option.splits)

lemma reachable_writes:
  assumes "reachable V n w" and "write_all V n i ops w \<sigma> = Some (w', \<sigma>')"
  shows "reachable V n w'"
  using assms
proof (induction ops arbitrary: w \<sigma>)
  case (Cons op ops)
  from Cons.prems(2) obtain r w1 \<sigma>1 where
    "with_write i (\<lambda>l. and_then (run_op V n op l) (\<lambda>l. ret ((), l))) w \<sigma> = Some ((r, w1), \<sigma>1)"
    "write_all V n i ops w1 \<sigma>1 = Some (w', \<sigma>')"
    by (auto simp: eff_simps)
  then show ?case
    using Cons.IH Cons.prems(1) by (blast intro: r_step s_write)
qed (simp add: eff_simps)

lemma reachable_demo_writes:
  "reachable demo_v8 3 w \<Longrightarrow> demo_written i ops w \<Longrightarrow> reachable demo_v8 3 (demo_writes i ops w)"
  by (blast intro: reachable_writes demo_written_eq)

lemma reachable_demo_begin:
  "reachable demo_v8 3 w \<Longrightarrow> w_next_tx w + 1 \<noteq> 0 \<Longrightarrow> reachable demo_v8 3 (snd (demo_begin stores mode w))"
  unfolding demo_begin_def by (blast intro: r_step s_begin)

lemma reachable_created: "reachable demo_v8 3 demo_created"
proof -
  let ?w = "snd (partition_for ''p'' initial_world)"
  have "reachable demo_v8 3 ?w"
    by (rule r_step [OF r_start s_partition]) (simp add: initial_world_def)
  moreover have "w_next_tx ?w + 1 \<noteq> 0"
    by code_simp
  moreover have "demo_written 1 (map OpSchema demo_upgrade) (snd (demo_begin [] VersionChange ?w))"
    by code_simp
  ultimately show ?thesis
    unfolding demo_created_def
    by (intro r_step [OF r_step [OF _ s_end_take] s_end_undo] reachable_demo_writes reachable_demo_begin)
qed

lemma reachable_begun: "reachable demo_v8 3 demo_begun"
  unfolding demo_begun_def by (rule reachable_demo_begin [OF reachable_created]) code_simp

lemma reachable_aborted: "reachable demo_v8 3 demo_aborted"
proof -
  have "demo_written 2 [demo_put_op] demo_begun"
    by code_simp
  then show ?thesis
    unfolding demo_aborted_def
    by (intro r_step [OF _ s_end_take] reachable_demo_writes reachable_begun)
qed

theorem live_transactions_do_not_conflict_witness:
  "\<exists>t u. map_of (txs_at (snd (demo_begin [''t''] ReadWrite demo_begun)) 0) 2 = Some t \<and>
     map_of (txs_at (snd (demo_begin [''t''] ReadWrite demo_begun)) 0) 3 = Some u \<and>
     tx_mode t \<noteq> VersionChange \<and>
     (tx_mode t = ReadOnly \<and> tx_mode u = ReadOnly \<or> set (tx_stores t) \<inter> set (tx_stores u) = {})"
proof -
  let ?w = "snd (demo_begin [''t''] ReadWrite demo_begun)"
  have "w_next_tx demo_begun + 1 \<noteq> 0"
    by code_simp
  then have "reachable demo_v8 3 ?w"
    by (rule reachable_demo_begin [OF reachable_begun])
  moreover have "map_of (w_txs ?w) 2 = Some 0" "map_of (w_txs ?w) 3 = Some 0"
    by code_simp+
  ultimately show ?thesis
    using live_transactions_do_not_conflict [of demo_v8 3 ?w 2 0 3] by simp blast
qed


text \<open>
  An abort is not isolated from other threads: \<open>end\<close> unregisters the transaction
  before it plays back the log, so a reader of the same store can begin in between, and
  finds the record the aborted transaction wrote; after the playback the record is gone.
\<close>

theorem aborted_write_can_be_read:
  "reachable demo_v8 3 demo_aborted \<and> map_of (w_txs demo_aborted) 2 = None \<and>
   fst (demo_begin [''s''] ReadOnly demo_aborted) = 3 \<and>
   demo_count (snd (demo_begin [''s''] ReadOnly demo_aborted)) = 1 \<and>
   demo_count (end_undo 0 (snd (demo_begin [''s''] ReadOnly demo_aborted))) = 0"
proof (intro conjI)
  show "reachable demo_v8 3 demo_aborted"
    by (rule reachable_aborted)
  show "map_of (w_txs demo_aborted) 2 = None"
    by code_simp
  show "fst (demo_begin [''s''] ReadOnly demo_aborted) = 3"
    by code_simp
  show "demo_count (snd (demo_begin [''s''] ReadOnly demo_aborted)) = 1"
    by code_simp
  show "demo_count (end_undo 0 (snd (demo_begin [''s''] ReadOnly demo_aborted))) = 0"
    by code_simp
qed



end
