(* ===== verification/Pool.thy ===== *)
theory Pool
  imports Prelude
begin

text \<open>
  The pool of isolate threads (\<open>crates/pool/src/lib.rs\<close>): slots of workers, their shared
  load counters, placement of contexts, draining, and the queue of jobs of each thread. A
  counter or a queue behind an \<open>Arc\<close> is an address into a list of the state. What the code
  does under one lock is one operation; registering a context and dropping its guard are two
  operations each, as other threads may run in between. A job is a value of type \<open>'j\<close>.
\<close>

section \<open>State\<close>

record worker =
  wk_id :: nat
  wk_load :: nat
  wk_queue :: nat

record guard =
  g_load :: nat
  g_worker :: nat

record 'j pool =
  p_workers :: "worker option list"
  p_loads :: "nat list"
  p_queues :: "'j list list"
  p_permits :: nat
  p_max_contexts :: nat
  p_max_workers :: nat

record pool_config =
  cfg_workers :: nat
  cfg_max_live_contexts :: nat

datatype pool_error = WorkerGone nat | ShuttingDown | Canceled

definition default_config :: "nat option \<Rightarrow> pool_config" where
  "default_config parallelism =
     (let workers = (case parallelism of Some n \<Rightarrow> n | None \<Rightarrow> 4)
      in \<lparr>cfg_workers = workers, cfg_max_live_contexts = workers * 16\<rparr>)"

section \<open>Workers\<close>

definition flatten :: "'a option list \<Rightarrow> 'a list" where
  "flatten xs = List.map_filter (\<lambda>x. x) xs"

fun position :: "('a \<Rightarrow> bool) \<Rightarrow> 'a list \<Rightarrow> nat option" where
  "position P [] = None"
| "position P (x # xs) = (if P x then Some 0 else map_option Suc (position P xs))"

definition spawn_worker_locked :: "'j pool \<Rightarrow> nat \<times> 'j pool" where
  "spawn_worker_locked p =
     (let slot = position Option.is_none (p_workers p);
          index = (case slot of Some i \<Rightarrow> i | None \<Rightarrow> length (p_workers p));
          w = \<lparr>wk_id = index, wk_load = length (p_loads p), wk_queue = length (p_queues p)\<rparr>
      in (index, p\<lparr>p_loads := p_loads p @ [0], p_queues := p_queues p @ [[]],
            p_workers := (if slot \<noteq> None then (p_workers p)[index := Some w]
                          else p_workers p @ [Some w])\<rparr>))"

definition worker_at :: "'j pool \<Rightarrow> nat \<Rightarrow> worker option" where
  "worker_at p i = (if i < length (p_workers p) then p_workers p ! i else None)"

definition load_of :: "'j pool \<Rightarrow> worker \<Rightarrow> nat" where
  "load_of p w = p_loads p ! wk_load w"

definition worker_count :: "'j pool \<Rightarrow> nat" where
  "worker_count p = length (filter (\<lambda>w. w \<noteq> None) (p_workers p))"

definition maybe_drain :: "nat \<Rightarrow> 'j pool \<Rightarrow> 'j pool" where
  "maybe_drain i p =
     (case worker_at p i of
        None \<Rightarrow> p
      | Some w \<Rightarrow>
          if worker_count p > 1 \<and> load_of p w = 0 then p\<lparr>p_workers := (p_workers p)[i := None]\<rparr>
          else p)"

definition new_pool :: "pool_config \<Rightarrow> 'j pool" where
  "new_pool cfg =
     snd (spawn_worker_locked \<lparr>p_workers = [], p_loads = [], p_queues = [],
       p_permits = cfg_max_live_contexts cfg, p_max_contexts = cfg_max_live_contexts cfg,
       p_max_workers = max 1 (cfg_workers cfg)\<rparr>)"

definition is_live :: "'j pool \<Rightarrow> nat \<Rightarrow> bool" where
  "is_live p i \<longleftrightarrow> worker_at p i \<noteq> None"

definition live_worker_ids :: "'j pool \<Rightarrow> nat list" where
  "live_worker_ids p = map wk_id (flatten (p_workers p))"

section \<open>Placement\<close>

text \<open>\<open>min_by_key\<close>: the first element with the least key.\<close>

fun min_by_key :: "('a \<Rightarrow> nat) \<Rightarrow> 'a list \<Rightarrow> 'a option" where
  "min_by_key f [] = None"
| "min_by_key f (x # xs) =
     (case min_by_key f xs of
        None \<Rightarrow> Some x
      | Some y \<Rightarrow> if f y < f x then Some y else Some x)"

definition pick_worker :: "'j pool \<Rightarrow> nat \<times> 'j pool" where
  "pick_worker p =
     (case min_by_key (load_of p) (flatten (p_workers p)) of
        None \<Rightarrow> spawn_worker_locked p
      | Some w \<Rightarrow>
          if load_of p w = 0 then (wk_id w, p)
          else if worker_count p < p_max_workers p then spawn_worker_locked p
          else (wk_id w, p))"

definition spawn_or_least_loaded :: "'j pool \<Rightarrow> nat \<times> 'j pool" where
  "spawn_or_least_loaded p =
     (if worker_count p < p_max_workers p then spawn_worker_locked p
      else
        (case min_by_key (load_of p) (flatten (p_workers p)) of
           Some w \<Rightarrow> (wk_id w, p)
         | None \<Rightarrow> (0, p)))"

definition pick_worker_avoiding :: "nat list \<Rightarrow> 'j pool \<Rightarrow> nat \<times> 'j pool" where
  "pick_worker_avoiding avoid p =
     (case min_by_key (load_of p)
        (filter (\<lambda>w. \<not> List.member avoid (wk_id w)) (flatten (p_workers p))) of
        None \<Rightarrow> spawn_or_least_loaded p
      | Some w \<Rightarrow> if load_of p w = 0 then (wk_id w, p) else spawn_or_least_loaded p)"

definition pick_worker_except :: "nat \<Rightarrow> 'j pool \<Rightarrow> nat \<times> 'j pool" where
  "pick_worker_except avoid p = pick_worker_avoiding [avoid] p"

section \<open>Contexts\<close>

text \<open>A permit of the semaphore; \<open>None\<close> is a caller that waits.\<close>

definition acquire_context :: "'j pool \<Rightarrow> 'j pool option" where
  "acquire_context p = (if p_permits p = 0 then None else Some (p\<lparr>p_permits := p_permits p - 1\<rparr>))"

definition release_context :: "'j pool \<Rightarrow> 'j pool" where
  "release_context p = p\<lparr>p_permits := p_permits p + 1\<rparr>"

definition available_context_slots :: "'j pool \<Rightarrow> nat" where
  "available_context_slots p = p_permits p"

text \<open>
  Registering: the worker is looked up under the lock, its counter is raised after the lock
  is gone. A drained worker gives a counter of its own.
\<close>

definition count_context :: "nat \<Rightarrow> worker option \<Rightarrow> 'j pool \<Rightarrow> guard \<times> 'j pool" where
  "count_context i found p =
     (case found of
        Some w \<Rightarrow>
          (\<lparr>g_load = wk_load w, g_worker = i\<rparr>,
           p\<lparr>p_loads := (p_loads p)[wk_load w := p_loads p ! wk_load w + 1]\<rparr>)
      | None \<Rightarrow>
          (\<lparr>g_load = length (p_loads p), g_worker = i\<rparr>, p\<lparr>p_loads := p_loads p @ [1]\<rparr>))"

definition register_context :: "nat \<Rightarrow> 'j pool \<Rightarrow> guard \<times> 'j pool" where
  "register_context i p = count_context i (worker_at p i) p"

text \<open>Dropping: the counter falls, and the value before decides whether to drain.\<close>

definition uncount_context :: "guard \<Rightarrow> 'j pool \<Rightarrow> nat \<times> 'j pool" where
  "uncount_context g p =
     (p_loads p ! g_load g, p\<lparr>p_loads := (p_loads p)[g_load g := p_loads p ! g_load g - 1]\<rparr>)"

definition drop_guard :: "guard \<Rightarrow> 'j pool \<Rightarrow> 'j pool" where
  "drop_guard g p =
     (let (prev, p) = uncount_context g p in if prev = 1 then maybe_drain (g_worker g) p else p)"

section \<open>Jobs\<close>

definition send_job :: "worker \<Rightarrow> 'j \<Rightarrow> 'j pool \<Rightarrow> 'j pool" where
  "send_job w j p = p\<lparr>p_queues := (p_queues p)[wk_queue w := p_queues p ! wk_queue w @ [j]]\<rparr>"

definition dispatch :: "nat \<Rightarrow> 'j \<Rightarrow> 'j pool \<Rightarrow> pool_error + 'j pool" where
  "dispatch i j p =
     (case worker_at p i of None \<Rightarrow> Inl (WorkerGone i) | Some w \<Rightarrow> Inr (send_job w j p))"

definition dispatch_detached :: "nat \<Rightarrow> 'j \<Rightarrow> 'j pool \<Rightarrow> 'j pool" where
  "dispatch_detached i j p = (case worker_at p i of None \<Rightarrow> p | Some w \<Rightarrow> send_job w j p)"

text \<open>The loop of a thread: one job at a time, in the order of arrival.\<close>

definition run_job :: "nat \<Rightarrow> 'j pool \<Rightarrow> 'j option \<times> 'j pool" where
  "run_job q p =
     (if q < length (p_queues p)
      then (case p_queues p ! q of
              [] \<Rightarrow> (None, p)
            | j # js \<Rightarrow> (Some j, p\<lparr>p_queues := (p_queues p)[q := js]\<rparr>))
      else (None, p))"

definition shutdown_pool :: "'j pool \<Rightarrow> 'j pool" where
  "shutdown_pool p = p\<lparr>p_workers := []\<rparr>"

section \<open>Steps of the threads\<close>

text \<open>
  The pool, the guards that are alive, the registrations between lookup and counting, and
  the drains that dropped guards still owe.
\<close>

record 'j system =
  sys_pool :: "'j pool"
  sys_guards :: "guard list"
  sys_found :: "(nat \<times> worker option) list"
  sys_drains :: "nat list"

definition remove_nth :: "nat \<Rightarrow> 'a list \<Rightarrow> 'a list" where
  "remove_nth k xs = take k xs @ drop (Suc k) xs"

definition start_system :: "pool_config \<Rightarrow> 'j system" where
  "start_system cfg = \<lparr>sys_pool = new_pool cfg, sys_guards = [], sys_found = [], sys_drains = []\<rparr>"

inductive pstep :: "'j system \<Rightarrow> 'j system \<Rightarrow> bool" where
  p_pick: "pstep s (s\<lparr>sys_pool := snd (pick_worker (sys_pool s))\<rparr>)"
| p_avoid: "pstep s (s\<lparr>sys_pool := snd (pick_worker_avoiding avoid (sys_pool s))\<rparr>)"
| p_lookup: "pstep s (s\<lparr>sys_found := sys_found s @ [(i, worker_at (sys_pool s) i)]\<rparr>)"
| p_count: "k < length (sys_found s) \<Longrightarrow> sys_found s ! k = (i, found) \<Longrightarrow>
    count_context i found (sys_pool s) = (g, p) \<Longrightarrow>
    pstep s (s\<lparr>sys_pool := p, sys_guards := sys_guards s @ [g], sys_found := remove_nth k (sys_found s)\<rparr>)"
| p_uncount: "k < length (sys_guards s) \<Longrightarrow> uncount_context (sys_guards s ! k) (sys_pool s) = (prev, p) \<Longrightarrow>
    pstep s (s\<lparr>sys_pool := p, sys_guards := remove_nth k (sys_guards s),
      sys_drains := sys_drains s @ (if prev = 1 then [g_worker (sys_guards s ! k)] else [])\<rparr>)"
| p_drain: "k < length (sys_drains s) \<Longrightarrow>
    pstep s (s\<lparr>sys_pool := maybe_drain (sys_drains s ! k) (sys_pool s),
      sys_drains := remove_nth k (sys_drains s)\<rparr>)"
| p_dispatch: "pstep s (s\<lparr>sys_pool := dispatch_detached i j (sys_pool s)\<rparr>)"
| p_run: "pstep s (s\<lparr>sys_pool := snd (run_job q (sys_pool s))\<rparr>)"
| p_acquire: "acquire_context (sys_pool s) = Some p \<Longrightarrow> pstep s (s\<lparr>sys_pool := p\<rparr>)"
| p_release: "pstep s (s\<lparr>sys_pool := release_context (sys_pool s)\<rparr>)"

inductive pool_run :: "pool_config \<Rightarrow> 'j system \<Rightarrow> bool" for cfg where
  run_start: "pool_run cfg (start_system cfg)"
| run_step: "pool_run cfg s \<Longrightarrow> pstep s s' \<Longrightarrow> pool_run cfg s'"

section \<open>The invariant\<close>

definition workers_ok :: "'j pool \<Rightarrow> bool" where
  "workers_ok p \<longleftrightarrow>
     (\<forall>i w. worker_at p i = Some w \<longrightarrow> wk_id w = i \<and> wk_load w < length (p_loads p) \<and> wk_queue w < length (p_queues p)) \<and>
     (\<forall>i j w v. worker_at p i = Some w \<longrightarrow> worker_at p j = Some v \<longrightarrow> i \<noteq> j \<longrightarrow> wk_load w \<noteq> wk_load v)"

definition count_ok :: "'j pool \<Rightarrow> bool" where
  "count_ok p \<longleftrightarrow> 1 \<le> worker_count p \<and> worker_count p \<le> p_max_workers p"

definition guards_on :: "nat \<Rightarrow> guard list \<Rightarrow> nat" where
  "guards_on a gs = length (filter (\<lambda>g. g_load g = a) gs)"

definition loads_ok :: "nat list \<Rightarrow> guard list \<Rightarrow> bool" where
  "loads_ok loads gs \<longleftrightarrow>
     (\<forall>g \<in> set gs. g_load g < length loads) \<and> (\<forall>a < length loads. loads ! a = guards_on a gs)"

definition found_ok :: "nat list \<Rightarrow> (nat \<times> worker option) list \<Rightarrow> bool" where
  "found_ok loads found \<longleftrightarrow> (\<forall>(i, f) \<in> set found. \<forall>w. f = Some w \<longrightarrow> wk_load w < length loads)"

definition system_ok :: "'j system \<Rightarrow> bool" where
  "system_ok s \<longleftrightarrow> workers_ok (sys_pool s) \<and> count_ok (sys_pool s) \<and>
     loads_ok (p_loads (sys_pool s)) (sys_guards s) \<and> found_ok (p_loads (sys_pool s)) (sys_found s)"

lemma position_Some: "position P xs = Some i \<Longrightarrow> i < length xs \<and> P (xs ! i)"
  by (induction xs arbitrary: i) (auto split: if_splits)

lemma position_None: "position P xs = None \<longleftrightarrow> (\<forall>x \<in> set xs. \<not> P x)"
  by (induction xs) auto

lemma count_update:
  "i < length xs \<Longrightarrow> length (filter P (xs[i := y])) + (if P (xs ! i) then 1 else 0) =
    length (filter P xs) + (if P y then 1 else 0)"
proof (induction xs arbitrary: i)
  case (Cons x xs)
  show ?case
    using Cons.prems Cons.IH [of "i - 1"] by (cases i) auto
qed simp

definition spawned :: "'j pool \<Rightarrow> 'j pool \<Rightarrow> nat \<Rightarrow> bool" where
  "spawned p p' i \<longleftrightarrow>
     worker_count p' = worker_count p + 1 \<and> worker_at p i = None \<and>
     (\<forall>j. worker_at p' j = (if j = i then Some \<lparr>wk_id = i, wk_load = length (p_loads p), wk_queue = length (p_queues p)\<rparr>
       else worker_at p j)) \<and>
     p_loads p' = p_loads p @ [0] \<and> p_queues p' = p_queues p @ [[]] \<and> p_max_workers p' = p_max_workers p \<and>
     p_permits p' = p_permits p \<and> p_max_contexts p' = p_max_contexts p"

lemma spawn_spawned:
  assumes "spawn_worker_locked p = (i, p')"
  shows "spawned p p' i"
proof (cases "position Option.is_none (p_workers p)")
  case None
  with assms show ?thesis
    by (auto simp: spawn_worker_locked_def Let_def spawned_def worker_count_def worker_at_def nth_append)
next
  case (Some k)
  note k = position_Some [OF Some]
  then have none: "p_workers p ! k = None"
    by (simp add: Option.is_none_def)
  with k show ?thesis
    using assms Some count_update [of k "p_workers p" "\<lambda>w. w \<noteq> None"]
    by (auto simp: spawn_worker_locked_def Let_def spawned_def worker_count_def worker_at_def nth_list_update)
qed

lemma guards_on_append [simp]:
  "guards_on a (gs @ [g]) = guards_on a gs + (if g_load g = a then 1 else 0)"
  by (simp add: guards_on_def)

lemma guards_on_fresh: "loads_ok loads gs \<Longrightarrow> guards_on (length loads) gs = 0"
  by (fastforce simp: loads_ok_def guards_on_def filter_empty_conv)

lemma loads_ok_append: "loads_ok loads gs \<Longrightarrow> loads_ok (loads @ [0]) gs"
  using guards_on_fresh [of loads gs] by (auto simp: loads_ok_def nth_append less_Suc_eq)

lemma spawned_ok:
  assumes "system_ok s" and "spawned (sys_pool s) p' i" and "worker_count (sys_pool s) < p_max_workers (sys_pool s)"
  shows "system_ok (s\<lparr>sys_pool := p'\<rparr>)"
proof -
  have "workers_ok p'"
    using assms(1,2) by (fastforce simp: system_ok_def workers_ok_def spawned_def split: if_splits)
  with assms show ?thesis
    by (auto simp: system_ok_def spawned_def count_ok_def found_ok_def less_Suc_eq intro: loads_ok_append)
qed

text \<open>A pick leaves the pool alone or adds a worker below the maximum.\<close>

lemma flatten_set: "w \<in> set (flatten ws) \<longleftrightarrow> Some w \<in> set ws"
  by (force simp: flatten_def List.map_filter_def)

lemma worker_in: "w \<in> set (flatten (p_workers p)) \<longleftrightarrow> (\<exists>i. worker_at p i = Some w)"
proof -
  have "Some w \<in> set (p_workers p) \<longleftrightarrow> (\<exists>i < length (p_workers p). p_workers p ! i = Some w)"
    by (rule in_set_conv_nth)
  moreover have "worker_at p i = Some w \<longleftrightarrow> i < length (p_workers p) \<and> p_workers p ! i = Some w" for i
    by (simp add: worker_at_def)
  ultimately show ?thesis
    by (simp add: flatten_set)
qed

lemma flatten_simps [simp]:
  "flatten [] = []" "flatten (None # ws) = flatten ws" "flatten (Some w # ws) = w # flatten ws"
  by (simp_all add: flatten_def List.map_filter_def)

lemma length_flatten: "length (flatten ws) = length (filter (\<lambda>w. w \<noteq> None) ws)"
proof (induction ws)
  case (Cons w ws)
  then show ?case
    by (cases w) simp_all
qed simp

lemma min_by_key_None: "min_by_key f xs = None \<longleftrightarrow> xs = []"
  by (cases xs) (auto split: option.splits)

lemma min_by_key_Some:
  "min_by_key f xs = Some x \<Longrightarrow> x \<in> set xs \<and> (\<forall>y \<in> set xs. f x \<le> f y)"
proof (induction xs arbitrary: x)
  case (Cons z zs)
  show ?case
  proof (cases "min_by_key f zs")
    case None
    with Cons.prems have "zs = []" "x = z"
      by (simp_all add: min_by_key_None)
    then show ?thesis
      by simp
  next
    case (Some y)
    have "y \<in> set zs" "\<forall>v \<in> set zs. f y \<le> f v"
      using Cons.IH [OF Some] by auto
    then show ?thesis
      using Cons.prems Some by (auto split: if_splits intro: order_trans less_imp_le)
  qed
qed simp

lemma count_ok_some: "count_ok p \<Longrightarrow> flatten (p_workers p) \<noteq> []"
  using length_flatten [of "p_workers p"] by (auto simp: count_ok_def worker_count_def)

lemma some_worker:
  assumes "count_ok p"
  obtains w where "min_by_key f (flatten (p_workers p)) = Some w"
  using count_ok_some [OF assms] min_by_key_None [of f "flatten (p_workers p)"] by blast

definition picks :: "'j pool \<Rightarrow> nat \<Rightarrow> 'j pool \<Rightarrow> bool" where
  "picks p i p' \<longleftrightarrow> (p' = p \<and> worker_at p i \<noteq> None) \<or> (worker_count p < p_max_workers p \<and> spawned p p' i)"

lemma min_worker:
  assumes "workers_ok p" and "min_by_key (load_of p) (filter P (flatten (p_workers p))) = Some w"
  shows "worker_at p (wk_id w) = Some w \<and> P w \<and>
    (\<forall>i v. worker_at p i = Some v \<longrightarrow> P v \<longrightarrow> load_of p w \<le> load_of p v)"
  using min_by_key_Some [OF assms(2)] assms(1) by (auto simp: worker_in workers_ok_def)

lemma picks_least_loaded:
  assumes "workers_ok p" "count_ok p" "spawn_or_least_loaded p = (i, p')"
  shows "picks p i p'"
proof (cases "worker_count p < p_max_workers p")
  case True
  with assms(3) show ?thesis
    by (simp add: spawn_or_least_loaded_def picks_def spawn_spawned)
next
  case False
  obtain w where w: "min_by_key (load_of p) (flatten (p_workers p)) = Some w"
    by (rule some_worker [OF assms(2)])
  then have "worker_at p (wk_id w) = Some w"
    using min_worker [OF assms(1), of "\<lambda>_. True" w] by simp
  with False assms(3) w show ?thesis
    by (simp add: spawn_or_least_loaded_def picks_def)
qed

lemma picks_avoiding:
  assumes "workers_ok p" "count_ok p" "pick_worker_avoiding avoid p = (i, p')"
  shows "picks p i p'"
proof (cases "min_by_key (load_of p) (filter (\<lambda>w. \<not> List.member avoid (wk_id w)) (flatten (p_workers p)))")
  case None
  with assms show ?thesis
    by (auto simp: pick_worker_avoiding_def intro: picks_least_loaded)
next
  case (Some w)
  show ?thesis
  proof (cases "load_of p w = 0")
    case True
    with min_worker [OF assms(1) Some] assms(3) Some show ?thesis
      by (simp add: pick_worker_avoiding_def picks_def)
  next
    case False
    with assms Some show ?thesis
      by (simp add: pick_worker_avoiding_def picks_least_loaded)
  qed
qed

lemma picks_pick:
  assumes "workers_ok p" "count_ok p" "pick_worker p = (i, p')"
  shows "picks p i p'"
proof -
  obtain w where w: "min_by_key (load_of p) (flatten (p_workers p)) = Some w"
    by (rule some_worker [OF assms(2)])
  then have "worker_at p (wk_id w) = Some w"
    using min_worker [OF assms(1), of "\<lambda>_. True" w] by simp
  with assms(3) w show ?thesis
    by (auto simp: pick_worker_def picks_def spawn_spawned split: if_splits)
qed

lemma picks_ok: "system_ok s \<Longrightarrow> picks (sys_pool s) i p' \<Longrightarrow> system_ok (s\<lparr>sys_pool := p'\<rparr>)"
  by (auto simp: picks_def intro: spawned_ok)

lemma guards_on_remove:
  assumes "k < length gs"
  shows "guards_on a gs = guards_on a (remove_nth k gs) + (if g_load (gs ! k) = a then 1 else 0)"
proof -
  have "gs = take k gs @ gs ! k # drop (Suc k) gs"
    using assms by (rule id_take_nth_drop)
  then have "guards_on a gs = guards_on a (take k gs @ gs ! k # drop (Suc k) gs)"
    by simp
  then show ?thesis
    by (simp add: guards_on_def remove_nth_def)
qed

lemma remove_nth_subset: "set (remove_nth k xs) \<subseteq> set xs"
  by (auto simp: remove_nth_def dest: in_set_takeD in_set_dropD)

lemma found_ok_remove: "found_ok loads found \<Longrightarrow> found_ok loads (remove_nth k found)"
  using remove_nth_subset unfolding found_ok_def by fastforce

lemma found_ok_grow: "found_ok loads found \<Longrightarrow> length loads \<le> length loads' \<Longrightarrow> found_ok loads' found"
  unfolding found_ok_def by fastforce

lemma pool_same:
  assumes "p_workers p' = p_workers p"
  shows "worker_at p' i = worker_at p i" "worker_count p' = worker_count p"
  using assms by (simp_all add: worker_at_def worker_count_def)

lemma workers_ok_same:
  "workers_ok p \<Longrightarrow> p_workers p' = p_workers p \<Longrightarrow> length (p_loads p) \<le> length (p_loads p') \<Longrightarrow>
   length (p_queues p) \<le> length (p_queues p') \<Longrightarrow> workers_ok p'"
  unfolding workers_ok_def pool_same [of p' p] by fastforce

lemma count_context_ok:
  assumes "loads_ok (p_loads p) gs" "\<forall>w. found = Some w \<longrightarrow> wk_load w < length (p_loads p)"
    and "count_context i found p = (g, p')"
  shows "loads_ok (p_loads p') (gs @ [g]) \<and> p_workers p' = p_workers p \<and> p_queues p' = p_queues p \<and>
    p_max_workers p' = p_max_workers p \<and> length (p_loads p) \<le> length (p_loads p')"
proof (cases found)
  case None
  with assms guards_on_fresh [OF assms(1)] show ?thesis
    by (auto simp: count_context_def loads_ok_def nth_append less_Suc_eq)
next
  case (Some w)
  with assms show ?thesis
    by (auto simp: count_context_def loads_ok_def nth_list_update)
qed

lemma uncount_context_ok:
  assumes "loads_ok (p_loads p) gs" "k < length gs" and "uncount_context (gs ! k) p = (prev, p')"
  shows "loads_ok (p_loads p') (remove_nth k gs) \<and> p_workers p' = p_workers p \<and> p_queues p' = p_queues p \<and>
    p_max_workers p' = p_max_workers p \<and> length (p_loads p) = length (p_loads p') \<and> 1 \<le> prev"
proof -
  have a: "g_load (gs ! k) < length (p_loads p)"
    using assms(1,2) by (simp add: loads_ok_def)
  have n: "p_loads p ! b = guards_on b (remove_nth k gs) + (if g_load (gs ! k) = b then 1 else 0)"
    if "b < length (p_loads p)" for b
    using assms(1) that guards_on_remove [OF assms(2)] by (simp add: loads_ok_def)
  have n': "guards_on b (remove_nth k gs) = p_loads p ! b - (if g_load (gs ! k) = b then 1 else 0)"
    if "b < length (p_loads p)" for b
    using n [OF that] by simp
  have "set (remove_nth k gs) \<subseteq> set gs" "\<forall>g \<in> set gs. g_load g < length (p_loads p)"
    using remove_nth_subset [of k gs] assms(1) by (simp_all add: loads_ok_def)
  with a n [OF a] assms(3) show ?thesis
    by (auto simp: uncount_context_def loads_ok_def nth_list_update n')
qed

lemma maybe_drain_keeps:
  "p_loads (maybe_drain i p) = p_loads p" "p_queues (maybe_drain i p) = p_queues p"
  "p_max_workers (maybe_drain i p) = p_max_workers p"
  by (auto simp: maybe_drain_def split: option.splits)

lemma maybe_drain_worker_at:
  "worker_at (maybe_drain i p) j =
     (if j = i \<and> worker_count p > 1 \<and> (\<forall>w. worker_at p i = Some w \<longrightarrow> load_of p w = 0) then None else worker_at p j)"
  by (auto simp: maybe_drain_def worker_at_def nth_list_update split: option.splits)

lemma maybe_drain_count:
  "worker_count (maybe_drain i p) \<le> worker_count p \<and> (1 \<le> worker_count p \<longrightarrow> 1 \<le> worker_count (maybe_drain i p))"
proof (cases "\<exists>w. worker_at p i = Some w \<and> worker_count p > 1 \<and> load_of p w = 0")
  case False
  then show ?thesis
    by (auto simp: maybe_drain_def split: option.splits)
next
  case True
  then obtain w where w: "worker_at p i = Some w" "worker_count p > 1" "load_of p w = 0"
    by blast
  then have "i < length (p_workers p)" "p_workers p ! i = Some w"
    by (auto simp: worker_at_def split: if_splits)
  with w count_update [of i "p_workers p" "\<lambda>w. w \<noteq> None" None] show ?thesis
    by (simp add: maybe_drain_def worker_count_def)
qed

lemma maybe_drain_ok:
  assumes "workers_ok p" "count_ok p"
  shows "workers_ok (maybe_drain i p) \<and> count_ok (maybe_drain i p)"
proof -
  have "workers_ok (maybe_drain i p)"
    using assms(1) unfolding workers_ok_def maybe_drain_worker_at maybe_drain_keeps by auto
  moreover have "count_ok (maybe_drain i p)"
    using assms(2) maybe_drain_count [of i p] by (auto simp: count_ok_def maybe_drain_keeps)
  ultimately show ?thesis ..
qed

lemma jobs_keep:
  "p_workers (dispatch_detached i j p) = p_workers p" "p_loads (dispatch_detached i j p) = p_loads p"
  "p_max_workers (dispatch_detached i j p) = p_max_workers p"
  "length (p_queues (dispatch_detached i j p)) = length (p_queues p)"
  "p_workers (snd (run_job q p)) = p_workers p" "p_loads (snd (run_job q p)) = p_loads p"
  "p_max_workers (snd (run_job q p)) = p_max_workers p"
  "length (p_queues (snd (run_job q p))) = length (p_queues p)"
  by (auto simp: dispatch_detached_def send_job_def run_job_def split: option.splits list.splits)

lemma same_workers_ok:
  assumes "system_ok s" "p_workers p' = p_workers (sys_pool s)" "p_loads p' = p_loads (sys_pool s)"
    "p_max_workers p' = p_max_workers (sys_pool s)" "length (p_queues p') = length (p_queues (sys_pool s))"
  shows "system_ok (s\<lparr>sys_pool := p'\<rparr>)"
  using assms workers_ok_same [of "sys_pool s" p'] pool_same [of p' "sys_pool s"]
  by (auto simp: system_ok_def count_ok_def)

lemma pstep_ok: "pstep s s' \<Longrightarrow> system_ok s \<Longrightarrow> system_ok s'"
proof (induction rule: pstep.induct)
  case (p_pick s)
  then show ?case
    by (auto simp: system_ok_def [of s] intro!: picks_ok picks_pick prod.collapse [symmetric])
next
  case (p_avoid s avoid)
  then show ?case
    by (auto simp: system_ok_def [of s] intro!: picks_ok picks_avoiding prod.collapse [symmetric])
next
  case (p_lookup s i)
  then show ?case
    by (auto simp: system_ok_def found_ok_def workers_ok_def)
next
  case (p_count k s i found g p)
  have "\<forall>w. found = Some w \<longrightarrow> wk_load w < length (p_loads (sys_pool s))"
    using p_count(1,2,4) nth_mem [OF p_count(1)] by (fastforce simp: system_ok_def found_ok_def)
  from count_context_ok [OF _ this p_count(3), of "sys_guards s"] p_count(4) show ?case
    by (auto simp: system_ok_def count_ok_def pool_same [of p "sys_pool s"]
        intro: workers_ok_same found_ok_grow [OF found_ok_remove])
next
  case (p_uncount k s prev p)
  from uncount_context_ok [OF _ p_uncount(1,2)] p_uncount(3) show ?case
    by (auto simp: system_ok_def count_ok_def pool_same [of p "sys_pool s"]
        intro: workers_ok_same found_ok_grow)
next
  case (p_drain k s)
  then show ?case
    using maybe_drain_ok [of "sys_pool s" "sys_drains s ! k"] by (auto simp: system_ok_def maybe_drain_keeps)
next
  case (p_dispatch s i j)
  then show ?case
    by (rule same_workers_ok) (simp_all add: jobs_keep)
next
  case (p_run s q)
  then show ?case
    by (rule same_workers_ok) (simp_all add: jobs_keep)
next
  case (p_acquire s p)
  then show ?case
    by (intro same_workers_ok) (auto simp: acquire_context_def split: if_splits)
next
  case (p_release s)
  then show ?case
    by (rule same_workers_ok) (simp_all add: release_context_def)
qed

lemma new_pool_parts:
  "worker_at (new_pool cfg) i = (if i = 0 then Some \<lparr>wk_id = 0, wk_load = 0, wk_queue = 0\<rparr> else None)"
  "p_loads (new_pool cfg) = [0]" "p_queues (new_pool cfg) = [[]]"
  "worker_count (new_pool cfg) = 1" "1 \<le> p_max_workers (new_pool cfg)"
  by (simp_all add: new_pool_def spawn_worker_locked_def worker_at_def worker_count_def)

lemma start_ok: "system_ok (start_system cfg)"
proof -
  have "workers_ok (new_pool cfg)"
    by (auto simp: workers_ok_def new_pool_parts split: if_splits)
  then show ?thesis
    by (auto simp: new_pool_parts new_pool_parts(5) [unfolded One_nat_def] system_ok_def start_system_def count_ok_def loads_ok_def guards_on_def found_ok_def)
qed

lemma pool_run_ok: "pool_run cfg s \<Longrightarrow> system_ok s"
  by (induction rule: pool_run.induct) (auto intro: start_ok pstep_ok)

lemma picks_max: "picks p i p' \<Longrightarrow> p_max_workers p' = p_max_workers p"
  by (auto simp: picks_def spawned_def)

lemma picks_worker_at: "picks p i p' \<Longrightarrow> worker_at p j = Some w \<Longrightarrow> worker_at p' j = Some w"
  by (auto simp: picks_def spawned_def)

lemma pstep_keeps:
  assumes "pstep s s'" and "system_ok s"
  shows "p_max_workers (sys_pool s') = p_max_workers (sys_pool s)"
    and "worker_at (sys_pool s) i = Some w \<Longrightarrow> 0 < load_of (sys_pool s) w \<Longrightarrow> worker_at (sys_pool s') i = Some w"
proof -
  have "p_max_workers (sys_pool s') = p_max_workers (sys_pool s) \<and>
    (worker_at (sys_pool s) i = Some w \<longrightarrow> 0 < load_of (sys_pool s) w \<longrightarrow> worker_at (sys_pool s') i = Some w)"
    using assms
  proof (induction rule: pstep.induct)
    case (p_pick s)
    then have "picks (sys_pool s) (fst (pick_worker (sys_pool s))) (snd (pick_worker (sys_pool s)))"
      by (intro picks_pick) (auto simp: system_ok_def)
    from picks_max [OF this] picks_worker_at [OF this] show ?case
      by simp
  next
    case (p_avoid s avoid)
    then have "picks (sys_pool s) (fst (pick_worker_avoiding avoid (sys_pool s)))
        (snd (pick_worker_avoiding avoid (sys_pool s)))"
      by (intro picks_avoiding) (auto simp: system_ok_def)
    from picks_max [OF this] picks_worker_at [OF this] show ?case
      by simp
  next
    case (p_count k s i found g p)
    then show ?case
      by (auto simp: count_context_def worker_at_def split: option.splits)
  next
    case (p_uncount k s prev p)
    then show ?case
      by (auto simp: uncount_context_def worker_at_def)
  next
    case (p_drain k s)
    then show ?case
      by (simp add: maybe_drain_keeps maybe_drain_worker_at)
  next
    case (p_acquire s p)
    then show ?case
      by (auto simp: acquire_context_def worker_at_def split: if_splits)
  qed (simp_all add: jobs_keep pool_same worker_at_def release_context_def)
  then show "p_max_workers (sys_pool s') = p_max_workers (sys_pool s)"
    and "worker_at (sys_pool s) i = Some w \<Longrightarrow> 0 < load_of (sys_pool s) w \<Longrightarrow> worker_at (sys_pool s') i = Some w"
    by auto
qed

lemma pool_run_max: "pool_run cfg s \<Longrightarrow> p_max_workers (sys_pool s) = max 1 (cfg_workers cfg)"
proof (induction rule: pool_run.induct)
  case run_start
  show ?case
    by (simp add: start_system_def new_pool_def spawn_worker_locked_def)
next
  case (run_step s s')
  then show ?case
    using pstep_keeps(1) [OF run_step(2) pool_run_ok [OF run_step(1)]] by simp
qed

section \<open>What the pool promises\<close>

text \<open>
  Claim C12. Whatever the threads do and in whatever order, the pool always has at least one
  live worker and never more than the configured maximum.
\<close>

theorem pool_size_stays_in_bounds:
  assumes "pool_run cfg s"
  shows "1 \<le> worker_count (sys_pool s) \<and> worker_count (sys_pool s) \<le> max 1 (cfg_workers cfg)"
  using pool_run_ok [OF assms] pool_run_max [OF assms] by (simp add: system_ok_def count_ok_def)

text \<open>
  Claim C13. The load of a live worker is the number of guards that were counted on it and are
  still alive, so dropping a guard never takes the counter below zero.
\<close>

theorem load_counts_live_guards:
  assumes "pool_run cfg s" and "worker_at (sys_pool s) i = Some w"
  shows "wk_id w = i \<and> load_of (sys_pool s) w = guards_on (wk_load w) (sys_guards s)"
  using pool_run_ok [OF assms(1)] assms(2)
  by (auto simp: system_ok_def workers_ok_def loads_ok_def load_of_def)

text \<open>
  Claim C14. A worker that carries a counted context keeps its slot: no step of any thread
  drains it or gives its identifier to another worker.
\<close>

theorem loaded_worker_is_not_drained:
  assumes "pool_run cfg s" and "pstep s s'" and "worker_at (sys_pool s) i = Some w"
    and "g \<in> set (sys_guards s)" and "g_load g = wk_load w"
  shows "worker_at (sys_pool s') i = Some w"
proof -
  have ok: "system_ok s"
    by (rule pool_run_ok [OF assms(1)])
  have "guards_on (wk_load w) (sys_guards s) \<noteq> 0"
    using assms(4,5) by (auto simp: guards_on_def filter_empty_conv)
  moreover have "load_of (sys_pool s) w = guards_on (wk_load w) (sys_guards s)"
    using ok assms(3) by (auto simp: system_ok_def workers_ok_def loads_ok_def load_of_def)
  ultimately show ?thesis
    using pstep_keeps(2) [OF assms(2) ok assms(3)] by simp
qed

text \<open>
  A new context goes to an idle worker while there is one, then to a fresh worker
  while there is room, and otherwise to a live worker of the least load.
\<close>

theorem pick_worker_places_least_loaded:
  assumes "pool_run cfg s" and "pick_worker (sys_pool s) = (i, p')"
  shows "(\<exists>w. worker_at p' i = Some w \<and>
      (load_of p' w = 0 \<or>
       worker_count (sys_pool s) = max 1 (cfg_workers cfg) \<and> p' = sys_pool s \<and>
       (\<forall>j v. worker_at (sys_pool s) j = Some v \<longrightarrow> load_of (sys_pool s) w \<le> load_of (sys_pool s) v))) \<and>
    (p' \<noteq> sys_pool s \<longrightarrow>
      (\<forall>j v. worker_at (sys_pool s) j = Some v \<longrightarrow> 0 < load_of (sys_pool s) v))"
proof -
  let ?p = "sys_pool s"
  have ok: "workers_ok ?p" "count_ok ?p"
    using pool_run_ok [OF assms(1)] by (simp_all add: system_ok_def)
  obtain w where w: "min_by_key (load_of ?p) (flatten (p_workers ?p)) = Some w"
    by (rule some_worker [OF ok(2)])
  have least: "worker_at ?p (wk_id w) = Some w"
    "\<forall>i v. worker_at ?p i = Some v \<longrightarrow> load_of ?p w \<le> load_of ?p v"
    using min_worker [OF ok(1), of "\<lambda>_. True" w] w by simp_all
  show ?thesis
  proof (cases "load_of ?p w \<noteq> 0 \<and> worker_count ?p < p_max_workers ?p")
    case True
    then have "spawn_worker_locked ?p = (i, p')"
      using w assms(2) by (simp add: pick_worker_def)
    from spawn_spawned [OF this] True least(2) show ?thesis
      by (fastforce simp: spawned_def load_of_def nth_append)
  next
    case False
    then have "p' = ?p" "i = wk_id w" "load_of ?p w = 0 \<or> worker_count ?p = max 1 (cfg_workers cfg)"
      using w assms(2) ok(2) pool_run_max [OF assms(1)]
      by (auto simp: pick_worker_def count_ok_def split: if_splits)
    with least show ?thesis
      by auto
  qed
qed

section \<open>A concrete run\<close>

text \<open>Two workers at most; the page's context is on worker 0, two others are on worker 1.\<close>

definition demo_cfg :: pool_config where
  "demo_cfg = \<lparr>cfg_workers = 2, cfg_max_live_contexts = 8\<rparr>"

definition pick_and_count :: "nat \<Rightarrow> nat system \<Rightarrow> nat system" where
  "pick_and_count i s =
     (let (_, p) = pick_worker (sys_pool s); (g, p) = register_context i p
      in s\<lparr>sys_pool := p, sys_guards := sys_guards s @ [g]\<rparr>)"

definition count_on :: "nat \<Rightarrow> nat system \<Rightarrow> nat system" where
  "count_on i s =
     (let (g, p) = register_context i (sys_pool s)
      in s\<lparr>sys_pool := p, sys_guards := sys_guards s @ [g]\<rparr>)"

definition demo_system :: "nat system" where
  "demo_system = count_on 1 (pick_and_count 1 (pick_and_count 0 (start_system demo_cfg)))"

lemma pool_run_count:
  assumes "pool_run cfg s" and "sys_found s = []"
  shows "pool_run cfg (count_on i s) \<and> sys_found (count_on i s) = []"
proof -
  let ?s1 = "s\<lparr>sys_found := sys_found s @ [(i, worker_at (sys_pool s) i)]\<rparr>"
  have "pool_run cfg ?s1"
    by (rule run_step [OF assms(1) p_lookup])
  moreover obtain g p where "count_context i (worker_at (sys_pool s) i) (sys_pool s) = (g, p)"
    by fastforce
  ultimately have "pool_run cfg (s\<lparr>sys_pool := p, sys_guards := sys_guards s @ [g], sys_found := []\<rparr>)"
    using run_step [OF _ p_count [of 0 ?s1 i "worker_at (sys_pool s) i" g p]] assms(2)
    by (simp add: remove_nth_def)
  moreover have "s\<lparr>sys_pool := p, sys_guards := sys_guards s @ [g], sys_found := []\<rparr> = count_on i s"
    using assms(2) \<open>count_context i (worker_at (sys_pool s) i) (sys_pool s) = (g, p)\<close>
    by (cases s) (simp add: count_on_def register_context_def)
  moreover have "sys_found (count_on i s) = []"
    using assms(2) by (simp add: count_on_def split: prod.splits)
  ultimately show ?thesis
    by simp
qed

lemma pool_run_pick_count:
  assumes "pool_run cfg s" and "sys_found s = []"
  shows "pool_run cfg (pick_and_count i s) \<and> sys_found (pick_and_count i s) = []"
proof -
  let ?s1 = "s\<lparr>sys_pool := snd (pick_worker (sys_pool s))\<rparr>"
  have "pool_run cfg ?s1"
    by (rule run_step [OF assms(1) p_pick])
  moreover have "pick_and_count i s = count_on i ?s1"
    by (simp add: count_on_def pick_and_count_def split: prod.splits)
  ultimately show ?thesis
    using pool_run_count [of cfg ?s1 i] assms(2) by simp
qed

lemma demo_system_runs: "pool_run demo_cfg demo_system"
proof -
  have "pool_run demo_cfg (start_system demo_cfg)" "sys_found (start_system demo_cfg) = []"
    by (rule run_start) (simp add: start_system_def)
  from pool_run_pick_count [OF this, of 0] have "pool_run demo_cfg (pick_and_count 1 (pick_and_count 0 (start_system demo_cfg)))"
    "sys_found (pick_and_count 1 (pick_and_count 0 (start_system demo_cfg))) = []"
    using pool_run_pick_count by blast+
  from pool_run_count [OF this, of 1] show ?thesis
    by (simp add: demo_system_def)
qed

theorem pool_size_stays_in_bounds_witness:
  "1 \<le> worker_count (sys_pool demo_system) \<and> worker_count (sys_pool demo_system) \<le> 2"
  using pool_size_stays_in_bounds [OF demo_system_runs] by (simp add: demo_cfg_def)

definition demo_worker :: worker where
  "demo_worker = \<lparr>wk_id = 1, wk_load = 1, wk_queue = 1\<rparr>"

lemma demo_worker: "worker_at (sys_pool demo_system) 1 = Some demo_worker"
  by code_simp

theorem load_counts_live_guards_witness:
  "load_of (sys_pool demo_system) demo_worker = guards_on 1 (sys_guards demo_system) \<and>
   guards_on 1 (sys_guards demo_system) = 2"
proof
  show "load_of (sys_pool demo_system) demo_worker = guards_on 1 (sys_guards demo_system)"
    using load_counts_live_guards [OF demo_system_runs demo_worker] by (simp add: demo_worker_def)
  show "guards_on 1 (sys_guards demo_system) = 2"
    by code_simp
qed

theorem loaded_worker_is_not_drained_witness:
  "worker_at (snd (uncount_context (sys_guards demo_system ! 1) (sys_pool demo_system))) 1 = Some demo_worker"
proof -
  have g: "\<lparr>g_load = 1, g_worker = 1\<rparr> \<in> set (sys_guards demo_system)"
    and k: "1 < length (sys_guards demo_system)"
    by code_simp+
  from loaded_worker_is_not_drained [OF demo_system_runs p_uncount [OF k prod.collapse [symmetric]] demo_worker g]
  show ?thesis
    by (simp add: demo_worker_def)
qed

theorem pick_worker_places_least_loaded_witness:
  "\<exists>w. worker_at (sys_pool demo_system) (fst (pick_worker (sys_pool demo_system))) = Some w \<and>
     (load_of (sys_pool demo_system) w = 0 \<or> load_of (sys_pool demo_system) w \<le> load_of (sys_pool demo_system) demo_worker)"
proof -
  have s: "snd (pick_worker (sys_pool demo_system)) = sys_pool demo_system"
    by code_simp
  then have "pick_worker (sys_pool demo_system) = (fst (pick_worker (sys_pool demo_system)), sys_pool demo_system)"
    by (metis prod.collapse)
  from pick_worker_places_least_loaded [OF demo_system_runs this] demo_worker show ?thesis
    by blast
qed

text \<open>
  The placement that should avoid a worker can return it although another live
  worker exists: with every slot taken it falls back to the least loaded worker of all.
\<close>

theorem avoided_worker_can_be_picked:
  "pool_run demo_cfg demo_system \<and> is_live (sys_pool demo_system) 1 \<and>
   fst (pick_worker_except 0 (sys_pool demo_system)) = 0"
proof (intro conjI)
  show "pool_run demo_cfg demo_system"
    by (rule demo_system_runs)
  show "is_live (sys_pool demo_system) 1"
    by code_simp
  show "fst (pick_worker_except 0 (sys_pool demo_system)) = 0"
    by code_simp
qed

end
