(* ===== verification/Text.thy ===== *)
theory Text
  imports Prelude "HOL-Library.Char_ord"
begin

text \<open>
  Operations of Rust's \<open>str\<close> that several components use. A string is the list of the bytes
  of its UTF-8 encoding, one \<open>char\<close> each, so the order of strings is byte order. White space
  is Unicode's, by its encodings.
\<close>

section \<open>Prefixes and suffixes\<close>

fun strip_prefix :: "'a list \<Rightarrow> 'a list \<Rightarrow> 'a list option" where
  "strip_prefix [] s = Some s"
| "strip_prefix (p # ps) [] = None"
| "strip_prefix (p # ps) (c # s) = (if p = c then strip_prefix ps s else None)"

definition has_prefix :: "'a list \<Rightarrow> 'a list \<Rightarrow> bool" where
  "has_prefix s p = (strip_prefix p s \<noteq> None)"

definition strip_suffix :: "'a list \<Rightarrow> 'a list \<Rightarrow> 'a list option" where
  "strip_suffix p s = map_option rev (strip_prefix (rev p) (rev s))"

definition has_suffix :: "'a list \<Rightarrow> 'a list \<Rightarrow> bool" where
  "has_suffix s p = has_prefix (rev s) (rev p)"

lemma strip_prefix_Some: "strip_prefix p s = Some r \<longleftrightarrow> s = p @ r"
  by (induction p s rule: strip_prefix.induct) auto

lemma has_prefix_iff: "has_prefix s p \<longleftrightarrow> (\<exists>r. s = p @ r)"
  by (metis not_Some_eq has_prefix_def strip_prefix_Some)

lemma has_prefix_append [simp]: "has_prefix (p @ r) p"
  by (auto simp: has_prefix_iff)

lemma has_prefix_refl [simp]: "has_prefix s s"
  using has_prefix_append [of s "[]"] by simp

lemma has_prefix_Nil [simp]: "has_prefix s []"
  by (simp add: has_prefix_def)

lemma has_prefix_drop: "has_prefix s p \<Longrightarrow> p @ drop (length p) s = s"
  by (auto simp: has_prefix_iff)

lemma strip_suffix_Some: "strip_suffix p s = Some r \<longleftrightarrow> s = r @ p"
proof -
  have "strip_suffix p s = Some r \<longleftrightarrow> rev s = rev p @ rev r"
    by (auto simp: strip_suffix_def strip_prefix_Some)
  then show ?thesis
    by (metis rev_append rev_rev_ident)
qed

lemma has_suffix_iff: "has_suffix s p \<longleftrightarrow> (\<exists>r. s = r @ p)"
  unfolding has_suffix_def has_prefix_iff by (metis rev_append rev_rev_ident)

section \<open>Splitting\<close>

fun split_once :: "'a \<Rightarrow> 'a list \<Rightarrow> ('a list \<times> 'a list) option" where
  "split_once c [] = None"
| "split_once c (x # xs) =
     (if x = c then Some ([], xs) else map_option (\<lambda>(a, b). (x # a, b)) (split_once c xs))"

definition rsplit_once :: "'a \<Rightarrow> 'a list \<Rightarrow> ('a list \<times> 'a list) option" where
  "rsplit_once c s = map_option (\<lambda>(a, b). (rev b, rev a)) (split_once c (rev s))"

text \<open>On a separator of several characters.\<close>

fun split_once_str :: "'a list \<Rightarrow> 'a list \<Rightarrow> ('a list \<times> 'a list) option" where
  "split_once_str p s =
     (case strip_prefix p s of
        Some r \<Rightarrow> Some ([], r)
      | None \<Rightarrow>
          (case s of
             [] \<Rightarrow> None
           | c # s \<Rightarrow> map_option (\<lambda>(a, b). (c # a, b)) (split_once_str p s)))"

declare split_once_str.simps [simp del]

lemma split_once_str_Some: "split_once_str p s = Some (a, b) \<Longrightarrow> s = a @ p @ b"
proof (induction p s arbitrary: a rule: split_once_str.induct)
  case (1 p s)
  then show ?case
    by (subst (asm) (2) split_once_str.simps)
      (auto simp: strip_prefix_Some split: option.splits list.splits)
qed

definition contains_str :: "'a list \<Rightarrow> 'a list \<Rightarrow> bool" where
  "contains_str s p = (split_once_str p s \<noteq> None)"

lemma split_once_Some: "split_once c s = Some (a, b) \<longleftrightarrow> s = a @ c # b \<and> c \<notin> set a"
proof (induction s arbitrary: a)
  case (Cons x xs)
  then show ?case
    by (cases a) auto
qed simp

lemma split_once_None: "split_once c s = None \<longleftrightarrow> c \<notin> set s"
  by (induction s) auto

lemma rsplit_once_Some: "rsplit_once c s = Some (a, b) \<longleftrightarrow> s = a @ c # b \<and> c \<notin> set b"
proof -
  have "rsplit_once c s = Some (a, b) \<longleftrightarrow> split_once c (rev s) = Some (rev b, rev a)"
    by (auto simp: rsplit_once_def)
  also have "\<dots> \<longleftrightarrow> rev s = rev (a @ c # b) \<and> c \<notin> set b"
    by (simp add: split_once_Some)
  also have "\<dots> \<longleftrightarrow> s = a @ c # b \<and> c \<notin> set b"
    by (simp only: rev_is_rev_conv)
  finally show ?thesis .
qed

lemma rsplit_once_None: "rsplit_once c s = None \<longleftrightarrow> c \<notin> set s"
  by (simp add: rsplit_once_def split_once_None)

section \<open>Case and white space\<close>

definition lower_char :: "char \<Rightarrow> char" where
  "lower_char c = (let n = of_char c :: nat in if 65 \<le> n \<and> n \<le> 90 then char_of (n + 32) else c)"

definition to_ascii_lowercase :: "string \<Rightarrow> string" where
  "to_ascii_lowercase s = map lower_char s"

definition upper_char :: "char \<Rightarrow> char" where
  "upper_char c = (let n = of_char c :: nat in if 97 \<le> n \<and> n \<le> 122 then char_of (n - 32) else c)"

definition to_ascii_uppercase :: "string \<Rightarrow> string" where
  "to_ascii_uppercase s = map upper_char s"

definition eq_ignore_ascii_case :: "string \<Rightarrow> string \<Rightarrow> bool" where
  "eq_ignore_ascii_case a b = (to_ascii_lowercase a = to_ascii_lowercase b)"

definition byte_string :: "nat list \<Rightarrow> string" where
  "byte_string ns = map char_of ns"

text \<open>\<open>char::is_whitespace\<close>: the UTF-8 encodings of the characters with \<open>White_Space\<close>.\<close>

definition white_spaces :: "string list" where
  "white_spaces =
     map (\<lambda>n. byte_string [n]) [9, 10, 11, 12, 13, 32] @
     [byte_string [0xC2, 0x85], byte_string [0xC2, 0xA0], byte_string [0xE1, 0x9A, 0x80]] @
     map (\<lambda>n. byte_string [0xE2, 0x80, n]) [0x80, 0x81, 0x82, 0x83, 0x84, 0x85, 0x86, 0x87, 0x88, 0x89, 0x8A, 0xA8, 0xA9, 0xAF] @
     [byte_string [0xE2, 0x81, 0x9F], byte_string [0xE3, 0x80, 0x80]]"

text \<open>Strip any of \<open>ps\<close> from the front as long as one fits; \<open>n\<close> bounds the rounds.\<close>

fun strip_any :: "'a list list \<Rightarrow> nat \<Rightarrow> 'a list \<Rightarrow> 'a list" where
  "strip_any ps 0 s = s"
| "strip_any ps (Suc n) s =
     (case List.map_filter (\<lambda>p. strip_prefix p s) ps of
        [] \<Rightarrow> s
      | r # _ \<Rightarrow> strip_any ps n r)"

definition trim_start :: "string \<Rightarrow> string" where
  "trim_start s = strip_any white_spaces (length s) s"

definition trim_end :: "string \<Rightarrow> string" where
  "trim_end s = rev (strip_any (map rev white_spaces) (length s) (rev s))"

definition trim :: "string \<Rightarrow> string" where
  "trim s = trim_end (trim_start s)"

definition trim_start_matches :: "'a \<Rightarrow> 'a list \<Rightarrow> 'a list" where
  "trim_start_matches c s = dropWhile (\<lambda>x. x = c) s"

definition trim_end_matches :: "'a \<Rightarrow> 'a list \<Rightarrow> 'a list" where
  "trim_end_matches c s = rev (dropWhile (\<lambda>x. x = c) (rev s))"

lemma lower_char_lower [simp]: "lower_char (lower_char c) = lower_char c"
proof -
  have "of_char c < (256 :: nat)"
    by simp
  then show ?thesis
    by (auto simp: lower_char_def Let_def)
qed

lemma to_ascii_lowercase_idem [simp]: "to_ascii_lowercase (to_ascii_lowercase s) = to_ascii_lowercase s"
  by (simp add: to_ascii_lowercase_def)

section \<open>Numbers\<close>

definition digit_value :: "char \<Rightarrow> nat option" where
  "digit_value c = (let n = of_char c in if 48 \<le> n \<and> n \<le> 57 then Some (n - 48) else None)"

fun digits_value :: "nat \<Rightarrow> string \<Rightarrow> nat option" where
  "digits_value acc [] = Some acc"
| "digits_value acc (c # cs) =
     (case digit_value c of None \<Rightarrow> None | Some d \<Rightarrow> digits_value (10 * acc + d) cs)"

text \<open>\<open>parse\<close> of an unsigned integer below \<open>limit\<close>: an optional plus sign, then digits.\<close>

definition parse_unsigned :: "nat \<Rightarrow> string \<Rightarrow> nat option" where
  "parse_unsigned limit s =
     (let s = (case strip_prefix ''+'' s of Some r \<Rightarrow> r | None \<Rightarrow> s)
      in if s = [] then None
         else case digits_value 0 s of
                None \<Rightarrow> None
              | Some n \<Rightarrow> if n < limit then Some n else None)"

lemma digit_value_char [simp]: "d < 10 \<Longrightarrow> digit_value (digit_char d) = Some d"
  by (simp add: digit_value_def digit_char_def)

lemma digits_value_append:
  "digits_value acc (xs @ [c]) =
    (case digits_value acc xs of
       None \<Rightarrow> None
     | Some n \<Rightarrow> (case digit_value c of None \<Rightarrow> None | Some d \<Rightarrow> Some (10 * n + d)))"
  by (induction xs arbitrary: acc) (auto split: option.splits)

lemma digits_value_nat_str: "digits_value 0 (nat_str n) = Some n"
proof (induction n rule: nat_str.induct)
  case (1 n)
  show ?case
  proof (cases "n < 10")
    case True
    then show ?thesis
      by (simp add: nat_str.simps [of n])
  next
    case False
    with 1 show ?thesis
      by (simp add: nat_str.simps [of n] digits_value_append)
  qed
qed

lemma nat_str_digits: "c \<in> set (nat_str n) \<Longrightarrow> \<exists>d < 10. c = digit_char d"
proof (induction n rule: nat_str.induct)
  case (1 n)
  then show ?case
    by (cases "n < 10") (auto simp: nat_str.simps [of n] intro: exI [of _ "n mod 10"])
qed

lemma nat_str_not_Nil [simp]: "nat_str n \<noteq> []"
  by (simp add: nat_str.simps [of n])

lemma parse_nat_str: "n < limit \<Longrightarrow> parse_unsigned limit (nat_str n) = Some n"
proof -
  assume "n < limit"
  have "strip_prefix ''+'' (nat_str n) = None"
  proof (cases "nat_str n")
    case (Cons c cs)
    then obtain d where "d < 10" "c = digit_char d"
      using nat_str_digits [of c n] by auto
    then have "of_char c = (48 + d :: nat)"
      by (simp add: digit_char_def)
    then have "c \<noteq> CHR ''+''"
      using \<open>d < 10\<close> by auto
    with Cons show ?thesis
      by simp
  qed simp
  with \<open>n < limit\<close> show ?thesis
    by (simp add: parse_unsigned_def digits_value_nat_str)
qed

end
