(* ===== verification/ImportMap.thy ===== *)
theory ImportMap
  imports Text
begin

text \<open>
  Import maps (\<open>crates/core/src/importmap.rs\<close>). URLs and JSON text are handled by libraries
  the source calls: the operations on URLs are the record \<open>U\<close>, the JSON parser is an argument.
  A parsed JSON object lists its members in the order the library iterates them.
\<close>

section \<open>Libraries\<close>

record 'u urls =
  url_parse :: "string \<Rightarrow> 'u option"
  url_join :: "'u \<Rightarrow> string \<Rightarrow> 'u option"
  url_str :: "'u \<Rightarrow> string"
  url_scheme :: "'u \<Rightarrow> string"

datatype json =
    JNull
  | JBool bool
  | JNumber string
  | JString string
  | JArray "json list"
  | JObject "(string \<times> json) list"

fun as_str :: "json \<Rightarrow> string option" where
  "as_str (JString s) = Some s"
| "as_str _ = None"

fun as_object :: "json \<Rightarrow> (string \<times> json) list option" where
  "as_object (JObject ms) = Some ms"
| "as_object _ = None"

section \<open>Maps\<close>

type_synonym 'u specifier_map = "(string \<times> 'u option) list"

record 'u import_map =
  im_imports :: "'u specifier_map"
  im_scopes :: "(string \<times> 'u specifier_map) list"

definition url_like :: "'u urls \<Rightarrow> string \<Rightarrow> 'u \<Rightarrow> 'u option" where
  "url_like U spec base =
     (if has_prefix spec ''/'' \<or> has_prefix spec ''./'' \<or> has_prefix spec ''../''
      then url_join U base spec
      else url_parse U spec)"

text \<open>The stable sort by descending key.\<close>

fun insert_longest :: "string \<times> 'a \<Rightarrow> (string \<times> 'a) list \<Rightarrow> (string \<times> 'a) list" where
  "insert_longest x [] = [x]"
| "insert_longest x (y # ys) = (if fst y \<le> fst x then x # y # ys else y # insert_longest x ys)"

definition sort_longest_first :: "(string \<times> 'a) list \<Rightarrow> (string \<times> 'a) list" where
  "sort_longest_first xs = foldr insert_longest xs []"

definition specifier_entry :: "'u urls \<Rightarrow> 'u \<Rightarrow> string \<times> json \<Rightarrow> string \<times> 'u option" where
  "specifier_entry U base = (\<lambda>(key, value).
     let key = (case url_like U key base of Some u \<Rightarrow> url_str U u | None \<Rightarrow> key);
         addr = (case as_str value of Some v \<Rightarrow> url_like U v base | None \<Rightarrow> None);
         addr = (case addr of
                   None \<Rightarrow> None
                 | Some a \<Rightarrow>
                     if \<not> has_suffix key ''/'' \<or> has_suffix (url_str U a) ''/'' then Some a else None)
     in (key, addr))"

definition specifier_map :: "'u urls \<Rightarrow> (string \<times> json) list \<Rightarrow> 'u \<Rightarrow> 'u specifier_map" where
  "specifier_map U obj base =
     sort_longest_first (map (specifier_entry U base) (filter (\<lambda>(key, _). key \<noteq> []) obj))"

definition scope_entry :: "'u urls \<Rightarrow> 'u \<Rightarrow> string \<times> json \<Rightarrow> (string \<times> 'u specifier_map) option" where
  "scope_entry U base = (\<lambda>(prefix, v).
     case (url_join U base prefix, as_object v) of
       (Some p, Some m) \<Rightarrow> Some (url_str U p, specifier_map U m base)
     | _ \<Rightarrow> None)"

definition get_object :: "string \<Rightarrow> (string \<times> json) list \<Rightarrow> (string \<times> json) list option" where
  "get_object name ms = (case map_of ms name of None \<Rightarrow> None | Some v \<Rightarrow> as_object v)"

definition parse_map :: "'u urls \<Rightarrow> (string \<Rightarrow> json option) \<Rightarrow> string \<Rightarrow> string \<Rightarrow> 'u import_map option" where
  "parse_map U from_str json base =
     (case url_parse U base of
        None \<Rightarrow> None
      | Some base \<Rightarrow>
          (case from_str json of
             None \<Rightarrow> None
           | Some v \<Rightarrow>
               (case as_object v of
                  None \<Rightarrow> None
                | Some members \<Rightarrow>
                    Some \<lparr>im_imports = (case get_object ''imports'' members of
                            Some m \<Rightarrow> specifier_map U m base | None \<Rightarrow> []),
                          im_scopes = sort_longest_first (case get_object ''scopes'' members of
                            Some s \<Rightarrow> List.map_filter (scope_entry U base) s | None \<Rightarrow> [])\<rparr>)))"

section \<open>Merging\<close>

text \<open>The entries of a later map whose key is not there yet, one after the other.\<close>

fun add_missing :: "(string \<times> 'a) list \<Rightarrow> (string \<times> 'a) list \<Rightarrow> (string \<times> 'a) list" where
  "add_missing mine [] = mine"
| "add_missing mine ((k, v) # other) =
     (if list_ex (\<lambda>(e, _). e = k) mine then add_missing mine other
      else add_missing (mine @ [(k, v)]) other)"

definition has_key :: "string \<Rightarrow> (string \<times> 'a) list \<Rightarrow> bool" where
  "has_key p xs = list_ex (\<lambda>(e, _). e = p) xs"

fun merge_scopes ::
  "(string \<times> 'u specifier_map) list \<Rightarrow> (string \<times> 'u specifier_map) list \<Rightarrow> (string \<times> 'u specifier_map) list" where
  "merge_scopes mine [] = mine"
| "merge_scopes mine ((p, m) # other) =
     merge_scopes
       (if has_key p mine
        then upd_first (\<lambda>(e, _). e = p) (\<lambda>(e, my). (e, sort_longest_first (add_missing my m))) mine
        else mine @ [(p, m)]) other"

definition merge_maps :: "'u import_map \<Rightarrow> 'u import_map \<Rightarrow> 'u import_map" where
  "merge_maps mine other =
     \<lparr>im_imports = sort_longest_first (add_missing (im_imports mine) (im_imports other)),
      im_scopes = sort_longest_first (merge_scopes (im_scopes mine) (im_scopes other))\<rparr>"

section \<open>Resolving\<close>

definition special_scheme :: "'u urls \<Rightarrow> 'u option \<Rightarrow> bool" where
  "special_scheme U as_url =
     (case as_url of
        None \<Rightarrow> True
      | Some u \<Rightarrow> List.member [''http'', ''https'', ''ftp'', ''ws'', ''wss'', ''file''] (url_scheme U u))"

text \<open>\<open>Some None\<close> is a mapping that resolves to an error.\<close>

fun match_in :: "'u urls \<Rightarrow> string \<Rightarrow> 'u option \<Rightarrow> 'u specifier_map \<Rightarrow> string option option" where
  "match_in U normalized as_url [] = None"
| "match_in U normalized as_url ((key, addr) # rest) =
     (if key = normalized then Some (map_option (url_str U) addr)
      else if has_suffix key ''/'' \<and> has_prefix normalized key \<and> special_scheme U as_url then
        (case addr of
           None \<Rightarrow> Some None
         | Some a \<Rightarrow>
             Some (case url_join U a (drop (length key) normalized) of
                     None \<Rightarrow> None
                   | Some u \<Rightarrow> if has_prefix (url_str U u) (url_str U a) then Some (url_str U u) else None))
      else match_in U normalized as_url rest)"

definition scope_applies :: "string \<Rightarrow> string \<Rightarrow> bool" where
  "scope_applies prefix base \<longleftrightarrow> prefix = base \<or> (has_suffix prefix ''/'' \<and> has_prefix base prefix)"

fun match_scopes ::
  "'u urls \<Rightarrow> string \<Rightarrow> string \<Rightarrow> 'u option \<Rightarrow> (string \<times> 'u specifier_map) list \<Rightarrow> string option option" where
  "match_scopes U base normalized as_url [] = None"
| "match_scopes U base normalized as_url ((prefix, scope) # scopes) =
     (case (if scope_applies prefix base then match_in U normalized as_url scope else None) of
        Some r \<Rightarrow> Some r
      | None \<Rightarrow> match_scopes U base normalized as_url scopes)"

definition resolve :: "'u urls \<Rightarrow> 'u import_map option \<Rightarrow> string \<Rightarrow> string \<Rightarrow> string option" where
  "resolve U imap base spec =
     (case url_parse U base of
        None \<Rightarrow> None
      | Some base_url \<Rightarrow>
          let as_url = url_like U spec base_url;
              normalized = (case as_url of Some u \<Rightarrow> url_str U u | None \<Rightarrow> spec);
              found = (case imap of
                 None \<Rightarrow> None
               | Some m \<Rightarrow>
                   (case match_scopes U (url_str U base_url) normalized as_url (im_scopes m) of
                      Some r \<Rightarrow> Some r
                    | None \<Rightarrow> match_in U normalized as_url (im_imports m)))
          in case found of
               Some r \<Rightarrow> r
             | None \<Rightarrow> map_option (url_str U) as_url)"

section \<open>Sorting\<close>


lemma set_insert_longest: "set (insert_longest x xs) = insert x (set xs)"
  by (induction x xs rule: insert_longest.induct) auto



lemma set_sort_longest [simp]: "set (sort_longest_first xs) = set xs"
  unfolding sort_longest_first_def by (induction xs) (auto simp: set_insert_longest)

lemma map_of_insert_longest: "map_of (insert_longest (k, v) xs) = (map_of xs)(k \<mapsto> v)"
  by (induction "(k, v)" xs rule: insert_longest.induct) (auto simp: fun_eq_iff)

lemma map_of_sort_longest [simp]: "map_of (sort_longest_first xs) = map_of xs"
  unfolding sort_longest_first_def
  by (induction xs) (auto simp: map_of_insert_longest)

section \<open>Merging keeps the earlier definitions\<close>

lemma list_ex_key: "list_ex (\<lambda>(e, _). e = k) xs \<longleftrightarrow> map_of xs k \<noteq> None"
  by (induction xs) auto

lemma map_of_add_missing: "map_of (add_missing mine other) = map_of other ++ map_of mine"
proof (induction mine other rule: add_missing.induct)
  case (2 mine k v other)
  then show ?case
    by (auto simp: list_ex_key map_add_def fun_eq_iff split: option.splits)
qed simp

lemma map_of_upd_first:
  "map_of (upd_first (\<lambda>(e, _). e = p) (\<lambda>(e, my). (e, f my)) xs) k =
    (if k = p then map_option f (map_of xs k) else map_of xs k)"
  by (induction xs) auto

lemma map_of_merge_scopes:
  assumes "distinct (map fst other)"
  shows "map_of (merge_scopes mine other) p =
    (case map_of other p of
       None \<Rightarrow> map_of mine p
     | Some m \<Rightarrow> Some (case map_of mine p of None \<Rightarrow> m | Some my \<Rightarrow> sort_longest_first (add_missing my m)))"
  using assms
proof (induction mine other rule: merge_scopes.induct)
  case (2 mine q m other)
  define mine' where "mine' = (if has_key q mine
      then upd_first (\<lambda>(e, _). e = q) (\<lambda>(e, my). (e, sort_longest_first (add_missing my m))) mine
      else mine @ [(q, m)])"
  have "map_of mine' p =
      (if p = q then Some (case map_of mine q of None \<Rightarrow> m | Some my \<Rightarrow> sort_longest_first (add_missing my m))
       else map_of mine p)"
    by (auto simp: mine'_def has_key_def list_ex_key map_of_upd_first map_add_def split: option.splits)
  moreover have "map_of other q = None"
    using 2(2) by (simp add: map_of_eq_None_iff)
  moreover have "merge_scopes mine ((q, m) # other) = merge_scopes mine' other"
    by (simp add: mine'_def)
  ultimately show ?case
    using 2(1) [folded mine'_def] 2(2) by (cases "p = q") (auto split: option.splits)
qed simp

text \<open>
  Merging keeps what the earlier map defines and adds only what it does not: a
  specifier keeps its first address, in the top level and in every scope.
\<close>

theorem merge_keeps_earlier_definitions:
  assumes "distinct (map fst (im_scopes other))"
  shows "map_of (im_imports (merge_maps mine other)) = map_of (im_imports other) ++ map_of (im_imports mine) \<and>
    (\<forall>p. map_option map_of (map_of (im_scopes (merge_maps mine other)) p) =
       (case (map_of (im_scopes mine) p, map_of (im_scopes other) p) of
          (None, None) \<Rightarrow> None
        | (Some m, None) \<Rightarrow> Some (map_of m)
        | (None, Some m') \<Rightarrow> Some (map_of m')
        | (Some m, Some m') \<Rightarrow> Some (map_of m' ++ map_of m)))"
  by (auto simp: merge_maps_def map_of_add_missing map_of_merge_scopes [OF assms] split: option.splits)

section \<open>The most specific key wins\<close>

definition key_matches :: "'u urls \<Rightarrow> string \<Rightarrow> 'u option \<Rightarrow> string \<Rightarrow> bool" where
  "key_matches U normalized as_url key \<longleftrightarrow>
     key = normalized \<or> (has_suffix key ''/'' \<and> has_prefix normalized key \<and> special_scheme U as_url)"

definition mapped :: "'u urls \<Rightarrow> string \<Rightarrow> string \<Rightarrow> 'u option \<Rightarrow> string option" where
  "mapped U normalized key addr =
     (case addr of
        None \<Rightarrow> None
      | Some a \<Rightarrow>
          if key = normalized then Some (url_str U a)
          else
            (case url_join U a (drop (length key) normalized) of
               None \<Rightarrow> None
             | Some u \<Rightarrow> if has_prefix (url_str U u) (url_str U a) then Some (url_str U u) else None))"

lemma match_in_find:
  "match_in U n u m =
    map_option (\<lambda>(key, addr). mapped U n key addr) (find (\<lambda>(key, _). key_matches U n u key) m)"
  by (induction U n u m rule: match_in.induct)
    (auto simp: key_matches_def mapped_def split: option.splits)





text \<open>
  A mapping never leads out of the address it names: whatever a specifier map
  yields for a specifier is an address of the map or lies below one.
\<close>

theorem mapping_stays_below_its_address:
  assumes "match_in U n u m = Some (Some r)"
  shows "\<exists>(k, addr) \<in> set m. case addr of None \<Rightarrow> False | Some a \<Rightarrow> has_prefix r (url_str U a)"
proof -
  from assms obtain k addr where f: "find (\<lambda>(key, _). key_matches U n u key) m = Some (k, addr)"
    and r: "mapped U n k addr = Some r"
    by (auto simp: match_in_find)
  from f have "(k, addr) \<in> set m"
    by (auto simp: find_Some_iff in_set_conv_nth)
  moreover from r have "case addr of None \<Rightarrow> False | Some a \<Rightarrow> has_prefix r (url_str U a)"
    by (auto simp: mapped_def split: option.splits if_splits)
  ultimately show ?thesis
    by auto
qed

section \<open>A concrete library\<close>

text \<open>URLs as strings below one host.\<close>

definition demo_urls :: "string urls" where
  "demo_urls = \<lparr>
     url_parse = (\<lambda>s. if has_prefix s ''https:'' then Some s else None),
     url_join = (\<lambda>b s. Some (if has_prefix s ''/'' then ''https://h'' @ s else b @ s)),
     url_str = (\<lambda>u. u),
     url_scheme = (\<lambda>u. ''https'')\<rparr>"

definition demo_json :: "string \<Rightarrow> json option" where
  "demo_json s = Some (JObject [(''imports'', JObject [(''a/'', JString ''/x/''), (''a/b/'', JString ''/y/'')])])"

definition demo_map :: "string import_map" where
  "demo_map = \<lparr>im_imports = [(''a/b/'', Some ''https://h/y/''), (''a/'', Some ''https://h/x/'')], im_scopes = []\<rparr>"

lemma demo_map: "parse_map demo_urls demo_json [] ''https://h/'' = Some demo_map"
  by code_simp


theorem mapping_stays_below_its_address_witness:
  "has_prefix ''https://h/y/c'' ''https://h/y/'' \<or> has_prefix ''https://h/y/c'' ''https://h/x/''"
proof -
  have "match_in demo_urls ''a/b/c'' None (im_imports demo_map) = Some (Some ''https://h/y/c'')"
    by code_simp
  from mapping_stays_below_its_address [OF this] show ?thesis
    by (auto simp: demo_map_def demo_urls_def)
qed

theorem merge_keeps_earlier_definitions_witness:
  "map_of (im_imports (merge_maps demo_map \<lparr>im_imports = [(''a/'', None), (''c'', None)], im_scopes = []\<rparr>)) ''a/'' =
    Some (Some ''https://h/x/'')"
  using merge_keeps_earlier_definitions
    [of "\<lparr>im_imports = [(''a/'', None), (''c'', None)], im_scopes = []\<rparr>" demo_map]
  by (simp add: demo_map_def map_add_def)

end
