(* ===== verification/ClientHints.thy ===== *)
theory ClientHints
  imports Text "HOL-Library.AList" "HOL-Library.Monad_Syntax"
begin

unbundle bit_operations_syntax

text \<open>
  Client hints (\<open>crates/net/src/client_hints.rs\<close>): which hints an \<open>Accept-CH\<close> value asks
  for, their values, the store of preferences, and the order in which Blink's header map
  yields names: a hash table with \<open>rapidhash\<close>, quadratic probing and doubling. A slice out of
  range, and a probe sequence that finds no free slot, are the result \<open>None\<close>; the lemmas
  show that neither happens and that the order is a permutation of the names.
\<close>

section \<open>Names and values\<close>

record hint_values =
  hv_full_version :: string
  hv_arch :: string
  hv_bitness :: string
  hv_model :: string
  hv_platform_version :: string
  hv_device_memory :: nat
  hv_viewport_width :: nat
  hv_viewport_height :: nat

definition default_hints :: hint_values where
  "default_hints = \<lparr>hv_full_version = ''151.0.7922.173'', hv_arch = ''x86'', hv_bitness = ''64'',
     hv_model = [], hv_platform_version = [], hv_device_memory = 8, hv_viewport_width = 1920,
     hv_viewport_height = 969\<rparr>"

definition base_hints :: "string list" where
  "base_hints = [''sec-ch-ua'', ''sec-ch-ua-mobile'', ''sec-ch-ua-platform'']"

definition navigation_order :: "string list" where
  "navigation_order =
    [''device-memory'', ''sec-ch-device-memory'', ''dpr'', ''sec-ch-dpr'', ''viewport-width'',
     ''sec-ch-viewport-width'', ''sec-ch-viewport-height'', ''rtt'', ''downlink'', ''ect'', ''sec-ch-ua'',
     ''sec-ch-ua-mobile'', ''sec-ch-ua-full-version'', ''sec-ch-ua-arch'', ''sec-ch-ua-platform'',
     ''sec-ch-ua-platform-version'', ''sec-ch-ua-model'', ''sec-ch-ua-bitness'', ''sec-ch-ua-wow64'',
     ''sec-ch-ua-full-version-list'', ''sec-ch-ua-form-factors'', ''sec-ch-prefers-color-scheme'',
     ''sec-ch-prefers-reduced-motion'', ''sec-ch-prefers-reduced-transparency'']"

definition blink_insert_order :: "string list" where
  "blink_insert_order =
    [''device-memory'', ''sec-ch-device-memory'', ''rtt'', ''downlink'', ''ect'', ''sec-ch-ua'',
     ''sec-ch-ua-mobile'', ''sec-ch-ua-arch'', ''sec-ch-ua-platform'', ''sec-ch-ua-platform-version'',
     ''sec-ch-ua-model'', ''sec-ch-ua-full-version'', ''sec-ch-ua-full-version-list'', ''sec-ch-ua-bitness'',
     ''sec-ch-ua-wow64'', ''sec-ch-ua-form-factors'', ''sec-ch-prefers-reduced-transparency'',
     ''sec-ch-prefers-reduced-motion'', ''sec-ch-prefers-color-scheme'', ''dpr'', ''sec-ch-dpr'',
     ''viewport-width'', ''sec-ch-viewport-width'', ''sec-ch-viewport-height'']"

definition known :: "string \<Rightarrow> string option" where
  "known name = (let l = to_ascii_lowercase (trim name) in find (\<lambda>n. n = l) navigation_order)"

fun collect_hints :: "string list \<Rightarrow> string list \<Rightarrow> string list" where
  "collect_hints out [] = out"
| "collect_hints out (part # parts) =
     (case known part of
        Some n \<Rightarrow>
          if \<not> List.member base_hints n \<and> \<not> List.member out n then collect_hints (out @ [n]) parts
          else collect_hints out parts
      | None \<Rightarrow> collect_hints out parts)"

definition parse_hints :: "string \<Rightarrow> string list" where
  "parse_hints value = collect_hints [] (split_on CHR '','' value)"

definition quoted :: "string \<Rightarrow> string" where
  "quoted s = CHR 0x22 # s @ [CHR 0x22]"

definition hint_value :: "hint_values \<Rightarrow> string \<Rightarrow> string option" where
  "hint_value v name =
     (if name = ''device-memory'' \<or> name = ''sec-ch-device-memory'' then Some (nat_str (hv_device_memory v))
      else if name = ''dpr'' \<or> name = ''sec-ch-dpr'' then Some ''1''
      else if name = ''viewport-width'' \<or> name = ''sec-ch-viewport-width'' then Some (nat_str (hv_viewport_width v))
      else if name = ''sec-ch-viewport-height'' then Some (nat_str (hv_viewport_height v))
      else if name = ''rtt'' then Some ''50''
      else if name = ''downlink'' then Some ''1.55''
      else if name = ''ect'' then Some ''4g''
      else if name = ''sec-ch-ua-full-version'' then Some (quoted (hv_full_version v))
      else if name = ''sec-ch-ua-arch'' then Some (quoted (hv_arch v))
      else if name = ''sec-ch-ua-platform-version'' then Some (quoted (hv_platform_version v))
      else if name = ''sec-ch-ua-model'' then Some (quoted (hv_model v))
      else if name = ''sec-ch-ua-bitness'' then Some (quoted (hv_bitness v))
      else if name = ''sec-ch-ua-wow64'' then Some ''?0''
      else if name = ''sec-ch-ua-full-version-list'' then
        Some (quoted ''Not=A?Brand'' @ '';v='' @ quoted ''99.0.0.0'' @ '', '' @ quoted ''Google Chrome'' @ '';v='' @
          quoted (hv_full_version v) @ '', '' @ quoted ''Chromium'' @ '';v='' @ quoted (hv_full_version v))
      else if name = ''sec-ch-ua-form-factors'' then Some (quoted ''Desktop'')
      else if name = ''sec-ch-prefers-color-scheme'' then Some ''light''
      else if name = ''sec-ch-prefers-reduced-motion'' \<or> name = ''sec-ch-prefers-reduced-transparency'' then
        Some ''no-preference''
      else None)"

section \<open>The store\<close>

type_synonym hint_store = "(string \<times> string list) list"

definition hs_get :: "string \<Rightarrow> hint_store \<Rightarrow> string list" where
  "hs_get origin st = (case map_of st origin of Some hs \<Rightarrow> hs | None \<Rightarrow> [])"

definition hs_set :: "string \<Rightarrow> string list \<Rightarrow> hint_store \<Rightarrow> hint_store" where
  "hs_set origin hints st = (if hints = [] then AList.delete origin st else AList.update origin hints st)"

definition hs_snapshot :: "hint_store \<Rightarrow> (string \<times> string list) list" where
  "hs_snapshot st = st"

fun join :: "'a list \<Rightarrow> 'a list list \<Rightarrow> 'a list" where
  "join sep [] = []"
| "join sep [x] = x"
| "join sep (x # y # xs) = x @ sep @ join sep (y # xs)"

definition hs_restore :: "(string \<times> string list) list \<Rightarrow> hint_store \<Rightarrow> hint_store" where
  "hs_restore saved st = fold (\<lambda>(origin, names). hs_set origin (parse_hints (join '','' names))) saved st"

text \<open>Hints only go to potentially trustworthy origins.\<close>

definition secure :: "string \<Rightarrow> bool" where
  "secure url =
     (if has_prefix url ''https://'' then True
      else
        let host = (case strip_prefix ''http://'' url of
                      Some r \<Rightarrow> takeWhile (\<lambda>c. \<not> List.member ''/?#'' c) r
                    | None \<Rightarrow> []);
            host = (case rsplit_once CHR '':'' host of Some (h, _) \<Rightarrow> h | None \<Rightarrow> host)
        in host = ''localhost'' \<or> has_suffix host ''.localhost'' \<or> host = ''127.0.0.1'' \<or> host = ''[::1]'')"

section \<open>The hash\<close>

definition rapid_seed :: u64 where
  "rapid_seed = 0xbdd89aa982704029"

definition secret0 :: u64 where "secret0 = 0x2d358dccaa6c78a5"
definition secret1 :: u64 where "secret1 = 0x8bb84b93962eacc9"
definition secret2 :: u64 where "secret2 = 0x4b33a62ed433d4a3"

definition mul128 :: "u64 \<Rightarrow> u64 \<Rightarrow> u64 \<times> u64" where
  "mul128 a b = (let r = (ucast a * ucast b :: 128 word) in (ucast r, ucast (drop_bit 64 r)))"

definition mix :: "u64 \<Rightarrow> u64 \<Rightarrow> u64" where
  "mix a b = (let (lo, hi) = mul128 a b in lo XOR hi)"

fun from_le :: "bytes \<Rightarrow> u64" where
  "from_le [] = 0"
| "from_le (b # bs) = ucast b OR push_bit 8 (from_le bs)"

definition read_le :: "nat \<Rightarrow> bytes \<Rightarrow> nat \<Rightarrow> u64 option" where
  "read_le n p i = (if i + n \<le> length p then Some (from_le (take n (drop i p))) else None)"

abbreviation read64 :: "bytes \<Rightarrow> nat \<Rightarrow> u64 option" where
  "read64 \<equiv> read_le 8"

abbreviation read32 :: "bytes \<Rightarrow> nat \<Rightarrow> u64 option" where
  "read32 \<equiv> read_le 4"

text \<open>\<open>mix(read64(p, i) ^ x, read64(p, i + 8) ^ y)\<close>\<close>

definition mix_at :: "bytes \<Rightarrow> nat \<Rightarrow> u64 \<Rightarrow> u64 \<Rightarrow> u64 option" where
  "mix_at p i x y = do {
     a \<leftarrow> read64 p i;
     b \<leftarrow> read64 p (i + 8);
     Some (mix (a XOR x) (b XOR y))
   }"

text \<open>The loop over blocks of 48 bytes; \<open>i\<close> bytes are left at \<open>off\<close>.\<close>

function rapid_loop :: "bytes \<Rightarrow> nat \<Rightarrow> nat \<Rightarrow> u64 \<Rightarrow> u64 \<Rightarrow> u64 \<Rightarrow> (nat \<times> nat \<times> u64) option" where
  "rapid_loop p i off seed see1 see2 =
     Option.bind (mix_at p off secret0 seed) (\<lambda>seed.
     Option.bind (mix_at p (off + 16) secret1 see1) (\<lambda>see1.
     Option.bind (mix_at p (off + 32) secret2 see2) (\<lambda>see2.
       if i - 48 < 48 then Some (i - 48, off + 48, seed XOR (see1 XOR see2))
       else rapid_loop p (i - 48) (off + 48) seed see1 see2)))"
  by pat_completeness auto

termination rapid_loop
  by (relation "measure (\<lambda>(p, i, off, seed, see1, see2). i)") auto

declare rapid_loop.simps [simp del]

definition rapid_delta :: "nat \<Rightarrow> nat" where
  "rapid_delta n = unat (drop_bit (n div 8) (of_nat n AND 24 :: u64))"

definition rapid_short :: "bytes \<Rightarrow> (u64 \<times> u64) option" where
  "rapid_short p =
     (let n = length p in
      if 4 \<le> n then
        let plast = n - 4; delta = rapid_delta n in do {
          x \<leftarrow> read32 p 0;
          y \<leftarrow> read32 p plast;
          z \<leftarrow> read32 p delta;
          w \<leftarrow> (if delta \<le> plast then read32 p (plast - delta) else None);
          Some (push_bit 32 x OR y, push_bit 32 z OR w)
        }
      else if 0 < n then
        Some (push_bit 56 (ucast (p ! 0)) OR push_bit 32 (ucast (p ! (n div 2))) OR ucast (p ! (n - 1)), 0)
      else Some (0, 0))"

definition rapid_tail :: "bytes \<Rightarrow> nat \<Rightarrow> nat \<Rightarrow> u64 \<Rightarrow> u64 option" where
  "rapid_tail p i off seed =
     (if 16 < i then do {
        seed \<leftarrow> mix_at p off secret2 (seed XOR secret1);
        if 32 < i then mix_at p (off + 16) secret2 seed else Some seed
      } else Some seed)"

definition rapid_long :: "bytes \<Rightarrow> u64 \<Rightarrow> (u64 \<times> u64 \<times> u64) option" where
  "rapid_long p seed = do {
     (i, off, seed) \<leftarrow> (if 48 < length p then rapid_loop p (length p) 0 seed seed seed
                         else Some (length p, 0, seed));
     seed \<leftarrow> rapid_tail p i off seed;
     a \<leftarrow> (if 16 \<le> off + i then read64 p (off + i - 16) else None);
     b \<leftarrow> (if 8 \<le> off + i then read64 p (off + i - 8) else None);
     Some (seed, a, b)
   }"

definition rapid_finish :: "nat \<Rightarrow> u64 \<Rightarrow> u64 \<Rightarrow> u64 \<Rightarrow> u64" where
  "rapid_finish n seed a b =
     (let (lo, hi) = mul128 (a XOR secret1) (b XOR seed)
      in mix (lo XOR secret0 XOR of_nat n) (hi XOR secret1))"

definition rapidhash :: "bytes \<Rightarrow> u64 option" where
  "rapidhash p =
     (let n = length p;
          seed = rapid_seed XOR (mix (rapid_seed XOR secret0) secret1 XOR of_nat n)
      in if n \<le> 16 then map_option (\<lambda>(a, b). rapid_finish n seed a b) (rapid_short p)
         else map_option (\<lambda>(seed, a, b). rapid_finish n seed a b) (rapid_long p seed))"

definition fold_hash :: "string \<Rightarrow> u32 option" where
  "fold_hash name =
     map_option (\<lambda>h. let h = ucast (h AND 0xFFFFFF) :: u32 in if h = 0 then 0x800000 else h)
       (rapidhash (concat (map (\<lambda>c. [of_char (lower_char c), 0]) name)))"

section \<open>The table\<close>

type_synonym table = "string option list"

definition names_in :: "table \<Rightarrow> string list" where
  "names_in t = List.map_filter (\<lambda>x. x) t"

text \<open>The loop of \<open>place\<close>; as many rounds as slots are enough.\<close>

fun free_slot :: "nat \<Rightarrow> table \<Rightarrow> nat \<Rightarrow> nat \<Rightarrow> nat option" where
  "free_slot 0 t i probe = None"
| "free_slot (Suc n) t i probe =
     (if t ! i = None then Some i
      else free_slot n t ((i + (probe + 1)) AND (length t - 1)) (probe + 1))"

definition place :: "string \<Rightarrow> table \<Rightarrow> table option" where
  "place name t = do {
     h \<leftarrow> fold_hash name;
     i \<leftarrow> free_slot (length t) t (unat (h AND of_nat (length t - 1))) 0;
     Some (t[i := Some name])
   }"

fun place_all :: "string list \<Rightarrow> table \<Rightarrow> table option" where
  "place_all [] t = Some t"
| "place_all (n # ns) t = Option.bind (place n t) (place_all ns)"

fun blink_insert :: "string list \<Rightarrow> table \<Rightarrow> nat \<Rightarrow> table option" where
  "blink_insert [] t count = Some t"
| "blink_insert (name # names) t count =
     (if List.member (names_in t) name then blink_insert names t count
      else Option.bind (place name t) (\<lambda>t.
        if (count + 1) * 2 \<ge> length t
        then Option.bind (place_all (names_in t) (replicate (length t * 2) None)) (\<lambda>t.
          blink_insert names t (count + 1))
        else blink_insert names t (count + 1)))"

definition blink_map_order :: "string list \<Rightarrow> string list option" where
  "blink_map_order names = map_option names_in (blink_insert names (replicate 8 None) 0)"

section \<open>The hash never leaves its input\<close>

lemma read_le_Some: "i + n \<le> length p \<Longrightarrow> \<exists>x. read_le n p i = Some x"
  by (simp add: read_le_def)

lemma mix_at_Some: "i + 16 \<le> length p \<Longrightarrow> \<exists>x. mix_at p i x' y' = Some x"
  using read_le_Some [of i 8 p] read_le_Some [of "i + 8" 8 p] by (auto simp: mix_at_def)

lemma rapid_loop_Some:
  assumes "i + off = length p" "48 \<le> i"
  shows "\<exists>i' off' s. rapid_loop p i off seed see1 see2 = Some (i', off', s) \<and> i' + off' = length p \<and> 48 \<le> off'"
  using assms
proof (induction p i off seed see1 see2 rule: rapid_loop.induct)
  case (1 p i off seed see1 see2)
  obtain a b c where abc: "mix_at p off secret0 seed = Some a" "mix_at p (off + 16) secret1 see1 = Some b"
    "mix_at p (off + 32) secret2 see2 = Some c"
    using mix_at_Some [of off p] mix_at_Some [of "off + 16" p] mix_at_Some [of "off + 32" p] 1(2,3) by fastforce
  show ?case
  proof (cases "i - 48 < 48")
    case True
    with abc 1(2,3) show ?thesis
      by (subst rapid_loop.simps) simp
  next
    case False
    with 1(2,3) have "i - 48 + (off + 48) = length p" "48 \<le> i - 48"
      by simp_all
    from 1(1) [OF abc False this] obtain i' off' s where
      "rapid_loop p (i - 48) (off + 48) a b c = Some (i', off', s)" "i' + off' = length p" "48 \<le> off'"
      by blast
    with abc False show ?thesis
      by (subst rapid_loop.simps) simp
  qed
qed

lemma rapid_tail_Some:
  "i + off = length p \<Longrightarrow> \<exists>s. rapid_tail p i off seed = Some s"
  using mix_at_Some [of off p] mix_at_Some [of "off + 16" p] by (fastforce simp: rapid_tail_def)

lemma rapid_long_Some: "16 < length p \<Longrightarrow> \<exists>x. rapid_long p seed = Some x"
proof -
  assume n: "16 < length p"
  obtain i off s where l: "(if 48 < length p then rapid_loop p (length p) 0 seed seed seed
      else Some (length p, 0, seed)) = Some (i, off, s)" "i + off = length p"
    using rapid_loop_Some [of "length p" 0 p seed seed seed] by (cases "48 < length p") auto
  obtain s' where t: "rapid_tail p i off s = Some s'"
    using rapid_tail_Some [OF l(2)] by blast
  from l(2) n have "16 \<le> off + i" "off + i - 16 + 8 \<le> length p" "off + i - 8 + 8 \<le> length p"
    by simp_all
  moreover from this(2,3) obtain a b where "read64 p (off + i - 16) = Some a" "read64 p (off + i - 8) = Some b"
    by (blast dest: read_le_Some)
  ultimately show ?thesis
    using l(1) t by (simp add: rapid_long_def)
qed

lemma rapid_short_Some: "length p \<le> 16 \<Longrightarrow> \<exists>x. rapid_short p = Some x"
proof -
  assume n: "length p \<le> 16"
  define d where "d = rapid_delta (length p)"
  show ?thesis
  proof (cases "4 \<le> length p")
    case True
    with n have "length p \<in> {4..16}"
      by simp
    moreover have "{4..16} = {4, 5, 6, 7, 8, 9, 10, 11, 12, 13, 14, 15, 16 :: nat}"
      by code_simp
    ultimately have "length p = 4 \<or> length p = 5 \<or> length p = 6 \<or> length p = 7 \<or> length p = 8 \<or> length p = 9 \<or>
        length p = 10 \<or> length p = 11 \<or> length p = 12 \<or> length p = 13 \<or> length p = 14 \<or> length p = 15 \<or> length p = 16"
      by simp
    then have d: "d \<le> length p - 4"
      unfolding d_def rapid_delta_def by (elim disjE) simp_all
    with True have "0 + 4 \<le> length p" "length p - 4 + 4 \<le> length p" "d + 4 \<le> length p"
      "length p - 4 - d + 4 \<le> length p"
      by simp_all
    then obtain x y z w where "read32 p 0 = Some x" "read32 p (length p - 4) = Some y" "read32 p d = Some z"
      "read32 p (length p - 4 - d) = Some w"
      by (meson read_le_Some)
    with True d show ?thesis
      by (simp add: rapid_short_def Let_def flip: d_def)
  qed (simp add: rapid_short_def Let_def)
qed

lemma rapidhash_Some: "\<exists>h. rapidhash p = Some h"
  using rapid_short_Some [of p] rapid_long_Some [of p] by (fastforce simp: rapidhash_def Let_def)

lemma fold_hash_Some: "\<exists>h. fold_hash name = Some h"
  using rapidhash_Some by (fastforce simp: fold_hash_def)

section \<open>Probing finds a free slot\<close>

text \<open>After \<open>j\<close> rounds the slot is \<open>i + j * (j + 1) / 2\<close>; these are distinct for \<open>j < 2 ^ k\<close>.\<close>

definition triangle :: "nat \<Rightarrow> nat" where
  "triangle j = j * (j + 1) div 2"

lemma triangle_double: "2 * triangle j = j * (j + 1)"
  by (simp add: triangle_def)

lemma triangle_Suc: "triangle (Suc j) = triangle j + Suc j"
  using triangle_double [of j] triangle_double [of "Suc j"] by simp

lemma triangle_0 [simp]: "triangle 0 = 0"
  by (simp add: triangle_def)

lemma pow2_dvd_odd_mult:
  fixes a b :: nat
  assumes "2 ^ k dvd a * b" "odd a"
  shows "2 ^ k dvd b"
proof -
  have "coprime (2 ^ k) a"
    using assms(2) by (simp add: coprime_left_2_iff_odd)
  with assms(1) show ?thesis
    by (simp add: coprime_dvd_mult_right_iff)
qed

lemma triangle_inj:
  assumes "i < j" "j < 2 ^ k"
  shows "(a + triangle i) mod 2 ^ k \<noteq> (a + triangle j) mod 2 ^ k"
proof
  assume eq: "(a + triangle i) mod 2 ^ k = (a + triangle j) mod 2 ^ k"
  obtain d where j: "j = i + d" "0 < d"
    using assms(1) by (metis less_imp_add_positive)
  have diff: "2 * triangle j = 2 * triangle i + d * (i + j + 1)"
    using triangle_double [of i] triangle_double [of j] by (simp add: j algebra_simps)
  then have le: "triangle i \<le> triangle j"
    by simp
  have "(2 :: nat) ^ k dvd triangle j - triangle i"
    using eq le mod_eq_dvd_iff_nat [of "a + triangle i" "a + triangle j" "2 ^ k"] by simp
  then have "2 * 2 ^ k dvd 2 * (triangle j - triangle i)"
    by (rule mult_dvd_mono [OF dvd_refl])
  also have "2 * (triangle j - triangle i) = d * (i + j + 1)"
    using diff by simp
  finally have dvd: "2 ^ Suc k dvd d * (i + j + 1)"
    by simp
  have "odd d \<or> odd (i + j + 1)"
    using j by auto
  then have "2 ^ Suc k dvd i + j + 1 \<or> 2 ^ Suc k dvd d"
    using pow2_dvd_odd_mult [OF dvd] pow2_dvd_odd_mult [of "Suc k" "i + j + 1" d] dvd by (auto simp: mult.commute)
  then show False
    using assms j by (auto dest!: dvd_imp_le)
qed

lemma and_length_mask: "(x :: nat) AND (2 ^ k - 1) = x mod 2 ^ k"
  by (metis mask_eq_exp_minus_1 take_bit_eq_mask take_bit_eq_mod)

lemma free_slot_Some:
  assumes "length t = 2 ^ k" and "\<exists>x \<in> {j..<j + n}. t ! ((a + triangle x) mod 2 ^ k) = None"
  shows "\<exists>i < length t. free_slot n t ((a + triangle j) mod 2 ^ k) j = Some i \<and> t ! i = None"
  using assms(2)
proof (induction n arbitrary: j)
  case (Suc n)
  have step: "((a + triangle j) mod 2 ^ k + (j + 1)) AND (length t - 1) = (a + triangle (Suc j)) mod 2 ^ k"
    using mod_add_left_eq [of "a + triangle j" "2 ^ k" "j + 1"]
    by (simp only: assms(1) and_length_mask triangle_Suc [unfolded Suc_eq_plus1] Suc_eq_plus1 add.assoc)
  show ?case
  proof (cases "t ! ((a + triangle j) mod 2 ^ k) = None")
    case True
    then show ?thesis
      by (simp add: assms(1))
  next
    case False
    then have "\<exists>x \<in> {Suc j..<Suc j + n}. t ! ((a + triangle x) mod 2 ^ k) = None"
      using Suc.prems by (metis add_Suc_right add_Suc atLeastLessThan_iff le_antisym not_less_eq_eq)
    from Suc.IH [OF this] obtain i where
      i: "i < length t" "free_slot n t ((a + triangle (Suc j)) mod 2 ^ k) (Suc j) = Some i" "t ! i = None"
      by blast
    moreover have "free_slot (Suc n) t ((a + triangle j) mod 2 ^ k) j =
        free_slot n t ((a + triangle (Suc j)) mod 2 ^ k) (Suc j)"
      using False by (subst free_slot.simps) (simp only: step if_False Suc_eq_plus1)
    ultimately show ?thesis
      by auto
  qed
qed simp

lemma some_slot_reached:
  assumes "length t = 2 ^ k" and "\<exists>i < length t. t ! i = None"
  shows "\<exists>x \<in> {0..<2 ^ k}. t ! ((a + triangle x) mod 2 ^ k) = None"
proof -
  let ?f = "\<lambda>x. (a + triangle x) mod 2 ^ k"
  have "inj_on ?f {0..<2 ^ k}"
  proof (rule inj_onI)
    fix x y assume "x \<in> {0..<2 ^ k}" "y \<in> {0..<2 ^ k}" "?f x = ?f y"
    then show "x = y"
      using triangle_inj [of x y k a] triangle_inj [of y x k a] by (cases x y rule: linorder_cases) auto
  qed
  then have "card (?f ` {0..<2 ^ k}) = card {0..<2 ^ k :: nat}"
    by (rule card_image)
  then have "?f ` {0..<2 ^ k} = {0..<2 ^ k}"
    by (intro card_subset_eq) auto
  with assms show ?thesis
    by (metis (no_types, lifting) atLeastLessThan_iff image_iff le0)
qed

lemma names_in_simps [simp]:
  "names_in [] = []" "names_in (None # t) = names_in t" "names_in (Some n # t) = n # names_in t"
  "names_in (t @ t') = names_in t @ names_in t'" "names_in (replicate k None) = []"
  by (simp_all add: names_in_def List.map_filter_def)

lemma length_names_in: "length (names_in t) \<le> length t"
  by (simp add: names_in_def List.map_filter_def)

lemma free_slot_exists: "length (names_in t) < length t \<Longrightarrow> \<exists>i < length t. t ! i = None"
proof (induction t)
  case (Cons x t)
  show ?case
  proof (cases x)
    case None
    then show ?thesis
      by (intro exI [of _ 0]) simp
  next
    case (Some n)
    with Cons obtain i where "i < length t" "t ! i = None"
      by auto
    then show ?thesis
      by (intro exI [of _ "Suc i"]) simp
  qed
qed simp

lemma place_Some:
  assumes "length t = 2 ^ k" and "length (names_in t) < length t"
  shows "\<exists>t'. place name t = Some t' \<and> length t' = length t \<and> length (names_in t') = length (names_in t) + 1 \<and>
    set (names_in t') = insert name (set (names_in t)) \<and>
    (name \<notin> set (names_in t) \<longrightarrow> distinct (names_in t) \<longrightarrow> distinct (names_in t'))"
proof -
  obtain h where h: "fold_hash name = Some h"
    using fold_hash_Some by blast
  define a where "a = unat (h AND of_nat (length t - 1))"
  have "a \<le> unat (of_nat (length t - 1) :: u32)"
    unfolding a_def by (simp add: word_and_le1 flip: word_le_nat_alt)
  also have "\<dots> \<le> length t - 1"
    by (simp add: unat_of_nat)
  finally have a: "(a + triangle 0) mod 2 ^ k = a"
    using assms by simp
  have "\<exists>x \<in> {0..<0 + 2 ^ k}. t ! ((a + triangle x) mod 2 ^ k) = None"
    using some_slot_reached [OF assms(1) free_slot_exists [OF assms(2)]] by simp
  from free_slot_Some [OF assms(1) this] a obtain i where
    i: "i < length t" "free_slot (length t) t a 0 = Some i" "t ! i = None"
    by (auto simp: assms(1))
  have "place name t = Some (t[i := Some name])"
    using h i(2) by (simp add: place_def a_def)
  moreover have t: "t = take i t @ None # drop (Suc i) t"
    using i by (metis id_take_nth_drop)
  have "names_in t = names_in (take i t) @ names_in (drop (Suc i) t)"
    using arg_cong [OF t, of names_in] by simp
  moreover have "names_in (t[i := Some name]) = names_in (take i t) @ name # names_in (drop (Suc i) t)"
    using i(1) by (simp add: upd_conv_take_nth_drop)
  ultimately show ?thesis
    by auto
qed

lemma place_all_Some:
  assumes "length t = 2 ^ k" and "length (names_in t) + length ns \<le> length t"
    and "distinct (names_in t @ ns)"
  shows "\<exists>t'. place_all ns t = Some t' \<and> length t' = length t \<and>
    length (names_in t') = length (names_in t) + length ns \<and> distinct (names_in t') \<and>
    set (names_in t') = set (names_in t) \<union> set ns"
  using assms
proof (induction ns arbitrary: t)
  case (Cons n ns)
  then obtain t1 where t1: "place n t = Some t1" "length t1 = length t" "length (names_in t1) = length (names_in t) + 1"
    "set (names_in t1) = insert n (set (names_in t))" "distinct (names_in t1)"
    using place_Some [of t k n] by auto
  with Cons.prems have "length t1 = 2 ^ k" "length (names_in t1) + length ns \<le> length t1" "distinct (names_in t1 @ ns)"
    by auto
  from Cons.IH [OF this] t1 show ?case
    by auto
qed simp

lemma blink_insert_Some:
  assumes "length t = 2 ^ k" "0 < k" "count = length (names_in t)" "2 * count < length t" "distinct (names_in t)"
  shows "\<exists>t'. blink_insert names t count = Some t' \<and> distinct (names_in t') \<and>
    set (names_in t') = set (names_in t) \<union> set names"
  using assms
proof (induction names arbitrary: t count k)
  case (Cons name names)
  show ?case
  proof (cases "name \<in> set (names_in t)")
    case True
    with Cons show ?thesis
      by (auto simp: insert_absorb)
  next
    case False
    with Cons.prems place_Some [OF Cons.prems(1), of name] obtain t1 where
      t1: "place name t = Some t1" "length t1 = length t" "length (names_in t1) = count + 1"
      "set (names_in t1) = insert name (set (names_in t))" "distinct (names_in t1)"
      by auto
    show ?thesis
    proof (cases "(count + 1) * 2 \<ge> length t1")
      case True
      have "length (replicate (length t1 * 2) None) = 2 ^ Suc k"
        using t1(2) Cons.prems(1) by simp
      moreover have "count + 1 \<le> length t1 * 2"
        using t1(3) length_names_in [of t1] by simp
      ultimately obtain t2 where t2: "place_all (names_in t1) (replicate (length t1 * 2) None) = Some t2"
        "length t2 = 2 ^ Suc k" "length (names_in t2) = count + 1" "distinct (names_in t2)"
        "set (names_in t2) = set (names_in t1)"
        using place_all_Some [of "replicate (length t1 * 2) None" "Suc k" "names_in t1"] t1 by auto
      have "length t = 2 ^ k" "2 \<le> length t"
        using Cons.prems(1,2) by (simp_all add: self_le_power)
      then have "2 * (count + 1) < length t2"
        using Cons.prems(4) t2(2) by simp
      from Cons.IH [OF t2(2) _ _ this t2(4)] t1 t2 True False show ?thesis
        by auto
    next
      case notfull: False
      from Cons.IH [of t1 k "count + 1"] Cons.prems t1 notfull False show ?thesis
        by auto
    qed
  qed
qed simp

lemma blink_order_ok:
  "\<exists>order. blink_map_order names = Some order \<and> distinct order \<and> set order = set names"
  using blink_insert_Some [of "replicate 8 None" 3 0 names] by (auto simp: blink_map_order_def)

text \<open>
  Claim C30. The order of a header map is always found, and it is a permutation of the names
  put in: hashing never reads outside a name, probing always ends at a free slot, growing
  loses nothing, and a name given twice is kept once.
\<close>

theorem header_order_is_a_permutation:
  "\<exists>order. blink_map_order names = Some order \<and> distinct order \<and> set order = set names"
  by (rule blink_order_ok)

section \<open>Hints as text\<close>

lemma navigation_facts:
  "n \<in> set navigation_order \<Longrightarrow> known n = Some n \<and> CHR '','' \<notin> set n \<and>
    (n \<in> set base_hints \<or> (case hint_value default_hints n of None \<Rightarrow> False | Some _ \<Rightarrow> True))"
proof -
  have "list_all (\<lambda>n. known n = Some n \<and> CHR '','' \<notin> set n \<and>
      (n \<in> set base_hints \<or> (case hint_value default_hints n of None \<Rightarrow> False | Some _ \<Rightarrow> True))) navigation_order"
    by code_simp
  then show "n \<in> set navigation_order \<Longrightarrow> ?thesis"
    by (simp add: list_all_iff)
qed

lemma hint_value_defined: "hint_value v n = None \<longleftrightarrow> hint_value w n = None"
  by (simp add: hint_value_def)

lemma known_navigation: "known p = Some n \<Longrightarrow> n \<in> set navigation_order"
  by (auto simp: known_def Let_def find_Some_iff in_set_conv_nth)

definition hints_ok :: "string list \<Rightarrow> bool" where
  "hints_ok hs \<longleftrightarrow> distinct hs \<and> set hs \<subseteq> set navigation_order - set base_hints"

lemma hints_ok_Nil: "hints_ok []"
  by (simp add: hints_ok_def)

lemma hints_ok_snoc:
  "hints_ok out \<Longrightarrow> known part = Some n \<Longrightarrow> n \<notin> set base_hints \<Longrightarrow> n \<notin> set out \<Longrightarrow> hints_ok (out @ [n])"
  using known_navigation by (simp add: hints_ok_def)

lemma collect_hints_ok: "hints_ok out \<Longrightarrow> hints_ok (collect_hints out parts)"
proof (induction out parts rule: collect_hints.induct)
  case (2 out part parts)
  then show ?case
    by (cases "known part") (auto intro: hints_ok_snoc)
qed simp

lemma parse_hints_ok: "hints_ok (parse_hints v)"
  unfolding parse_hints_def by (rule collect_hints_ok [OF hints_ok_Nil])

lemma collect_hints_all: "hints_ok (out @ ns) \<Longrightarrow> collect_hints out ns = out @ ns"
proof (induction ns arbitrary: out)
  case (Cons n ns)
  then have "known n = Some n" "n \<notin> set base_hints" "n \<notin> set out"
    using navigation_facts by (auto simp: hints_ok_def)
  with Cons show ?case
    by simp
qed simp

lemma split_on_join: "ns \<noteq> [] \<Longrightarrow> \<forall>n \<in> set ns. c \<notin> set n \<Longrightarrow> split_on c (join [c] ns) = ns"
  by (induction "[c]" ns rule: join.induct) (auto simp: split_on_no_sep split_on_append_sep)

lemma parse_join: "hints_ok ns \<Longrightarrow> parse_hints (join '','' ns) = ns"
proof (cases "ns = []")
  case True
  have "parse_hints [] = []"
    by code_simp
  with True show ?thesis
    by simp
next
  case False
  assume ok: "hints_ok ns"
  then have "\<forall>n \<in> set ns. CHR '','' \<notin> set n"
    using navigation_facts by (auto simp: hints_ok_def)
  with False ok show ?thesis
    by (simp add: parse_hints_def split_on_join collect_hints_all)
qed

text \<open>
  Claim C31. Whatever an \<open>Accept-CH\<close> header says, the hints read from it are distinct names of
  the browser's list, none of the three that are always sent, and each has a value.
\<close>

theorem parsed_hints_can_be_sent:
  "distinct (parse_hints v) \<and> set (parse_hints v) \<subseteq> set navigation_order - set base_hints \<and>
   filter (\<lambda>n. hint_value hv n = None) (parse_hints v) = []"
proof -
  have ok: "hints_ok (parse_hints v)"
    by (rule parse_hints_ok)
  have "hint_value hv n \<noteq> None" if "n \<in> set (parse_hints v)" for n
  proof -
    have "n \<in> set navigation_order" "n \<notin> set base_hints"
      using ok that by (auto simp: hints_ok_def)
    then have "hint_value default_hints n \<noteq> None"
      using navigation_facts [of n] by (auto split: option.splits)
    then show ?thesis
      by (metis hint_value_defined)
  qed
  with ok show ?thesis
    by (auto simp: hints_ok_def filter_empty_conv)
qed

definition stored_ok :: "hint_store \<Rightarrow> bool" where
  "stored_ok st \<longleftrightarrow> distinct (map fst st) \<and> (\<forall>(orig, hs) \<in> set st. hs \<noteq> [] \<and> hints_ok hs)"

lemma stored_ok_get:
  "stored_ok st \<longleftrightarrow> distinct (map fst st) \<and> (\<forall>orig hs. map_of st orig = Some hs \<longrightarrow> hs \<noteq> [] \<and> hints_ok hs)"
  unfolding stored_ok_def by (rule conj_cong [OF refl]) force

lemma hs_set_ok:
  assumes "stored_ok st" "hints_ok hs"
  shows "stored_ok (hs_set orig hs st)"
proof -
  have "distinct (map fst (hs_set orig hs st))"
    using assms(1) by (simp add: stored_ok_def hs_set_def distinct_update distinct_delete)
  moreover have "map_of (hs_set orig hs st) = (map_of st)(orig := (if hs = [] then None else Some hs))"
    by (simp add: hs_set_def update_conv delete_conv fun_eq_iff)
  ultimately show ?thesis
    using assms unfolding stored_ok_get by (auto split: if_splits)
qed

lemma restore_entries:
  "stored_ok saved \<Longrightarrow> map_of (hs_restore saved st) orig =
    (case map_of saved orig of Some hs \<Rightarrow> Some hs | None \<Rightarrow> map_of st orig)"
proof (induction saved arbitrary: st)
  case (Cons e saved)
  obtain o1 hs where e: "e = (o1, hs)"
    by (cases e)
  with Cons.prems have hs: "hs \<noteq> []" "hints_ok hs" "stored_ok saved" "map_of saved o1 = None"
    by (auto simp: stored_ok_def map_of_eq_None_iff)
  have "hs_restore (e # saved) st = hs_restore saved (hs_set o1 hs st)"
    by (simp add: e hs_restore_def parse_join [OF hs(2)])
  with Cons.IH [OF hs(3)] hs show ?case
    by (auto simp: e hs_set_def update_conv split: option.splits)
qed (simp add: hs_restore_def)

text \<open>
  Saving the store of hints with a session and restoring it into an empty one gives
  every origin the hints it had, whatever \<open>Accept-CH\<close> headers came before.
\<close>

theorem saved_hints_are_restored:
  "map_of (hs_restore (hs_snapshot (fold (\<lambda>(orig, v). hs_set orig (parse_hints v)) headers [])) []) =
   map_of (fold (\<lambda>(orig, v). hs_set orig (parse_hints v)) headers [])"
proof -
  have "stored_ok (fold (\<lambda>(orig, v). hs_set orig (parse_hints v)) headers st)" if "stored_ok st" for st
    using that by (induction headers arbitrary: st) (auto simp: hs_set_ok parse_hints_ok)
  then have "stored_ok (fold (\<lambda>(orig, v). hs_set orig (parse_hints v)) headers [])"
    by (simp add: stored_ok_def [of "[]"])
  from restore_entries [OF this] show ?thesis
    by (auto simp: hs_snapshot_def fun_eq_iff split: option.splits)
qed

text \<open>
  The IPv6 loopback address counts as trustworthy only when the URL names a port:
  without one the address itself is cut at its last colon.
\<close>

lemma loopback_v6_needs_a_port:
  "\<not> secure ''http://[::1]/'' \<and> secure ''http://[::1]:8080/''"
  by code_simp

end
