(* ===== verification/Net.thy ===== *)
theory Net
  imports ClientHints
begin

text \<open>
  Building a request (\<open>crates/net/src/lib.rs\<close>): request kinds and their headers, origins,
  sites and referrers, and the part of \<open>send_once\<close> that decides every header, their order
  and whether cookies go along. The calls made on the HTTP library's request builder are
  the record \<open>wire\<close>. The URL parser and the public suffix list are arguments.
\<close>

section \<open>Errors\<close>

datatype net_error =
    NetUnimplemented
  | NetTimeout
  | NetConnect string
  | NetUnreachable string
  | NetHostSaturated string

definition net_error_kind :: "net_error \<Rightarrow> string" where
  "net_error_kind e =
     (case e of
        NetTimeout \<Rightarrow> ''timeout''
      | NetUnreachable _ \<Rightarrow> ''unreachable''
      | NetConnect m \<Rightarrow>
          if contains_str m ''ProxyConnect'' \<or> contains_str m ''tunnel error'' then ''proxy''
          else if contains_str m ''dns error'' \<or> contains_str m ''failed to lookup address'' then ''dns''
          else if contains_str m ''CERTIFICATE'' \<or> contains_str m ''SSL'' \<or> contains_str m ''handshake'' then ''tls''
          else if contains_str m ''Connection refused'' then ''refused''
          else if contains_str m ''Connection reset'' then ''reset''
          else ''connect''
      | _ \<Rightarrow> ''other'')"

text \<open>
  A failed exchange as an error: \<open>chain\<close> lists the texts of the error and its causes.
\<close>

fun error_parts :: "string \<Rightarrow> string list \<Rightarrow> string list \<Rightarrow> string list" where
  "error_parts top_text parts [] = parts"
| "error_parts top_text parts (link # links) =
     (if \<not> contains_str top_text link \<and> \<not> List.member parts link
      then error_parts top_text (parts @ [link]) links
      else error_parts top_text parts links)"

definition transport_error :: "bool \<Rightarrow> string list \<Rightarrow> net_error" where
  "transport_error is_timeout chain =
     (if is_timeout then NetTimeout
      else
        let cause = join '' <- '' chain;
            reason = join '': '' (error_parts (hd chain) [] (tl chain));
            message = (if reason = [] then hd chain else hd chain @ '': '' @ reason)
        in if contains_str cause ''Network is unreachable'' \<or> contains_str cause ''No route to host''
           then NetUnreachable message else NetConnect message)"

section \<open>The emulated browser\<close>

definition default_chrome_major :: nat where
  "default_chrome_major = 151"

definition has_emulation :: "nat \<Rightarrow> bool" where
  "has_emulation major \<longleftrightarrow> major = 120 \<or> major = 123 \<or> major = 124 \<or> (126 \<le> major \<and> major \<le> 152)"

definition emulated_chrome_major :: "nat \<Rightarrow> nat" where
  "emulated_chrome_major requested = (if has_emulation requested then requested else default_chrome_major)"

text \<open>The library's profiles are named after a Chrome version; the number stands for it.\<close>

definition profile_for_major :: "nat \<Rightarrow> nat" where
  "profile_for_major major =
     (if major = 120 \<or> major = 123 \<or> major = 124 \<or> (126 \<le> major \<and> major \<le> 148) then major else 149)"

text \<open>The rewriting of \<open>Chrome/<digits>\<close> in a user agent.\<close>

definition is_digit :: "char \<Rightarrow> bool" where
  "is_digit c = (digit_value c \<noteq> None)"

function retag_agent :: "nat \<Rightarrow> string \<Rightarrow> string" where
  "retag_agent major s =
     (case split_once_str ''Chrome/'' s of
        None \<Rightarrow> s
      | Some (u, v) \<Rightarrow> u @ ''Chrome/'' @ nat_str major @ retag_agent major (dropWhile is_digit v))"
  by pat_completeness auto

lemma dropWhile_shorter: "length (dropWhile P v) \<le> length v"
  by (induction v) auto

termination retag_agent
proof (relation "measure (\<lambda>x. length (snd x))", goal_cases)
  case (2 major s x2 x y)
  then have "split_once_str ''Chrome/'' s = Some (x, y)"
    by simp
  then have "s = x @ ''Chrome/'' @ y"
    by (rule split_once_str_Some)
  then show ?case
    using dropWhile_shorter [of is_digit y] by simp
qed simp

declare retag_agent.simps [simp del]

definition chrome_brands :: "nat \<Rightarrow> string" where
  "chrome_brands major =
     quoted ''Not=A?Brand'' @ '';v='' @ quoted ''99'' @ '', '' @ quoted ''Google Chrome'' @ '';v='' @
     quoted (nat_str major) @ '', '' @ quoted ''Chromium'' @ '';v='' @ quoted (nat_str major)"

text \<open>\<open>HeaderValue::to_str\<close> succeeds on visible ASCII, space and tab.\<close>

definition visible_ascii :: "string \<Rightarrow> bool" where
  "visible_ascii v \<longleftrightarrow> list_all (\<lambda>c. let n = of_char c :: nat in n = 9 \<or> (32 \<le> n \<and> n < 127)) v"

definition retag_chrome_version :: "nat \<Rightarrow> (string \<times> string) list \<Rightarrow> (string \<times> string) list" where
  "retag_chrome_version major hs =
     map (\<lambda>(k, v).
       if k = ''user-agent'' then (k, if visible_ascii v then retag_agent major v else v)
       else if k = ''sec-ch-ua'' then (k, chrome_brands major)
       else (k, v)) hs"

section \<open>Request kinds\<close>

datatype request_kind =
    Document | Iframe | Script | ModuleScript | Xhr | PreloadFetch | Subresource | Style | Font
  | Manifest | Prefetch | Beacon | Worker | XhrNoCors | ImageCors | Video | Audio | Prerender | Preflight

definition doc_accept :: string where
  "doc_accept = ''text/html,application/xhtml+xml,application/xml;q=0.9,image/avif,image/webp,image/apng,*/*;q=0.8,application/signed-exchange;v=b3;q=0.7''"

fun kind_accept :: "request_kind \<Rightarrow> string" where
  "kind_accept Document = doc_accept"
| "kind_accept Iframe = doc_accept"
| "kind_accept Prefetch = doc_accept"
| "kind_accept Prerender = doc_accept"
| "kind_accept Subresource = ''image/avif,image/webp,image/apng,image/svg+xml,image/*,*/*;q=0.8''"
| "kind_accept ImageCors = ''image/avif,image/webp,image/apng,image/svg+xml,image/*,*/*;q=0.8''"
| "kind_accept Style = ''text/css,*/*;q=0.1''"
| "kind_accept _ = ''*/*''"

fun sec_fetch :: "request_kind \<Rightarrow> string \<times> string" where
  "sec_fetch Document = (''document'', ''navigate'')"
| "sec_fetch Prerender = (''document'', ''navigate'')"
| "sec_fetch Iframe = (''iframe'', ''navigate'')"
| "sec_fetch Script = (''script'', ''no-cors'')"
| "sec_fetch ModuleScript = (''script'', ''cors'')"
| "sec_fetch Xhr = (''empty'', ''cors'')"
| "sec_fetch PreloadFetch = (''empty'', ''cors'')"
| "sec_fetch Subresource = (''image'', ''no-cors'')"
| "sec_fetch ImageCors = (''image'', ''cors'')"
| "sec_fetch Video = (''video'', ''no-cors'')"
| "sec_fetch Audio = (''audio'', ''no-cors'')"
| "sec_fetch Style = (''style'', ''no-cors'')"
| "sec_fetch Font = (''font'', ''cors'')"
| "sec_fetch Manifest = (''manifest'', ''cors'')"
| "sec_fetch Prefetch = (''empty'', ''no-cors'')"
| "sec_fetch Beacon = (''empty'', ''no-cors'')"
| "sec_fetch XhrNoCors = (''empty'', ''no-cors'')"
| "sec_fetch Worker = (''worker'', ''same-origin'')"
| "sec_fetch Preflight = (''empty'', ''cors'')"

fun kind_urgency :: "request_kind \<Rightarrow> nat" where
  "kind_urgency Document = 0"
| "kind_urgency Iframe = 0"
| "kind_urgency Style = 0"
| "kind_urgency Script = 1"
| "kind_urgency ModuleScript = 1"
| "kind_urgency Xhr = 1"
| "kind_urgency PreloadFetch = 1"
| "kind_urgency Font = 1"
| "kind_urgency Worker = 1"
| "kind_urgency XhrNoCors = 1"
| "kind_urgency Preflight = 1"
| "kind_urgency Subresource = 2"
| "kind_urgency ImageCors = 2"
| "kind_urgency Manifest = 2"
| "kind_urgency Video = 3"
| "kind_urgency Audio = 3"
| "kind_urgency Prefetch = 4"
| "kind_urgency Beacon = 4"
| "kind_urgency Prerender = 4"

definition kind_incremental :: "request_kind \<Rightarrow> bool" where
  "kind_incremental k \<longleftrightarrow> \<not> List.member [Script, ModuleScript, Style, Font, Manifest] k"

definition navigates :: "request_kind \<Rightarrow> bool" where
  "navigates k \<longleftrightarrow> List.member [Document, Iframe, Prerender] k"

definition always_origin :: "request_kind \<Rightarrow> bool" where
  "always_origin k \<longleftrightarrow> List.member [ModuleScript, Font, PreloadFetch, ImageCors] k"

record request =
  rq_method :: string
  rq_url :: string
  rq_headers :: "(string \<times> string) list"
  rq_body :: "bytes option"
  rq_kind :: request_kind
  rq_user_activated :: bool
  rq_third_party :: bool
  rq_context :: "nat option"
  rq_doc_hints :: "string list"
  rq_urgency :: "nat option"
  rq_omit_credentials :: bool
  rq_initiator :: "string option"
  rq_referrer_policy :: "string option"
  rq_credentials_include :: "bool option"

section \<open>Origins, referrers and sites\<close>

definition origin_of :: "string \<Rightarrow> string option" where
  "origin_of url =
     (let split = (case strip_prefix ''https://'' url of
                     Some r \<Rightarrow> Some (''https'', r)
                   | None \<Rightarrow> map_option (Pair ''http'') (strip_prefix ''http://'' url))
      in case split of
           None \<Rightarrow> None
         | Some (scheme, tail) \<Rightarrow>
             let host = takeWhile (\<lambda>c. \<not> List.member ''/?#'' c) tail
             in if host = [] then None else Some (scheme @ ''://'' @ host))"

definition full_referrer :: "string \<Rightarrow> string" where
  "full_referrer referer = takeWhile (\<lambda>c. c \<noteq> CHR ''#'') referer"

definition same_origin_urls :: "string \<Rightarrow> string \<Rightarrow> bool" where
  "same_origin_urls from url = (case origin_of url of None \<Rightarrow> False | Some u \<Rightarrow> eq_ignore_ascii_case u from)"

definition referrer_for :: "string \<Rightarrow> string \<Rightarrow> string option \<Rightarrow> string option" where
  "referrer_for referer url policy =
     (let full = full_referrer referer in
      case origin_of full of
        None \<Rightarrow> None
      | Some from \<Rightarrow>
          let same = same_origin_urls from url;
              downgrade = (has_prefix full ''https://'' \<and> has_prefix url ''http://'');
              origin = Some (from @ ''/'');
              whole = Some full;
              p = (case policy of Some p \<Rightarrow> p | None \<Rightarrow> ''strict-origin-when-cross-origin'')
          in if p = ''no-referrer'' then None
             else if p = ''unsafe-url'' then whole
             else if p = ''origin'' then origin
             else if p = ''same-origin'' then (if same then whole else None)
             else if p = ''strict-origin'' then (if downgrade then None else origin)
             else if p = ''origin-when-cross-origin'' then (if same then whole else origin)
             else if p = ''no-referrer-when-downgrade'' then (if downgrade then None else whole)
             else if same then whole
             else if downgrade then None
             else origin)"

definition known_policies :: "string list" where
  "known_policies = [''no-referrer'', ''no-referrer-when-downgrade'', ''same-origin'', ''origin'',
     ''strict-origin'', ''origin-when-cross-origin'', ''strict-origin-when-cross-origin'', ''unsafe-url'']"

definition referrer_policy_token :: "string \<Rightarrow> string option" where
  "referrer_policy_token v =
     find (\<lambda>t. List.member known_policies t)
       (rev (map (\<lambda>t. to_ascii_lowercase (trim t)) (split_on CHR '','' v)))"

record url_parts =
  up_scheme :: string
  up_host :: "string option"
  up_domain :: "string option"

definition site_parts :: "(string \<Rightarrow> url_parts option) \<Rightarrow> (string \<Rightarrow> string option) \<Rightarrow> string \<Rightarrow> (string \<times> string) option" where
  "site_parts P psl u =
     (case P u of
        None \<Rightarrow> None
      | Some parsed \<Rightarrow>
          (case up_host parsed of
             None \<Rightarrow> None
           | Some host \<Rightarrow>
               Some (up_scheme parsed,
                 case up_domain parsed of
                   Some d \<Rightarrow> (case psl d of Some s \<Rightarrow> s | None \<Rightarrow> d)
                 | None \<Rightarrow> to_ascii_lowercase host)))"

definition same_site_of :: "(string \<Rightarrow> url_parts option) \<Rightarrow> (string \<Rightarrow> string option) \<Rightarrow> string \<Rightarrow> string \<Rightarrow> bool" where
  "same_site_of P psl a b =
     (case (site_parts P psl a, site_parts P psl b) of (Some x, Some y) \<Rightarrow> x = y | _ \<Rightarrow> False)"

definition authority_of :: "string \<Rightarrow> string option" where
  "authority_of s =
     (case split_once_str ''://'' s of
        None \<Rightarrow> None
      | Some (_, r) \<Rightarrow>
          let piece = (case split_once_str ''://'' r of Some (p, _) \<Rightarrow> p | None \<Rightarrow> r)
          in Some (to_ascii_lowercase (takeWhile (\<lambda>c. c \<noteq> CHR ''/'') piece)))"

definition same_site :: "string \<Rightarrow> string \<Rightarrow> bool" where
  "same_site referer url =
     (case (authority_of referer, authority_of url) of (Some a, Some b) \<Rightarrow> a = b | _ \<Rightarrow> False)"

section \<open>A client's settings\<close>

datatype proxy_scheme = Http | Socks5

record proxy_config =
  px_scheme :: proxy_scheme
  px_host :: string
  px_port :: nat
  px_username :: "string option"
  px_password :: "string option"

record pool_limits =
  pl_per_host :: nat
  pl_per_proxy :: nat
  pl_global :: nat
  pl_idle_seconds :: nat

definition default_limits :: pool_limits where
  "default_limits = \<lparr>pl_per_host = 6, pl_per_proxy = 64, pl_global = 256, pl_idle_seconds = 90\<rparr>"

datatype emulation_os = Linux | Windows | Mac

record client_config =
  cc_os :: emulation_os
  cc_chrome_major :: nat
  cc_limits :: pool_limits
  cc_proxy :: "proxy_config option"
  cc_timeout_seconds :: nat
  cc_hints :: hint_values
  cc_local_address :: "string option"

definition default_client_config :: client_config where
  "default_client_config =
     \<lparr>cc_os = Linux, cc_chrome_major = default_chrome_major, cc_limits = default_limits, cc_proxy = None,
      cc_timeout_seconds = 30, cc_hints = default_hints, cc_local_address = None\<rparr>"

definition mldsa_from_major :: nat where
  "mldsa_from_major = 150"

definition chrome_sigalgs :: string where
  "chrome_sigalgs =
     ''mldsa44:mldsa65:mldsa87:'' @
     ''ecdsa_secp256r1_sha256:rsa_pss_rsae_sha256:rsa_pkcs1_sha256:'' @
     ''ecdsa_secp384r1_sha384:rsa_pss_rsae_sha384:rsa_pkcs1_sha384:'' @
     ''rsa_pss_rsae_sha512:rsa_pkcs1_sha512''"

text \<open>
  What \<open>with_session\<close> hands to the HTTP library's builder. \<open>profile\<close> is the library's table:
  the header set and the signature algorithms of a version on a platform. \<open>cs_jar\<close> says whether
  the jar is the session's; otherwise it is a new one.
\<close>

record client_settings =
  cs_profile :: nat
  cs_os :: emulation_os
  cs_stream_weight :: nat
  cs_headers :: "(string \<times> string) list"
  cs_sigalgs :: "string option"
  cs_decompress :: bool
  cs_session_jar :: bool
  cs_redirects :: nat
  cs_timeout_seconds :: nat
  cs_local_address :: "string option"
  cs_proxy :: "(string \<times> (string \<times> string) option) option"

definition proxy_url :: "proxy_config \<Rightarrow> string" where
  "proxy_url p =
     (case px_scheme p of Http \<Rightarrow> ''http'' | Socks5 \<Rightarrow> ''socks5'') @ ''://'' @ px_host p @ '':'' @ nat_str (px_port p)"

definition proxy_auth :: "proxy_config \<Rightarrow> (string \<times> string) option" where
  "proxy_auth p =
     map_option (\<lambda>user. (user, case px_password p of Some w \<Rightarrow> w | None \<Rightarrow> [])) (px_username p)"

definition client_settings_for ::
    "(nat \<Rightarrow> emulation_os \<Rightarrow> (string \<times> string) list \<times> string option) \<Rightarrow> client_config \<Rightarrow> bool \<Rightarrow> client_settings" where
  "client_settings_for profile config session =
     (let major = profile_for_major (cc_chrome_major config);
          (headers, sigalgs) = profile major (cc_os config);
          headers = retag_chrome_version (cc_chrome_major config) headers;
          headers = filter (\<lambda>(k, _). k \<noteq> ''priority'') headers
      in \<lparr>cs_profile = major, cs_os = cc_os config, cs_stream_weight = 255, cs_headers = headers,
          cs_sigalgs = (if mldsa_from_major \<le> cc_chrome_major config then Some chrome_sigalgs else sigalgs),
          cs_decompress = False, cs_session_jar = session, cs_redirects = 10,
          cs_timeout_seconds = cc_timeout_seconds config, cs_local_address = cc_local_address config,
          cs_proxy = map_option (\<lambda>p. (proxy_url p, proxy_auth p)) (cc_proxy config)\<rparr>)"

text \<open>\<open>proxy_error\<close> and \<open>build_error\<close> are the library's refusals of a proxy URL and of the whole.\<close>

definition with_session ::
    "(nat \<Rightarrow> emulation_os \<Rightarrow> (string \<times> string) list \<times> string option) \<Rightarrow> (string \<Rightarrow> string option) \<Rightarrow>
     (client_settings \<Rightarrow> string option) \<Rightarrow> client_config \<Rightarrow> bool \<Rightarrow> net_error + client_settings" where
  "with_session profile proxy_error build_error config session =
     (let settings = client_settings_for profile config session in
      case Option.bind (cs_proxy settings) (\<lambda>(url, _). proxy_error url) of
        Some e \<Rightarrow> Inl (NetConnect e)
      | None \<Rightarrow>
          (case build_error settings of
             Some e \<Rightarrow> Inl (NetConnect e)
           | None \<Rightarrow> Inr settings))"

lemma emulated_is_emulated [simp]: "has_emulation (emulated_chrome_major major)"
  by (auto simp: emulated_chrome_major_def has_emulation_def default_chrome_major_def)

lemma emulated_idem: "emulated_chrome_major (emulated_chrome_major major) = emulated_chrome_major major"
  by (simp add: emulated_chrome_major_def)

end
