(* ===== verification/NetSend.thy ===== *)
theory NetSend
  imports Net
begin

text \<open>
  One exchange (\<open>send_once\<close> and \<open>send\<close> in \<open>crates/net/src/lib.rs\<close>). \<open>build_request\<close> is everything
  up to the call of the HTTP library: which headers are set, with which values, in which order they
  are to go on the wire, and whether the session's cookies go along. \<open>finish_response\<close> is everything
  after it. The library itself is the function \<open>io\<close> of \<open>send_once\<close>; the URL parser, the public suffix
  list and the decompressors are arguments too. Times are left out.
\<close>

section \<open>What the request is for\<close>

record client =
  cl_hints :: hint_store
  cl_values :: hint_values
  cl_defaults :: "(string \<times> string) list"

definition owned_headers :: "string list" where
  "owned_headers = [''user-agent'', ''accept'', ''accept-encoding'', ''accept-language'', ''host'', ''connection'']"

definition is_preflight :: "request \<Rightarrow> bool" where
  "is_preflight r = (rq_kind r = Preflight)"

definition is_media :: "request \<Rightarrow> bool" where
  "is_media r = (rq_kind r = Video \<or> rq_kind r = Audio)"

definition plain_http :: "request \<Rightarrow> bool" where
  "plain_http r = has_prefix (rq_url r) ''http://''"

definition method_known :: "string \<Rightarrow> bool" where
  "method_known m = List.member [''GET'', ''POST'', ''PUT'', ''DELETE'', ''HEAD'', ''PATCH'', ''OPTIONS''] m"

definition header_named :: "string \<Rightarrow> (string \<times> string) list \<Rightarrow> string option" where
  "header_named name hs = map_option snd (find (\<lambda>(k, _). eq_ignore_ascii_case k name) hs)"

definition asker :: "request \<Rightarrow> string option" where
  "asker r = (case rq_initiator r of Some a \<Rightarrow> Some a | None \<Rightarrow> header_named ''referer'' (rq_headers r))"

definition same_origin :: "request \<Rightarrow> bool" where
  "same_origin r = (case asker r of Some a \<Rightarrow> same_site a (rq_url r) | None \<Rightarrow> False)"

definition has_referer :: "request \<Rightarrow> bool" where
  "has_referer r = list_ex (\<lambda>(k, _). eq_ignore_ascii_case k ''referer'') (rq_headers r)"

definition fetch_site :: "(string \<Rightarrow> string \<Rightarrow> bool) \<Rightarrow> request \<Rightarrow> string" where
  "fetch_site site r =
     (if rq_kind r = Document \<and> \<not> has_referer r then ''none''
      else if same_origin r then ''same-origin''
      else if (case asker r of Some a \<Rightarrow> site a (rq_url r) | None \<Rightarrow> False) then ''same-site''
      else ''cross-site'')"

section \<open>Client hints\<close>

definition hint_scope :: "request \<Rightarrow> bool" where
  "hint_scope r \<longleftrightarrow>
     secure (rq_url r) \<and> \<not> is_preflight r \<and> \<not> rq_third_party r \<and> (rq_kind r = Document \<or> same_origin r)"

fun push_new :: "string list \<Rightarrow> string list \<Rightarrow> string list" where
  "push_new extra [] = extra"
| "push_new extra (h # hs) = push_new (if List.member extra h then extra else extra @ [h]) hs"

fun doc_hints_added :: "string list \<Rightarrow> string list \<Rightarrow> string list" where
  "doc_hints_added extra [] = extra"
| "doc_hints_added extra (v # vs) = doc_hints_added (push_new extra (parse_hints v)) vs"

definition extra_hints :: "client \<Rightarrow> request \<Rightarrow> string list" where
  "extra_hints cl r =
     (let extra = (case (origin_of (rq_url r), hint_scope r) of
                     (Some o', True) \<Rightarrow> hs_get o' (cl_hints cl)
                   | _ \<Rightarrow> [])
      in if hint_scope r \<and> rq_kind r \<noteq> Document then doc_hints_added extra (rq_doc_hints r) else extra)"

definition hint_headers :: "client \<Rightarrow> string list \<Rightarrow> (string \<times> string) list" where
  "hint_headers cl extra =
     List.map_filter (\<lambda>n. map_option (Pair n) (hint_value (cl_values cl) n)) extra"

section \<open>Cookies and \<open>Origin\<close>\<close>

definition default_include :: "request_kind \<Rightarrow> bool" where
  "default_include k \<longleftrightarrow>
     \<not> List.member [ModuleScript, Font, PreloadFetch, Xhr, XhrNoCors, ImageCors] k"

definition includes_credentials :: "request \<Rightarrow> bool" where
  "includes_credentials r \<longleftrightarrow>
     (case rq_credentials_include r of Some b \<Rightarrow> b | None \<Rightarrow> default_include (rq_kind r)) \<and> \<not> is_preflight r"

definition empty_jar :: "request \<Rightarrow> bool" where
  "empty_jar r \<longleftrightarrow>
     rq_omit_credentials r \<or> is_preflight r \<or> (\<not> same_origin r \<and> \<not> includes_credentials r)"

definition wants_origin :: "request \<Rightarrow> bool" where
  "wants_origin r \<longleftrightarrow>
     rq_method r \<noteq> ''GET'' \<and> rq_method r \<noteq> ''HEAD''
     \<or> (\<not> same_origin r \<and> snd (sec_fetch (rq_kind r)) = ''cors'')
     \<or> always_origin (rq_kind r)"

definition page_origin :: "request \<Rightarrow> string option" where
  "page_origin r = Option.bind (asker r) origin_of"

definition origin_header :: "request \<Rightarrow> string option" where
  "origin_header r = (if wants_origin r \<and> \<not> navigates (rq_kind r) then page_origin r else None)"

definition sent_origin :: "request \<Rightarrow> bool" where
  "sent_origin r = (origin_header r \<noteq> None)"

definition origin_in_map :: "request \<Rightarrow> bool" where
  "origin_in_map r \<longleftrightarrow>
     sent_origin r \<and> always_origin (rq_kind r) \<and> (rq_method r = ''GET'' \<or> rq_method r = ''HEAD'')"

definition storage_access :: "(string \<Rightarrow> string \<Rightarrow> bool) \<Rightarrow> request \<Rightarrow> bool" where
  "storage_access site r \<longleftrightarrow>
     \<not> navigates (rq_kind r) \<and>
     ((rq_third_party r \<and> same_origin r)
      \<or> (fetch_site site r = ''cross-site'' \<and> includes_credentials r \<and> \<not> rq_omit_credentials r))"

section \<open>The headers set\<close>

definition own_accept :: "request \<Rightarrow> bool" where
  "own_accept r \<longleftrightarrow>
     \<not> (list_ex (\<lambda>(k, _). eq_ignore_ascii_case k ''accept'') (rq_headers r) \<and> rq_kind r = Xhr)"

definition media_headers :: "request \<Rightarrow> (string \<times> string) list" where
  "media_headers r =
     (if is_media r then [(''accept-encoding'', ''identity;q=1, *;q=0''), (''range'', ''bytes=0-'')] else [])"

definition preflight_headers :: "client \<Rightarrow> request \<Rightarrow> (string \<times> string) list" where
  "preflight_headers cl r =
     (if is_preflight r
      then List.map_filter (\<lambda>n. map_option (Pair n) (map_of (cl_defaults cl) n))
             [''user-agent'', ''accept-encoding'', ''accept-language'']
      else [])"

definition priority_value :: "request \<Rightarrow> string" where
  "priority_value r =
     (let u = min 4 (case rq_urgency r of Some u \<Rightarrow> u | None \<Rightarrow> kind_urgency (rq_kind r))
      in ''u='' @ nat_str u @ (if kind_incremental (rq_kind r) then '', i'' else []))"

definition claims_user :: "request \<Rightarrow> bool" where
  "claims_user r = (rq_kind r = Document \<and> rq_user_activated r)"

definition fetch_headers :: "(string \<Rightarrow> string \<Rightarrow> bool) \<Rightarrow> request \<Rightarrow> (string \<times> string) list" where
  "fetch_headers site r =
     (if own_accept r then [(''accept'', kind_accept (rq_kind r))] else []) @
     [(''sec-fetch-site'', fetch_site site r), (''sec-fetch-mode'', snd (sec_fetch (rq_kind r))),
      (''sec-fetch-dest'', fst (sec_fetch (rq_kind r)))] @
     (if plain_http r then [] else [(''priority'', priority_value r)]) @
     (if rq_kind r = Prefetch \<or> rq_kind r = Prerender then [(''sec-purpose'', ''prefetch'')] else []) @
     (if plain_http r then [(''connection'', ''keep-alive'')] else []) @
     (case origin_header r of Some o' \<Rightarrow> [(''origin'', o')] | None \<Rightarrow> [])"

definition navigation_headers :: "(string \<Rightarrow> string \<Rightarrow> bool) \<Rightarrow> request \<Rightarrow> (string \<times> string) list" where
  "navigation_headers site r =
     (if navigates (rq_kind r)
      then (''upgrade-insecure-requests'', ''1'') # (if claims_user r then [(''sec-fetch-user'', ''?1'')] else [])
      else []) @
     (if storage_access site r then [(''sec-fetch-storage-access'', ''active'')] else [])"

text \<open>The page's own headers that are passed on.\<close>

fun forwarded :: "request \<Rightarrow> (string \<times> string) list \<Rightarrow> (string \<times> string) list" where
  "forwarded r [] = []"
| "forwarded r ((k, v) # hs) =
     (let lk = to_ascii_lowercase k;
          page_owned = (lk = ''accept'' \<and> \<not> own_accept r)
      in if (List.member owned_headers lk \<and> \<not> page_owned) \<or> has_prefix lk ''sec-''
            \<or> lk = ''priority'' \<or> lk = ''upgrade-insecure-requests'' \<or> (lk = ''accept'' \<and> own_accept r)
         then forwarded r hs
         else if lk = ''referer'' then
           (case referrer_for v (rq_url r) (rq_referrer_policy r) of
              Some ref \<Rightarrow> (k, ref) # forwarded r hs
            | None \<Rightarrow> forwarded r hs)
         else (k, v) # forwarded r hs)"

definition request_headers :: "(string \<Rightarrow> string \<Rightarrow> bool) \<Rightarrow> client \<Rightarrow> request \<Rightarrow> (string \<times> string) list" where
  "request_headers site cl r =
     media_headers r @ preflight_headers cl r @ hint_headers cl (extra_hints cl r) @ fetch_headers site r @
     navigation_headers site r @ forwarded r (rq_headers r)"

section \<open>Their order on the wire\<close>

definition page_header_names :: "request \<Rightarrow> string list" where
  "page_header_names r =
     filter (\<lambda>k. (\<not> List.member owned_headers k \<or> (k = ''accept'' \<and> \<not> own_accept r)) \<and> \<not> has_prefix k ''sec-''
         \<and> \<not> List.member [''content-length'', ''referer'', ''origin'', ''cookie'', ''priority'',
                         ''upgrade-insecure-requests''] k)
       (map (\<lambda>(k, _). to_ascii_lowercase k) (rq_headers r))"

definition sends_hint :: "string list \<Rightarrow> string \<Rightarrow> bool" where
  "sends_hint extra n = (List.member base_hints n \<or> List.member extra n)"

definition map_names :: "string list \<Rightarrow> request \<Rightarrow> string list" where
  "map_names extra r =
     (if is_media r then [''accept-encoding''] else []) @ page_header_names r @
     (if origin_in_map r then [''origin''] else []) @
     (if rq_kind r = Prefetch then [''sec-purpose''] else []) @
     filter (sends_hint extra) blink_insert_order @ [''user-agent'']"

definition leading_order :: "bool \<Rightarrow> string list \<Rightarrow> request \<Rightarrow> string list option" where
  "leading_order critical_retry extra r =
     (if \<not> navigates (rq_kind r)
      then map_option (Cons ''content-length'') (blink_map_order (map_names extra r))
      else if \<not> critical_retry then Some (filter (sends_hint extra) navigation_order)
      else Some [])"

definition first_lines :: "request \<Rightarrow> string list" where
  "first_lines r = (if plain_http r then [''host'', ''connection''] else [])"

definition middle_order :: "bool \<Rightarrow> string list \<Rightarrow> request \<Rightarrow> string list" where
  "middle_order critical_retry extra r =
     (if navigates (rq_kind r) then [''upgrade-insecure-requests'', ''user-agent''] else []) @
     (if own_accept r then [''accept''] else []) @
     (if rq_kind r = Prerender then [''sec-purpose''] else []) @
     (if critical_retry \<and> navigates (rq_kind r)
      then base_hints @ filter (\<lambda>n. List.member extra n) navigation_order else []) @
     (if sent_origin r \<and> \<not> origin_in_map r then [''origin''] else [])"

definition trailing_order :: "(string \<Rightarrow> string \<Rightarrow> bool) \<Rightarrow> request \<Rightarrow> string list" where
  "trailing_order site r =
     [''sec-fetch-site'', ''sec-fetch-mode''] @ (if claims_user r then [''sec-fetch-user''] else []) @
     [''sec-fetch-dest''] @ (if storage_access site r then [''sec-fetch-storage-access''] else []) @
     [''referer''] @ (if is_media r then [] else [''accept-encoding'']) @ [''accept-language'', ''priority''] @
     (if is_media r then [''range''] else [])"

definition preflight_order :: "request \<Rightarrow> string list" where
  "preflight_order r =
     first_lines r @
     [''accept'', ''access-control-request-method'', ''access-control-request-headers'', ''origin'',
      ''user-agent'', ''sec-fetch-mode'', ''sec-fetch-site'', ''sec-fetch-dest'', ''referer'',
      ''accept-encoding'', ''accept-language'', ''priority'']"

definition header_order :: "(string \<Rightarrow> string \<Rightarrow> bool) \<Rightarrow> bool \<Rightarrow> string list \<Rightarrow> request \<Rightarrow> string list option" where
  "header_order site critical_retry extra r =
     (case leading_order critical_retry extra r of
        None \<Rightarrow> None
      | Some leading \<Rightarrow>
          Some (if is_preflight r then preflight_order r
                else first_lines r @ leading @ middle_order critical_retry extra r @ trailing_order site r))"

section \<open>The request\<close>

record wire =
  w_method :: string
  w_url :: string
  w_default_headers :: bool
  w_headers :: "(string \<times> string) list"
  w_order :: "string list"
  w_session_cookies :: bool
  w_body :: "bytes option"

text \<open>\<open>None\<close> is a panic (which \<open>header_order\<close> never causes), \<open>Inl\<close> an error before the network.\<close>

definition build_request :: "(string \<Rightarrow> string \<Rightarrow> bool) \<Rightarrow> client \<Rightarrow> bool \<Rightarrow> request \<Rightarrow> (net_error + wire) option" where
  "build_request site cl critical_retry r =
     (let m = to_ascii_uppercase (rq_method r) in
      if \<not> method_known m then Some (Inl (NetConnect (''unsupported method '' @ m)))
      else
        map_option (\<lambda>order.
          Inr \<lparr>w_method = m, w_url = rq_url r, w_default_headers = (\<not> is_preflight r),
               w_headers = request_headers site cl r, w_order = order,
               w_session_cookies = (\<not> empty_jar r), w_body = rq_body r\<rparr>)
          (header_order site critical_retry (extra_hints cl r) r))"

section \<open>The response\<close>

text \<open>\<open>br\<close>, \<open>gzip\<close>, \<open>zlib\<close>, \<open>plain\<close> and \<open>zstd\<close> are the decompressors of the libraries.\<close>

record decoders =
  dc_br :: "bytes \<Rightarrow> bytes option"
  dc_gzip :: "bytes \<Rightarrow> bytes option"
  dc_zlib :: "bytes \<Rightarrow> bytes option"
  dc_plain :: "bytes \<Rightarrow> bytes option"
  dc_zstd :: "bytes \<Rightarrow> bytes option"

definition decode_body :: "decoders \<Rightarrow> string \<Rightarrow> bytes \<Rightarrow> bytes" where
  "decode_body dc encoding raw =
     (if raw = [] then raw
      else
        let out = (if encoding = ''br'' then dc_br dc raw
                   else if encoding = ''gzip'' \<or> encoding = ''x-gzip'' then dc_gzip dc raw
                   else if encoding = ''deflate'' then
                     (case dc_zlib dc raw of Some x \<Rightarrow> Some x | None \<Rightarrow> dc_plain dc raw)
                   else if encoding = ''zstd'' then dc_zstd dc raw
                   else None)
        in case out of Some x \<Rightarrow> x | None \<Rightarrow> raw)"

text \<open>What the library reports: the body or the error met while reading it.\<close>

record reply =
  rp_status :: nat
  rp_url :: string
  rp_headers :: "(string \<times> string) list"
  rp_body :: "string + bytes"

record response =
  rs_status :: nat
  rs_headers :: "(string, string) btree_map"
  rs_body :: bytes
  rs_encoded_len :: nat
  rs_content_encoding :: string
  rs_url :: string

definition collect_headers :: "(string \<times> string) list \<Rightarrow> (string, string) btree_map" where
  "collect_headers hs = fold (\<lambda>(k, v) m. if visible_ascii v then bt_insert k v m else m) hs []"

text \<open>The hints a response sets for its origin, and whether the navigation starts over.\<close>

definition hints_set ::
    "request \<Rightarrow> bool \<Rightarrow> string list \<Rightarrow> string \<Rightarrow> (string, string) btree_map \<Rightarrow> hint_store \<Rightarrow> bool \<times> hint_store" where
  "hints_set r critical_retry extra url headers st =
     (if rq_kind r = Document \<and> \<not> rq_third_party r \<and> secure url
      then (case (origin_of url, bt_get headers ''accept-ch'') of
              (Some origin, Some value) \<Rightarrow>
                let asked = parse_hints value;
                    restart = (if \<not> critical_retry \<and> Some origin = origin_of (rq_url r)
                               then (case bt_get headers ''critical-ch'' of
                                       Some critical \<Rightarrow>
                                         list_ex (\<lambda>h. List.member asked h \<and> \<not> List.member extra h)
                                           (parse_hints critical)
                                     | None \<Rightarrow> False)
                               else False)
                in (restart, hs_set origin asked st)
            | _ \<Rightarrow> (False, st))
      else (False, st))"

definition reply_body :: "reply \<Rightarrow> net_error + bytes" where
  "reply_body p =
     (if rp_status p = 204 \<or> rp_status p = 304 then Inr []
      else case rp_body p of Inl e \<Rightarrow> Inl (NetConnect e) | Inr b \<Rightarrow> Inr b)"

definition response_of :: "decoders \<Rightarrow> reply \<Rightarrow> (string, string) btree_map \<Rightarrow> bytes \<Rightarrow> response" where
  "response_of dc p headers raw =
     (let encoding = (case bt_get headers ''content-encoding'' of
                        Some s \<Rightarrow> to_ascii_lowercase (trim s) | None \<Rightarrow> []);
          hs = (if encoding \<noteq> [] then bt_remove ''content-length'' headers else headers)
      in \<lparr>rs_status = rp_status p, rs_headers = bt_remove ''content-encoding'' hs,
          rs_body = decode_body dc encoding raw, rs_encoded_len = length raw,
          rs_content_encoding = encoding, rs_url = rp_url p\<rparr>)"

definition finish_response ::
    "decoders \<Rightarrow> client \<Rightarrow> bool \<Rightarrow> request \<Rightarrow> reply \<Rightarrow> (net_error + response \<times> bool) \<times> hint_store" where
  "finish_response dc cl critical_retry r p =
     (let headers = collect_headers (rp_headers p);
          (restart, st) = hints_set r critical_retry (extra_hints cl r) (rp_url p) headers (cl_hints cl)
      in (case reply_body p of
            Inl e \<Rightarrow> Inl e
          | Inr raw \<Rightarrow> Inr (response_of dc p headers raw, restart), st))"

section \<open>Sending\<close>

text \<open>
  The network answers a request with a reply, or with a failure: whether it is a timeout, and the
  texts of the error and its causes.
\<close>

type_synonym network = "wire \<Rightarrow> (bool \<times> string list) + reply"

definition send_once ::
    "(string \<Rightarrow> string \<Rightarrow> bool) \<Rightarrow> decoders \<Rightarrow> network \<Rightarrow> client \<Rightarrow> bool \<Rightarrow> request \<Rightarrow>
     ((net_error + response \<times> bool) \<times> client) option" where
  "send_once site dc io cl critical_retry r =
     (case build_request site cl critical_retry r of
        None \<Rightarrow> None
      | Some (Inl e) \<Rightarrow> Some (Inl e, cl)
      | Some (Inr w) \<Rightarrow>
          (case io w of
             Inl (timeout, chain) \<Rightarrow> Some (Inl (transport_error timeout chain), cl)
           | Inr p \<Rightarrow>
               let (result, st) = finish_response dc cl critical_retry r p
               in Some (result, cl\<lparr>cl_hints := st\<rparr>)))"

text \<open>A restarted navigation meets the network again, in the state \<open>io'\<close> it is in then.\<close>

definition send ::
    "(string \<Rightarrow> string \<Rightarrow> bool) \<Rightarrow> decoders \<Rightarrow> network \<Rightarrow> network \<Rightarrow> client \<Rightarrow> request \<Rightarrow>
     ((net_error + response) \<times> client) option" where
  "send site dc io io' cl r =
     (case send_once site dc io cl False r of
        None \<Rightarrow> None
      | Some (Inl e, cl') \<Rightarrow> Some (Inl e, cl')
      | Some (Inr (resp, restart), cl') \<Rightarrow>
          if restart \<and> rq_kind r = Document
          then map_option (\<lambda>(result, cl''). (map_sum id fst result, cl'')) (send_once site dc io' cl' True r)
          else Some (Inr resp, cl'))"

text \<open>A client is the stub or the real one.\<close>

datatype any_client = StubClient | FingerprintClient client

definition any_send ::
    "(string \<Rightarrow> string \<Rightarrow> bool) \<Rightarrow> decoders \<Rightarrow> network \<Rightarrow> network \<Rightarrow> any_client \<Rightarrow> request \<Rightarrow>
     ((net_error + response) \<times> any_client) option" where
  "any_send site dc io io' c r =
     (case c of
        StubClient \<Rightarrow> Some (Inl NetUnimplemented, StubClient)
      | FingerprintClient cl \<Rightarrow>
          map_option (\<lambda>(result, cl'). (result, FingerprintClient cl')) (send site dc io io' cl r))"

definition hint_preferences :: "any_client \<Rightarrow> (string \<times> string list) list" where
  "hint_preferences c = (case c of StubClient \<Rightarrow> [] | FingerprintClient cl \<Rightarrow> hs_snapshot (cl_hints cl))"

definition restore_hint_preferences :: "(string \<times> string list) list \<Rightarrow> any_client \<Rightarrow> any_client" where
  "restore_hint_preferences saved c =
     (case c of
        StubClient \<Rightarrow> StubClient
      | FingerprintClient cl \<Rightarrow> FingerprintClient (cl\<lparr>cl_hints := hs_restore saved (cl_hints cl)\<rparr>))"

section \<open>What a page cannot influence\<close>

definition forbidden :: "request_kind \<Rightarrow> string \<Rightarrow> bool" where
  "forbidden kind k =
     (let lk = to_ascii_lowercase k
      in (List.member owned_headers lk \<and> lk \<noteq> ''accept'') \<or> has_prefix lk ''sec-'' \<or> lk = ''priority''
         \<or> lk = ''upgrade-insecure-requests'' \<or> (lk = ''accept'' \<and> kind \<noteq> Xhr))"

definition allowed :: "request_kind \<Rightarrow> (string \<times> string) list \<Rightarrow> (string \<times> string) list" where
  "allowed kind hs = filter (\<lambda>(k, _). \<not> forbidden kind k) hs"

abbreviation sanitized :: "request \<Rightarrow> request" where
  "sanitized r \<equiv> r\<lparr>rq_headers := allowed (rq_kind r) (rq_headers r)\<rparr>"

lemma allowed_find:
  "(\<And>k. Q k \<Longrightarrow> \<not> forbidden kind k) \<Longrightarrow>
   find (\<lambda>p. Q (fst p)) (allowed kind hs) = find (\<lambda>p. Q (fst p)) hs"
  by (induction hs) (auto simp: allowed_def split_def)

lemma allowed_list_ex:
  "(\<And>k. Q k \<Longrightarrow> \<not> forbidden kind k) \<Longrightarrow>
   list_ex (\<lambda>p. Q (fst p)) (allowed kind hs) = list_ex (\<lambda>p. Q (fst p)) hs"
  by (induction hs) (auto simp: allowed_def split_def)

lemma referer_allowed: "eq_ignore_ascii_case k ''referer'' \<Longrightarrow> \<not> forbidden kind k"
proof -
  assume "eq_ignore_ascii_case k ''referer''"
  then have "to_ascii_lowercase k = ''referer''"
    unfolding eq_ignore_ascii_case_def by (simp add: to_ascii_lowercase_def lower_char_def Let_def)
  then show ?thesis
    by (simp add: forbidden_def Let_def owned_headers_def has_prefix_def)
qed

lemma accept_allowed: "eq_ignore_ascii_case k ''accept'' \<Longrightarrow> \<not> forbidden Xhr k"
proof -
  assume "eq_ignore_ascii_case k ''accept''"
  then have "to_ascii_lowercase k = ''accept''"
    unfolding eq_ignore_ascii_case_def by (simp add: to_ascii_lowercase_def lower_char_def Let_def)
  then show ?thesis
    by (simp add: forbidden_def Let_def has_prefix_def)
qed

lemma sanitized_asker [simp]: "asker (sanitized r) = asker r"
  using allowed_find [of "\<lambda>k. eq_ignore_ascii_case k ''referer''", OF referer_allowed]
  by (simp add: asker_def header_named_def split_def cong: option.case_cong)

lemma sanitized_has_referer [simp]: "has_referer (sanitized r) = has_referer r"
  using allowed_list_ex [of "\<lambda>k. eq_ignore_ascii_case k ''referer''", OF referer_allowed]
  by (simp add: has_referer_def split_def)

lemma sanitized_own_accept [simp]: "own_accept (sanitized r) = own_accept r"
  using allowed_list_ex [of "\<lambda>k. eq_ignore_ascii_case k ''accept''" Xhr, OF accept_allowed]
  by (cases "rq_kind r = Xhr") (simp_all add: own_accept_def split_def)

lemma sanitized_simps [simp]:
  "is_preflight (sanitized r) = is_preflight r"
  "is_media (sanitized r) = is_media r"
  "plain_http (sanitized r) = plain_http r"
  "same_origin (sanitized r) = same_origin r"
  "fetch_site site (sanitized r) = fetch_site site r"
  "hint_scope (sanitized r) = hint_scope r"
  "extra_hints cl (sanitized r) = extra_hints cl r"
  "includes_credentials (sanitized r) = includes_credentials r"
  "empty_jar (sanitized r) = empty_jar r"
  "origin_header (sanitized r) = origin_header r"
  "sent_origin (sanitized r) = sent_origin r"
  "origin_in_map (sanitized r) = origin_in_map r"
  "storage_access site (sanitized r) = storage_access site r"
  "claims_user (sanitized r) = claims_user r"
  "priority_value (sanitized r) = priority_value r"
  "first_lines (sanitized r) = first_lines r"
  "media_headers (sanitized r) = media_headers r"
  "preflight_headers cl (sanitized r) = preflight_headers cl r"
  by (simp_all add: is_preflight_def is_media_def plain_http_def same_origin_def fetch_site_def
      hint_scope_def extra_hints_def includes_credentials_def empty_jar_def wants_origin_def page_origin_def
      origin_header_def sent_origin_def origin_in_map_def storage_access_def claims_user_def
      priority_value_def first_lines_def media_headers_def preflight_headers_def
      cong: option.case_cong if_cong)

lemma own_accept_kind: "\<not> own_accept r \<Longrightarrow> rq_kind r = Xhr"
  by (simp add: own_accept_def)

lemma forwarded_cong:
  "rq_kind r' = rq_kind r \<Longrightarrow> own_accept r' = own_accept r \<Longrightarrow> rq_url r' = rq_url r \<Longrightarrow>
   rq_referrer_policy r' = rq_referrer_policy r \<Longrightarrow> forwarded r' hs = forwarded r hs"
  by (induction hs) (auto simp: Let_def split: option.split)


lemma page_header_names_allowed:
  "filter (\<lambda>k. (\<not> List.member owned_headers k \<or> (k = ''accept'' \<and> \<not> own_accept r)) \<and> \<not> has_prefix k ''sec-''
         \<and> \<not> List.member [''content-length'', ''referer'', ''origin'', ''cookie'', ''priority'',
                         ''upgrade-insecure-requests''] k)
       (map (\<lambda>(k, _). to_ascii_lowercase k) (allowed (rq_kind r) hs)) =
   filter (\<lambda>k. (\<not> List.member owned_headers k \<or> (k = ''accept'' \<and> \<not> own_accept r)) \<and> \<not> has_prefix k ''sec-''
         \<and> \<not> List.member [''content-length'', ''referer'', ''origin'', ''cookie'', ''priority'',
                         ''upgrade-insecure-requests''] k)
       (map (\<lambda>(k, _). to_ascii_lowercase k) hs)"
  using own_accept_kind [of r]
  by (induction hs) (auto simp: allowed_def forbidden_def Let_def owned_headers_def)

lemma sanitized_names [simp]: "page_header_names (sanitized r) = page_header_names r"
  unfolding page_header_names_def using page_header_names_allowed [of r "rq_headers r"] by simp

lemma sanitized_forwarded [simp]: "forwarded (sanitized r) hs = forwarded r hs"
  by (rule forwarded_cong) simp_all


lemma sanitized_orders [simp]:
  "map_names extra (sanitized r) = map_names extra r"
  "middle_order critical_retry extra (sanitized r) = middle_order critical_retry extra r"
  "trailing_order site (sanitized r) = trailing_order site r"
  "preflight_order (sanitized r) = preflight_order r"
  by (simp_all add: map_names_def middle_order_def trailing_order_def preflight_order_def)



section \<open>Client hints stay with their origin\<close>




lemma hint_headers_in:
  "(n, v) \<in> set (hint_headers cl extra) \<longleftrightarrow> n \<in> set extra \<and> hint_value (cl_values cl) n = Some v"
  by (induction extra) (auto simp: hint_headers_def List.map_filter_simps split: option.splits)


lemma forwarded_in:
  "(k, v) \<in> set (forwarded r hs) \<Longrightarrow>
   \<not> has_prefix (to_ascii_lowercase k) ''sec-'' \<and> to_ascii_lowercase k \<noteq> ''priority'' \<and>
   to_ascii_lowercase k \<noteq> ''upgrade-insecure-requests'' \<and>
   (to_ascii_lowercase k \<notin> set owned_headers \<or> (to_ascii_lowercase k = ''accept'' \<and> \<not> own_accept r)) \<and>
   (if to_ascii_lowercase k = ''referer''
    then \<exists>w. (k, w) \<in> set hs \<and> referrer_for w (rq_url r) (rq_referrer_policy r) = Some v
    else (k, v) \<in> set hs)"
proof (induction hs)
  case (Cons h hs)
  obtain k' v' where h: "h = (k', v')"
    by force
  show ?case
  proof (cases "(k, v) \<in> set (forwarded r hs)")
    case True
    with Cons.IH show ?thesis
      by auto
  next
    case False
    with Cons.prems h show ?thesis
      by (auto simp: Let_def split: if_splits option.splits)
  qed
qed simp

lemma build_request_Inr:
  "build_request site cl critical_retry r = Some (Inr w) \<Longrightarrow>
   w_headers w = request_headers site cl r \<and> w_session_cookies w = (\<not> empty_jar r) \<and>
   header_order site critical_retry (extra_hints cl r) r = Some (w_order w)"
  by (auto simp: build_request_def Let_def split: if_splits)

lemmas engine_headers_defs =
  media_headers_def preflight_headers_def fetch_headers_def navigation_headers_def List.map_filter_def


section \<open>Names the engine uses\<close>

definition engine_headers :: "(string \<Rightarrow> string \<Rightarrow> bool) \<Rightarrow> client \<Rightarrow> request \<Rightarrow> (string \<times> string) list" where
  "engine_headers site cl r =
     media_headers r @ preflight_headers cl r @ hint_headers cl (extra_hints cl r) @ fetch_headers site r @
     navigation_headers site r"

definition engine_names :: "string list" where
  "engine_names =
     [''accept-encoding'', ''range'', ''user-agent'', ''accept-language'', ''accept'', ''sec-fetch-site'',
      ''sec-fetch-mode'', ''sec-fetch-dest'', ''priority'', ''sec-purpose'', ''connection'', ''origin'',
      ''upgrade-insecure-requests'', ''sec-fetch-user'', ''sec-fetch-storage-access''] @ navigation_order"

lemma request_headers_parts: "request_headers site cl r = engine_headers site cl r @ forwarded r (rq_headers r)"
  by (simp add: request_headers_def engine_headers_def)

lemma hint_value_named: "hint_value v n = Some x \<Longrightarrow> n \<in> set blink_insert_order \<and> n \<in> set navigation_order"
proof -
  assume "hint_value v n = Some x"
  then have "List.member [''device-memory'', ''sec-ch-device-memory'', ''dpr'', ''sec-ch-dpr'', ''viewport-width'',
      ''sec-ch-viewport-width'', ''sec-ch-viewport-height'', ''rtt'', ''downlink'', ''ect'',
      ''sec-ch-ua-full-version'', ''sec-ch-ua-arch'', ''sec-ch-ua-platform-version'', ''sec-ch-ua-model'',
      ''sec-ch-ua-bitness'', ''sec-ch-ua-wow64'', ''sec-ch-ua-full-version-list'', ''sec-ch-ua-form-factors'',
      ''sec-ch-prefers-color-scheme'', ''sec-ch-prefers-reduced-motion'',
      ''sec-ch-prefers-reduced-transparency''] n"
    by (auto simp: hint_value_def simp del: list.inject split: if_splits)
  then show ?thesis
    by (auto simp: blink_insert_order_def navigation_order_def simp del: list.inject char.inject)
qed

lemma engine_header_name: "(k, v) \<in> set (engine_headers site cl r) \<Longrightarrow> k \<in> set engine_names"
  using hint_value_named [of "cl_values cl" k v]
  by (auto simp: engine_headers_def engine_headers_defs hint_headers_in engine_names_def
      split: if_splits option.splits)

lemma engine_names_facts:
  "k \<in> set engine_names \<Longrightarrow> to_ascii_lowercase k = k \<and> k \<noteq> ''referer''"
proof -
  have "list_all (\<lambda>k. to_ascii_lowercase k = k \<and> k \<noteq> ''referer'') engine_names"
    by code_simp
  then show "k \<in> set engine_names \<Longrightarrow> ?thesis"
    by (simp add: list_all_iff)
qed

lemmas engine_header_facts = engine_names_facts [OF engine_header_name]

section \<open>What a referrer reveals\<close>





section \<open>Every header has a place\<close>

lemma map_names_order: "blink_map_order names = Some order \<Longrightarrow> set order = set names"
  using blink_order_ok [of names] by auto

lemma blink_order_Some: "\<exists>order. blink_map_order names = Some order"
  using blink_order_ok by blast

lemma header_order_Some: "\<exists>order. header_order site critical_retry extra r = Some order"
  using blink_order_Some [of "map_names extra r"] by (auto simp: header_order_def leading_order_def)

lemma header_order_parts:
  assumes "header_order site critical_retry extra r = Some order" and "\<not> is_preflight r"
  obtains leading where "leading_order critical_retry extra r = Some leading"
    and "order = first_lines r @ leading @ middle_order critical_retry extra r @ trailing_order site r"
  using assms by (auto simp: header_order_def split: option.splits)

lemma leading_order_set:
  assumes "leading_order critical_retry extra r = Some leading"
  shows "\<not> navigates (rq_kind r) \<Longrightarrow> set (map_names extra r) \<union> {''content-length''} \<subseteq> set leading"
    and "navigates (rq_kind r) \<Longrightarrow>
      {n \<in> set navigation_order. n \<in> set extra} \<subseteq> set leading \<union> set (middle_order critical_retry extra r)"
proof -
  assume "\<not> navigates (rq_kind r)"
  with assms obtain names where "blink_map_order (map_names extra r) = Some names" "leading = ''content-length'' # names"
    by (auto simp: leading_order_def)
  with map_names_order [of "map_names extra r"] show "set (map_names extra r) \<union> {''content-length''} \<subseteq> set leading"
    by auto
next
  assume "navigates (rq_kind r)"
  with assms show "{n \<in> set navigation_order. n \<in> set extra} \<subseteq> set leading \<union> set (middle_order critical_retry extra r)"
    by (cases critical_retry) (auto simp: leading_order_def middle_order_def sends_hint_def)
qed

lemma header_order_set:
  assumes "header_order site critical_retry extra r = Some order" and "\<not> is_preflight r"
  shows "set (first_lines r) \<union> set (middle_order critical_retry extra r) \<union> set (trailing_order site r) \<subseteq> set order"
    and "\<not> navigates (rq_kind r) \<Longrightarrow> set (map_names extra r) \<union> {''content-length''} \<subseteq> set order"
    and "navigates (rq_kind r) \<Longrightarrow> {n \<in> set navigation_order. n \<in> set extra} \<subseteq> set order"
proof -
  obtain leading where l: "leading_order critical_retry extra r = Some leading"
    "order = first_lines r @ leading @ middle_order critical_retry extra r @ trailing_order site r"
    using header_order_parts [OF assms] .
  then show "set (first_lines r) \<union> set (middle_order critical_retry extra r) \<union> set (trailing_order site r) \<subseteq> set order"
    by auto
  show "set (map_names extra r) \<union> {''content-length''} \<subseteq> set order" if "\<not> navigates (rq_kind r)"
    using leading_order_set(1) [OF l(1) that] l(2) by auto
  show "{n \<in> set navigation_order. n \<in> set extra} \<subseteq> set order" if "navigates (rq_kind r)"
    using leading_order_set(2) [OF l(1) that] l(2) by auto
qed

lemma hint_name_order:
  assumes "header_order site critical_retry extra r = Some order" and "\<not> is_preflight r"
      and "(n, v) \<in> set (hint_headers cl extra)"
  shows "n \<in> set order"
proof -
  have "n \<in> set extra" "n \<in> set blink_insert_order" "n \<in> set navigation_order"
    using assms(3) hint_value_named [of "cl_values cl" n v] by (simp_all add: hint_headers_in)
  then show ?thesis
    using header_order_set(2,3) [OF assms(1,2)] by (cases "navigates (rq_kind r)") (auto simp: map_names_def sends_hint_def)
qed

lemma media_name_order: "(n, v) \<in> set (media_headers r) \<Longrightarrow>
   \<not> navigates (rq_kind r) \<and> n \<in> set (map_names extra r) \<union> set (trailing_order site r)"
  by (auto simp: media_headers_def map_names_def trailing_order_def is_media_def navigates_def
      simp del: list.inject split: if_splits)

definition places ::
    "(string \<Rightarrow> string \<Rightarrow> bool) \<Rightarrow> bool \<Rightarrow> string list \<Rightarrow> request \<Rightarrow> string set" where
  "places site critical_retry extra r =
     set (first_lines r) \<union> set (middle_order critical_retry extra r) \<union> set (trailing_order site r)
       \<union> (if navigates (rq_kind r) then {} else set (map_names extra r))"

lemma places_simps:
  "own_accept r \<Longrightarrow> ''accept'' \<in> places site critical_retry extra r"
  "rq_kind r = Prerender \<Longrightarrow> ''sec-purpose'' \<in> places site critical_retry extra r"
  "rq_kind r = Prefetch \<Longrightarrow> ''sec-purpose'' \<in> places site critical_retry extra r"
  "plain_http r \<Longrightarrow> ''connection'' \<in> places site critical_retry extra r"
  "navigates (rq_kind r) \<Longrightarrow> ''upgrade-insecure-requests'' \<in> places site critical_retry extra r"
  by (simp_all add: places_def middle_order_def map_names_def first_lines_def navigates_def)

lemma places_trailing:
  "n \<in> set (trailing_order site r) \<Longrightarrow> n \<in> places site critical_retry extra r"
  by (simp add: places_def)

lemma trailing_names:
  "''sec-fetch-site'' \<in> set (trailing_order site r)"
  "''sec-fetch-mode'' \<in> set (trailing_order site r)"
  "''sec-fetch-dest'' \<in> set (trailing_order site r)"
  "''priority'' \<in> set (trailing_order site r)"
  "claims_user r \<Longrightarrow> ''sec-fetch-user'' \<in> set (trailing_order site r)"
  "storage_access site r \<Longrightarrow> ''sec-fetch-storage-access'' \<in> set (trailing_order site r)"
  by (simp_all add: trailing_order_def)

lemma places_origin: "origin_header r = Some o' \<Longrightarrow> ''origin'' \<in> places site critical_retry extra r"
proof (cases "origin_in_map r")
  case True
  moreover assume "origin_header r = Some o'"
  then have "\<not> navigates (rq_kind r)"
    by (auto simp: origin_header_def split: if_splits)
  ultimately show ?thesis
    by (simp add: places_def map_names_def)
next
  case False
  moreover assume "origin_header r = Some o'"
  ultimately show ?thesis
    by (simp add: places_def middle_order_def sent_origin_def)
qed

lemma engine_name_order: "(n, v) \<in> set (fetch_headers site r @ navigation_headers site r) \<Longrightarrow>
   n \<in> places site critical_retry extra r"
  unfolding fetch_headers_def navigation_headers_def
  by (auto intro: places_simps places_origin places_origin [OF sym] places_trailing trailing_names split: if_splits option.splits)

lemma fetch_name_order:
  assumes "header_order site critical_retry extra r = Some order" and "\<not> is_preflight r"
      and "(n, v) \<in> set (media_headers r @ preflight_headers cl r @ fetch_headers site r @ navigation_headers site r)"
  shows "n \<in> set order"
proof -
  have "(n, v) \<notin> set (preflight_headers cl r)"
    using assms(2) by (simp add: preflight_headers_def)
  with assms(3) consider "(n, v) \<in> set (media_headers r)"
      | "(n, v) \<in> set (fetch_headers site r @ navigation_headers site r)"
    by auto
  then show ?thesis
  proof cases
    case 1
    from media_name_order [OF this, of extra site] header_order_set [OF assms(1,2)] show ?thesis
      by auto
  next
    case 2
    from engine_name_order [OF this, of critical_retry extra] header_order_set [OF assms(1,2)] show ?thesis
      by (auto simp: places_def split: if_splits)
  qed
qed

lemma forwarded_name_order:
  assumes "header_order site critical_retry extra r = Some order" and "\<not> is_preflight r"
      and "(k, v) \<in> set (forwarded r (rq_headers r))"
  shows "to_ascii_lowercase k \<in> set order \<or>
    ((k, v) \<in> set (rq_headers r) \<and> (navigates (rq_kind r) \<or> to_ascii_lowercase k \<in> {''origin'', ''cookie''}))"
proof (cases "to_ascii_lowercase k = ''referer''")
  case True
  with header_order_set(1) [OF assms(1,2)] show ?thesis
    by (auto simp: trailing_order_def)
next
  case False
  with forwarded_in [OF assms(3)] have given: "(k, v) \<in> set (rq_headers r)"
    by simp
  have "to_ascii_lowercase k \<in> set (page_header_names r) \<union> {''content-length'', ''origin'', ''cookie''}"
    using forwarded_in [OF assms(3)] False given
    by (force simp: page_header_names_def)
  with given header_order_set(2) [OF assms(1,2)] show ?thesis
    by (auto simp: map_names_def)
qed

text \<open>
  No header trails behind in an order of its own: every header set on a request that is not
  a preflight has its place in the order given to the library, except the page's own headers on a
  navigation and an \<open>Origin\<close> or \<open>Cookie\<close> header the page supplied itself.
\<close>

theorem every_header_has_a_place:
  assumes "build_request site cl critical_retry r = Some (Inr w)"
      and "rq_kind r \<noteq> Preflight"
      and "(k, v) \<in> set (w_headers w)"
  shows "to_ascii_lowercase k \<in> set (w_order w) \<or>
    ((k, v) \<in> set (rq_headers r) \<and> (navigates (rq_kind r) \<or> to_ascii_lowercase k \<in> {''origin'', ''cookie''}))"
proof -
  from assms(2) have pre: "\<not> is_preflight r"
    by (simp add: is_preflight_def)
  note w = build_request_Inr [OF assms(1)]
  then have order: "header_order site critical_retry (extra_hints cl r) r = Some (w_order w)"
    by simp
  show ?thesis
  proof (cases "(k, v) \<in> set (forwarded r (rq_headers r))")
    case True
    from forwarded_name_order [OF order pre this] show ?thesis .
  next
    case False
    with assms(3) w have engine: "(k, v) \<in> set (engine_headers site cl r)"
      by (simp add: request_headers_parts)
    then have "k \<in> set (w_order w)"
      using hint_name_order [OF order pre, of k v] fetch_name_order [OF order pre, of k v cl]
      by (auto simp: engine_headers_def)
    with engine_header_facts [OF engine] show ?thesis
      by simp
  qed
qed

section \<open>The store of hints\<close>

lemma hints_set_ok:
  assumes "stored_ok st"
  shows "stored_ok (snd (hints_set r critical_retry extra url headers st)) \<and>
    (rq_kind r = Document \<or> hints_set r critical_retry extra url headers st = (False, st))"
  using assms by (auto simp: hints_set_def Let_def hs_set_ok parse_hints_ok split: option.splits)

lemma send_once_Some:
  assumes "stored_ok (cl_hints cl)"
  shows "\<exists>result st. send_once site dc io cl critical_retry r = Some (result, cl\<lparr>cl_hints := st\<rparr>) \<and> stored_ok st \<and>
    (rq_kind r = Document \<or> st = cl_hints cl)"
proof -
  obtain order where "header_order site critical_retry (extra_hints cl r) r = Some order"
    using header_order_Some by blast
  then have "build_request site cl critical_retry r \<noteq> None"
    by (simp add: build_request_def Let_def)
  then obtain built where built: "build_request site cl critical_retry r = Some built"
    by blast
  show ?thesis
  proof (cases built)
    case (Inl e)
    then have "send_once site dc io cl critical_retry r = Some (Inl e, cl\<lparr>cl_hints := cl_hints cl\<rparr>)"
      using built by (simp add: send_once_def)
    with assms show ?thesis
      by blast
  next
    case (Inr w)
    show ?thesis
    proof (cases "io w")
      case (Inl f)
      then have "send_once site dc io cl critical_retry r =
          Some (Inl (transport_error (fst f) (snd f)), cl\<lparr>cl_hints := cl_hints cl\<rparr>)"
        using built Inr by (simp add: send_once_def split_def)
      with assms show ?thesis
        by blast
    next
      case p: (Inr p)
      obtain result st where f: "finish_response dc cl critical_retry r p = (result, st)"
        by force
      then have "stored_ok st \<and> (rq_kind r = Document \<or> st = cl_hints cl)"
        using hints_set_ok [OF assms, of r critical_retry "extra_hints cl r" "rp_url p" "collect_headers (rp_headers p)"]
        by (auto simp: finish_response_def Let_def split: prod.splits)
      with f p Inr built show ?thesis
        by (auto simp: send_once_def)
    qed
  qed
qed

text \<open>
  Whatever the network does, sending ends with a response or an error and never panics, a
  navigation starts over at most once, and the store of hints stays well formed: only distinct known
  hints, at most one non-empty entry per origin; only a document changes it.
\<close>

theorem sending_keeps_the_hint_store:
  assumes "stored_ok (cl_hints cl)"
  shows "\<exists>result st. send site dc io io' cl r = Some (result, cl\<lparr>cl_hints := st\<rparr>) \<and> stored_ok st \<and>
    (rq_kind r = Document \<or> st = cl_hints cl)"
proof -
  obtain result st where one: "send_once site dc io cl False r = Some (result, cl\<lparr>cl_hints := st\<rparr>)" "stored_ok st"
      "rq_kind r = Document \<or> st = cl_hints cl"
    using send_once_Some [OF assms] by blast
  have "stored_ok (cl_hints (cl\<lparr>cl_hints := st\<rparr>))"
    using one by simp
  from send_once_Some [OF this, of site dc io' True r] obtain result' st' where
    two: "send_once site dc io' (cl\<lparr>cl_hints := st\<rparr>) True r = Some (result', cl\<lparr>cl_hints := st'\<rparr>)" "stored_ok st'"
    by auto
  from one two show ?thesis
    by (cases result) (auto simp: send_def split: prod.splits if_splits)
qed

section \<open>A navigation\<close>

definition demo_request :: request where
  "demo_request =
     \<lparr>rq_method = ''get'', rq_url = ''https://shop.example/cart'',
      rq_headers = [(''Referer'', ''https://shop.example/?q=1#top''), (''User-Agent'', ''curl'')], rq_body = None,
      rq_kind = Document, rq_user_activated = True, rq_third_party = False, rq_context = None, rq_doc_hints = [],
      rq_urgency = None, rq_omit_credentials = False, rq_initiator = None, rq_referrer_policy = None,
      rq_credentials_include = None\<rparr>"

definition demo_client :: client where
  "demo_client =
     \<lparr>cl_hints = [(''https://shop.example'', [''sec-ch-ua-arch''])], cl_values = default_hints, cl_defaults = []\<rparr>"

definition demo_wire :: wire where
  "demo_wire =
     \<lparr>w_method = ''GET'', w_url = rq_url demo_request, w_default_headers = True,
      w_headers = request_headers (\<lambda>_ _. False) demo_client demo_request,
      w_order = the (header_order (\<lambda>_ _. False) False (extra_hints demo_client demo_request) demo_request),
      w_session_cookies = True, w_body = None\<rparr>"

lemma demo_built: "build_request (\<lambda>_ _. False) demo_client False demo_request = Some (Inr demo_wire)"
  by code_simp

lemma demo_headers:
  "(''sec-ch-ua-arch'', hd (map snd (hint_headers demo_client [''sec-ch-ua-arch'']))) \<in> set (w_headers demo_wire)"
  "(''Referer'', ''https://shop.example/?q=1'') \<in> set (w_headers demo_wire)"
  by code_simp+



theorem every_header_has_a_place_witness:
  "''sec-ch-ua-arch'' \<in> set (w_order demo_wire) \<or> (''sec-ch-ua-arch'', ''x'') \<in> set (rq_headers demo_request)"
  using every_header_has_a_place [OF demo_built _ demo_headers(1)]
  by (auto simp: to_ascii_lowercase_def lower_char_def Let_def demo_request_def)

definition demo_decoders :: decoders where
  "demo_decoders = \<lparr>dc_br = Some, dc_gzip = Some, dc_zlib = Some, dc_plain = Some, dc_zstd = Some\<rparr>"

theorem sending_keeps_the_hint_store_witness:
  "\<exists>result st. send (\<lambda>_ _. False) demo_decoders (\<lambda>_. Inl (True, [])) (\<lambda>_. Inl (True, [])) demo_client demo_request =
     Some (result, demo_client\<lparr>cl_hints := st\<rparr>) \<and> stored_ok st"
proof -
  have "stored_ok (cl_hints demo_client)"
    by (auto simp: demo_client_def stored_ok_def hints_ok_def navigation_order_def base_hints_def)
  from sending_keeps_the_hint_store [OF this, of "\<lambda>_ _. False"] show ?thesis
    by blast
qed

end
