(* ===== verification/Intercept.thy ===== *)
theory Intercept
  imports NetSend
begin

text \<open>
  Holding a page's requests for a driver (\<open>crates/core/src/intercept.rs\<close>). Each request a page
  makes while a driver intercepts is paused under an id; the driver continues it, perhaps changed,
  fails it or answers it. The ids wait in a queue per address until the record of the completed
  request takes them (\<open>take_id\<close>). Channels are values: what a driver answers is an argument.
\<close>

section \<open>Ids by address\<close>

type_synonym id_table = "(string \<times> string list) list"

definition remember :: "string \<Rightarrow> string \<Rightarrow> id_table \<Rightarrow> id_table" where
  "remember url ident ids =
     AList.update url ((case map_of ids url of Some q \<Rightarrow> q | None \<Rightarrow> []) @ [ident]) ids"

definition take_id :: "string \<Rightarrow> id_table \<Rightarrow> string option \<times> id_table" where
  "take_id url ids =
     (case map_of ids url of
        None \<Rightarrow> (None, ids)
      | Some [] \<Rightarrow> (None, AList.delete url ids)
      | Some (ident # q) \<Rightarrow>
          (Some ident, if q = [] then AList.delete url ids else AList.update url q ids))"

definition queue_of :: "id_table \<Rightarrow> string \<Rightarrow> string list" where
  "queue_of ids url = (case map_of ids url of Some q \<Rightarrow> q | None \<Rightarrow> [])"

section \<open>Pausing a request\<close>

definition resource_type :: "request_kind \<Rightarrow> string" where
  "resource_type k =
     (case k of
        Document \<Rightarrow> ''Document'' | Iframe \<Rightarrow> ''Document''
      | Script \<Rightarrow> ''Script'' | ModuleScript \<Rightarrow> ''Script''
      | Xhr \<Rightarrow> ''Fetch'' | XhrNoCors \<Rightarrow> ''Fetch''
      | Preflight \<Rightarrow> ''Preflight''
      | Video \<Rightarrow> ''Media'' | Audio \<Rightarrow> ''Media''
      | Prerender \<Rightarrow> ''Document''
      | Subresource \<Rightarrow> ''Image'' | ImageCors \<Rightarrow> ''Image''
      | Style \<Rightarrow> ''Stylesheet'' | Font \<Rightarrow> ''Font'' | Manifest \<Rightarrow> ''Manifest'' | Beacon \<Rightarrow> ''Ping''
      | PreloadFetch \<Rightarrow> ''Other'' | Prefetch \<Rightarrow> ''Other'' | Worker \<Rightarrow> ''Other'')"

record paused_request =
  pr_id :: string
  pr_method :: string
  pr_url :: string
  pr_headers :: "(string \<times> string) list"
  pr_body :: bytes
  pr_resource_type :: string
  pr_context :: "nat option"

definition paused :: "string \<Rightarrow> request \<Rightarrow> paused_request" where
  "paused ident r =
     \<lparr>pr_id = ident, pr_method = rq_method r, pr_url = rq_url r, pr_headers = rq_headers r,
      pr_body = (case rq_body r of Some b \<Rightarrow> b | None \<Rightarrow> []), pr_resource_type = resource_type (rq_kind r),
      pr_context = rq_context r\<rparr>"

datatype decision =
    Continue "string option" "string option" "(string \<times> string) list option" "bytes option"
  | Fail
  | Fulfill nat "(string, string) btree_map" bytes

text \<open>
  A driver is a channel that may be closed (then no request can be put on it) and the answer to a
  paused request; no answer is a dropped reply.
\<close>

datatype driver = Closed | Listening "paused_request \<Rightarrow> decision option"

record page_client =
  pc_client :: any_client
  pc_driver :: "driver option"
  pc_ids :: id_table
  pc_next_id :: u64

definition next_request_id :: "page_client \<Rightarrow> string \<times> page_client" where
  "next_request_id pc = (''nokk-'' @ nat_str (unat (pc_next_id pc)), pc\<lparr>pc_next_id := pc_next_id pc + 1\<rparr>)"

definition intercept :: "driver \<Rightarrow> page_client \<Rightarrow> page_client" where
  "intercept d pc = pc\<lparr>pc_driver := Some d\<rparr>"

definition stop_intercepting :: "page_client \<Rightarrow> page_client" where
  "stop_intercepting pc = pc\<lparr>pc_driver := None\<rparr>"

section \<open>Deciding\<close>

definition changed_request ::
    "string option \<Rightarrow> string option \<Rightarrow> (string \<times> string) list option \<Rightarrow> bytes option \<Rightarrow> request \<Rightarrow> request" where
  "changed_request url meth headers body r =
     (let r = (case url of Some u \<Rightarrow> r\<lparr>rq_url := u\<rparr> | None \<Rightarrow> r);
          r = (case meth of Some m \<Rightarrow> r\<lparr>rq_method := m\<rparr> | None \<Rightarrow> r);
          r = (case headers of Some h \<Rightarrow> r\<lparr>rq_headers := h\<rparr> | None \<Rightarrow> r)
      in case body of Some b \<Rightarrow> r\<lparr>rq_body := Some b\<rparr> | None \<Rightarrow> r)"

definition client_send ::
    "(any_client \<Rightarrow> request \<Rightarrow> ((net_error + response) \<times> any_client) option) \<Rightarrow> page_client \<Rightarrow> request \<Rightarrow>
     ((net_error + response) \<times> page_client) option" where
  "client_send net pc r =
     map_option (\<lambda>(result, c). (result, pc\<lparr>pc_client := c\<rparr>)) (net (pc_client pc) r)"

definition hold_id :: "string \<Rightarrow> string \<Rightarrow> page_client \<Rightarrow> page_client" where
  "hold_id url ident pc = pc\<lparr>pc_ids := remember url ident (pc_ids pc)\<rparr>"

definition decided ::
    "(any_client \<Rightarrow> request \<Rightarrow> ((net_error + response) \<times> any_client) option) \<Rightarrow> string \<Rightarrow> decision \<Rightarrow>
     page_client \<Rightarrow> request \<Rightarrow> ((net_error + response) \<times> page_client) option" where
  "decided net ident d pc r =
     (case d of
        Continue url meth headers body \<Rightarrow>
          let r = changed_request url meth headers body r
          in client_send net (hold_id (rq_url r) ident pc) r
      | Fail \<Rightarrow> Some (Inl (NetConnect ''net::ERR_FAILED''), hold_id (rq_url r) ident pc)
      | Fulfill status headers body \<Rightarrow>
          Some (Inr \<lparr>rs_status = status, rs_headers = headers, rs_body = body, rs_encoded_len = length body,
                     rs_content_encoding = [], rs_url = rq_url r\<rparr>,
                hold_id (rq_url r) ident pc))"

text \<open>\<open>net\<close> is the client's \<open>send\<close>, over whatever network it has.\<close>

definition page_send ::
    "(any_client \<Rightarrow> request \<Rightarrow> ((net_error + response) \<times> any_client) option) \<Rightarrow> page_client \<Rightarrow> request \<Rightarrow>
     ((net_error + response) \<times> page_client) option" where
  "page_send net pc r =
     (case pc_driver pc of
        None \<Rightarrow> client_send net pc r
      | Some drv \<Rightarrow>
          let (ident, pc) = next_request_id pc
          in case drv of
               Closed \<Rightarrow> client_send net pc r
             | Listening ask \<Rightarrow>
                 let d = (case ask (paused ident r) of Some d \<Rightarrow> d | None \<Rightarrow> Continue None None None None)
                 in decided net ident d pc r)"

text \<open>The id of the record written for \<open>url\<close>, and whether it was announced at the pause.\<close>

definition record_id :: "string \<Rightarrow> page_client \<Rightarrow> (string \<times> bool) \<times> page_client" where
  "record_id url pc =
     (let (announced, ids) = take_id url (pc_ids pc);
          pc = pc\<lparr>pc_ids := ids\<rparr>
      in case announced of
           Some ident \<Rightarrow> ((ident, True), pc)
         | None \<Rightarrow> let (ident, pc) = next_request_id pc in ((ident, False), pc))"

section \<open>A queue per address\<close>

text \<open>
  A run of operations on such a table and on the queues it stands for; \<open>Inl\<close> enters a value under a
  key, \<open>Inr\<close> takes one. The answers are those of the takes.
\<close>

fun run_ops ::
    "('k \<Rightarrow> 'v \<Rightarrow> 't \<Rightarrow> 't) \<Rightarrow> ('k \<Rightarrow> 't \<Rightarrow> 'v option \<times> 't) \<Rightarrow> ('k \<times> 'v + 'k) list \<Rightarrow> 't \<Rightarrow>
     'v option list \<times> 't" where
  "run_ops ent get [] t = ([], t)"
| "run_ops ent get (Inl p # ops) t = run_ops ent get ops (ent (fst p) (snd p) t)"
| "run_ops ent get (Inr k # ops) t =
     (case get k t of (x, t) \<Rightarrow> case run_ops ent get ops t of (xs, t) \<Rightarrow> (x # xs, t))"

definition spec_enq :: "'k \<Rightarrow> 'v \<Rightarrow> ('k \<Rightarrow> 'v list) \<Rightarrow> 'k \<Rightarrow> 'v list" where
  "spec_enq k v q = q(k := q k @ [v])"

definition spec_deq :: "'k \<Rightarrow> ('k \<Rightarrow> 'v list) \<Rightarrow> 'v option \<times> ('k \<Rightarrow> 'v list)" where
  "spec_deq k q = ((case q k of [] \<Rightarrow> None | v # _ \<Rightarrow> Some v), q(k := tl (q k)))"

text \<open>What the client of such a table relies on, with the queues as an abstraction.\<close>

locale keyed_queue =
  fixes enq :: "'k \<Rightarrow> 'v \<Rightarrow> 't \<Rightarrow> 't"
    and deq :: "'k \<Rightarrow> 't \<Rightarrow> 'v option \<times> 't"
    and queue :: "'t \<Rightarrow> 'k \<Rightarrow> 'v list"
    and invar :: "'t \<Rightarrow> bool"
  assumes enq: "invar t \<Longrightarrow> invar (enq k v t) \<and> queue (enq k v t) = spec_enq k v (queue t)"
      and deq: "invar t \<Longrightarrow> invar (snd (deq k t)) \<and> map_prod id queue (deq k t) = spec_deq k (queue t)"
begin

lemma run_refines:
  "invar t \<Longrightarrow> map_prod id queue (run_ops enq deq ops t) = run_ops spec_enq spec_deq ops (queue t)"
proof (induction ops arbitrary: t)
  case (Cons op ops)
  show ?case
  proof (cases op)
    case (Inl p)
    then show ?thesis
      using Cons.IH [of "enq (fst p) (snd p) t"] enq [OF Cons.prems, of "fst p" "snd p"] by simp
  next
    case (Inr k)
    obtain x t' where d: "deq k t = (x, t')"
      by force
    obtain xs t'' where r: "run_ops enq deq ops t' = (xs, t'')"
      by force
    from deq [OF Cons.prems, of k] d have t': "invar t'" "spec_deq k (queue t) = (x, queue t')"
      by simp_all
    from Cons.IH [OF t'(1)] r have "run_ops spec_enq spec_deq ops (queue t') = (xs, queue t'')"
      by simp
    with Inr d r t' show ?thesis
      by simp
  qed
qed simp

end

definition ids_ok :: "id_table \<Rightarrow> bool" where
  "ids_ok ids \<longleftrightarrow> distinct (map fst ids) \<and> [] \<notin> snd ` set ids"

lemma ids_ok_get: "ids_ok ids \<Longrightarrow> map_of ids url \<noteq> Some []"
  by (force simp: ids_ok_def dest: map_of_SomeD)

lemma snd_set_update:
  "distinct (map fst ids) \<Longrightarrow> snd ` set (AList.update k v ids) \<subseteq> insert v (snd ` set ids)"
  by (induction ids) auto

lemma queue_of_update [simp]: "queue_of (AList.update k v ids) = (queue_of ids)(k := v)"
  by (rule ext) (simp add: queue_of_def update_conv')

lemma queue_of_delete [simp]: "queue_of (AList.delete k ids) = (queue_of ids)(k := [])"
  by (rule ext) (simp add: queue_of_def delete_conv')

interpretation hold: keyed_queue remember take_id queue_of ids_ok
proof
  fix t :: id_table and k v :: string
  assume ok: "ids_ok t"
  have "ids_ok (remember k v t)"
    using ok snd_set_update [of t k] unfolding ids_ok_def remember_def by (force simp: distinct_update)
  then show "ids_ok (remember k v t) \<and> queue_of (remember k v t) = spec_enq k v (queue_of t)"
    by (simp add: remember_def spec_enq_def) (simp add: queue_of_def)
next
  fix t :: id_table and k :: string
  assume ok: "ids_ok t"
  show "ids_ok (snd (take_id k t)) \<and> map_prod id queue_of (take_id k t) = spec_deq k (queue_of t)"
  proof (cases "map_of t k")
    case None
    then have "queue_of t k = []"
      by (simp add: queue_of_def)
    with None ok show ?thesis
      by (auto simp: take_id_def spec_deq_def fun_eq_iff)
  next
    case (Some q)
    then obtain ident rest where q: "q = ident # rest"
      using ids_ok_get [OF ok, of k] by (cases q) auto
    have del: "ids_ok (AList.delete k t)"
      using ok distinct_delete [of t k] by (auto simp: ids_ok_def AList.delete_eq)
    have upd: "rest \<noteq> [] \<Longrightarrow> ids_ok (AList.update k rest t)"
      using ok snd_set_update [of t k rest] by (auto simp: ids_ok_def distinct_update)
    from Some q have "queue_of t k = ident # rest"
      by (simp add: queue_of_def)
    with Some q del upd show ?thesis
      by (simp add: take_id_def spec_deq_def)
  qed
qed

text \<open>
  Claim C36. Ids are handed to records first in, first out for each address, whatever happens at other
  addresses in between: however pauses and records interleave, the table of queues answers as one
  unbounded queue per address would, and leaves the same queues behind.
\<close>

theorem ids_are_fifo_per_address:
  "map_prod id queue_of (run_ops remember take_id ops []) = run_ops spec_enq spec_deq ops (\<lambda>_. [])"
proof -
  have "ids_ok []" "queue_of [] = (\<lambda>_. [])"
    by (auto simp: ids_ok_def queue_of_def)
  then show ?thesis
    using hold.run_refines [of "[]" ops] by simp
qed

text \<open>
  When a driver lets a request go out to another address, its id is held under the new
  address while the record is written for the old one: if nothing else waits there, the record gets a
  new id and counts as not announced, and the announced id stays behind for whatever next asks for
  the new address.
\<close>

theorem rewritten_request_loses_its_id:
  assumes "pc_driver pc = Some (Listening ask)"
      and "ask (paused (fst (next_request_id pc)) r) = Some (Continue (Some url) meth headers body)"
      and "url \<noteq> rq_url r"
      and "queue_of (pc_ids pc) (rq_url r) = []"
      and "page_send net pc r = Some (result, pc')"
  shows "snd (fst (record_id (rq_url r) pc')) = False \<and>
    fst (fst (record_id (rq_url r) pc')) = fst (next_request_id pc') \<and>
    fst (next_request_id pc) \<in> set (queue_of (pc_ids (snd (record_id (rq_url r) pc'))) url)"
proof -
  obtain ident where ident: "next_request_id pc = (ident, pc\<lparr>pc_next_id := pc_next_id pc + 1\<rparr>)"
    by (simp add: next_request_id_def)
  have url: "rq_url (changed_request (Some url) meth headers body r) = url"
    by (simp add: changed_request_def Let_def split: option.split)
  obtain c where pc': "pc' = pc\<lparr>pc_next_id := pc_next_id pc + 1, pc_ids := remember url ident (pc_ids pc), pc_client := c\<rparr>"
    using assms(1,2,5) url ident by (auto simp: page_send_def decided_def client_send_def hold_id_def)
  have kept: "queue_of (pc_ids pc') = (queue_of (pc_ids pc))(url := queue_of (pc_ids pc) url @ [ident])"
    unfolding pc' by (simp add: remember_def) (simp add: queue_of_def)
  with assms(3,4) have empty: "queue_of (pc_ids pc') (rq_url r) = []"
    by simp
  have "fst (take_id (rq_url r) (pc_ids pc')) = None \<and>
      queue_of (snd (take_id (rq_url r) (pc_ids pc'))) = queue_of (pc_ids pc')"
    using empty by (auto simp: take_id_def queue_of_def fun_eq_iff delete_conv' split: option.splits)
  with kept ident show ?thesis
    by (auto simp: record_id_def Let_def next_request_id_def split_def)
qed

definition demo_page :: page_client where
  "demo_page =
     \<lparr>pc_client = StubClient,
      pc_driver = Some (Listening (\<lambda>_. Some (Continue (Some ''https://mirror.example/'') None None None))),
      pc_ids = [], pc_next_id = 1\<rparr>"

theorem rewritten_request_loses_its_id_witness:
  "snd (fst (record_id (rq_url demo_request)
     (snd (the (page_send (\<lambda>c _. Some (Inl NetTimeout, c)) demo_page demo_request))))) = False"
proof -
  have sent: "page_send (\<lambda>c _. Some (Inl NetTimeout, c)) demo_page demo_request =
      Some (Inl NetTimeout, snd (the (page_send (\<lambda>c _. Some (Inl NetTimeout, c)) demo_page demo_request)))"
    by (simp add: page_send_def demo_page_def decided_def client_send_def Let_def next_request_id_def)
  have other: "''https://mirror.example/'' \<noteq> rq_url demo_request"
    by code_simp
  show ?thesis
    by (rule conjunct1 [OF rewritten_request_loses_its_id [OF _ _ other _ sent]])
      (simp_all add: demo_page_def queue_of_def)
qed

end
