(* ===== verification/Blocklist.thy ===== *)
theory Blocklist
  imports Text
begin

text \<open>
  The tracker blocklist (\<open>crates/net/src/blocklist.rs\<close>), the location of the exit address
  (\<open>geoip.rs\<close>) and the cookie header of a session's jar (\<open>session.rs\<close>). The text of the list,
  the JSON parser, the URL parser and the cookie store are arguments.
\<close>

section \<open>The list\<close>

definition text_lines :: "string \<Rightarrow> string list" where
  "text_lines s =
     (let ls = split_on (CHR 0x0A) s;
          ls = (if last ls = [] then butlast ls else ls)
      in map (\<lambda>l. case strip_suffix [CHR 0x0D] l of Some r \<Rightarrow> r | None \<Rightarrow> l) ls)"

definition blocklist :: "string \<Rightarrow> string list" where
  "blocklist list_text =
     filter (\<lambda>l. l \<noteq> [] \<and> \<not> has_prefix l ''#'') (map trim (text_lines list_text))"

function parent_blocked :: "string list \<Rightarrow> string \<Rightarrow> bool" where
  "parent_blocked bl domain =
     (case split_once CHR ''.'' domain of
        None \<Rightarrow> False
      | Some (_, rest) \<Rightarrow> if List.member bl rest then True else parent_blocked bl rest)"
  by pat_completeness auto

termination parent_blocked
  by (relation "measure (\<lambda>x. length (snd x))") (auto dest!: sym [of "Some _"] simp: split_once_Some)

declare parent_blocked.simps [simp del]

definition is_blocked :: "string list \<Rightarrow> string \<Rightarrow> bool" where
  "is_blocked bl host =
     (let host = to_ascii_lowercase (trim_end_matches CHR ''.'' host)
      in if List.member bl host then True else parent_blocked bl host)"

definition host_of :: "(string \<Rightarrow> string option option) \<Rightarrow> string \<Rightarrow> string option" where
  "host_of parse_host url =
     (case parse_host url of Some (Some h) \<Rightarrow> Some (to_ascii_lowercase h) | _ \<Rightarrow> None)"

definition is_blocked_url :: "(string \<Rightarrow> string option option) \<Rightarrow> string list \<Rightarrow> string \<Rightarrow> bool" where
  "is_blocked_url parse_host bl url =
     (case host_of parse_host url of Some h \<Rightarrow> is_blocked bl h | None \<Rightarrow> False)"

section \<open>Where the exit address is\<close>

record geo_info =
  gi_timezone :: string
  gi_country_code :: string

text \<open>The fields of the answer, a missing one being empty.\<close>

record geo_answer =
  ga_status :: string
  ga_timezone :: string
  ga_country_code :: string

definition parse_geo :: "(bytes \<Rightarrow> geo_answer option) \<Rightarrow> bytes \<Rightarrow> geo_info option" where
  "parse_geo parse_json body =
     (case parse_json body of
        None \<Rightarrow> None
      | Some a \<Rightarrow>
          if ga_status a \<noteq> ''success'' \<or> ga_timezone a = [] then None
          else Some \<lparr>gi_timezone = ga_timezone a, gi_country_code = to_ascii_uppercase (ga_country_code a)\<rparr>)"

section \<open>The cookies of a request\<close>

datatype cookies = NoCookies | Uncompressed "string list" | Compressed string

fun cookie_line :: "string \<Rightarrow> (string \<times> string) list \<Rightarrow> string" where
  "cookie_line line [] = line"
| "cookie_line line ((n, v) # pairs) =
     cookie_line ((if line \<noteq> [] then line @ ''; '' else line) @ n @ ''='' @ v) pairs"

text \<open>
  \<open>stored\<close> gives the pairs the store holds for the address (none when it is no URL),
  \<open>header_ok\<close> is the library's test of a header value.
\<close>

definition jar_cookies ::
    "('u \<Rightarrow> (string \<times> string) list option) \<Rightarrow> (string \<Rightarrow> bool) \<Rightarrow> bool \<Rightarrow> 'u \<Rightarrow> cookies" where
  "jar_cookies stored header_ok http2_or_3 uri =
     (case stored uri of
        None \<Rightarrow> NoCookies
      | Some pairs \<Rightarrow>
          if pairs = [] then NoCookies
          else if http2_or_3 then Uncompressed (filter header_ok (map (\<lambda>(n, v). n @ ''='' @ v) pairs))
          else let line = cookie_line [] pairs
               in if header_ok line then Compressed line else NoCookies)"

text \<open>A cookie as the store keeps it, and as it is reported.\<close>

datatype cookie_domain = HostOnly string | Suffix string | DomainNotPresent | DomainEmpty

datatype cookie_expiry = AtUtc int | SessionEnd

record stored_cookie =
  sc_name :: string
  sc_value :: string
  sc_domain :: cookie_domain
  sc_path :: "string option"
  sc_secure :: "bool option"
  sc_http_only :: "bool option"
  sc_expires :: cookie_expiry
  sc_same_site :: "string option"

record cookie_record =
  cr_name :: string
  cr_value :: string
  cr_domain :: "string option"
  cr_path :: "string option"
  cr_secure :: bool
  cr_http_only :: bool
  cr_expires :: "int option"
  cr_same_site :: "string option"

definition cookie_record_of :: "stored_cookie \<Rightarrow> cookie_record" where
  "cookie_record_of c =
     \<lparr>cr_name = sc_name c, cr_value = sc_value c,
      cr_domain = (case sc_domain c of HostOnly h \<Rightarrow> Some h | Suffix s \<Rightarrow> Some (''.'' @ s) | _ \<Rightarrow> None),
      cr_path = sc_path c, cr_secure = (sc_secure c = Some True), cr_http_only = (sc_http_only c = Some True),
      cr_expires = (case sc_expires c of AtUtc t \<Rightarrow> Some t | SessionEnd \<Rightarrow> None),
      cr_same_site = sc_same_site c\<rparr>"

text \<open>\<open>cookies_left\<close> are the store's unexpired cookies.\<close>

definition jar_snapshot :: "stored_cookie list \<Rightarrow> cookie_record list" where
  "jar_snapshot cookies_left = map cookie_record_of cookies_left"

text \<open>
  A jar's file. Opening it either fails as missing, fails otherwise, or yields its bytes;
  \<open>decode\<close> and \<open>encode\<close> are the cookie store's. A jar without a file starts empty.
\<close>

datatype io_error = NotFound | InvalidData string | OtherError string

definition load_file :: "(bytes \<Rightarrow> string + 'j) \<Rightarrow> 'j \<Rightarrow> (string \<Rightarrow> io_error + bytes) \<Rightarrow> string \<Rightarrow> io_error + 'j" where
  "load_file decode fresh open_file path =
     (case open_file path of
        Inr bs \<Rightarrow> (case decode bs of Inr store \<Rightarrow> Inr store | Inl e \<Rightarrow> Inl (InvalidData e))
      | Inl NotFound \<Rightarrow> Inr fresh
      | Inl e \<Rightarrow> Inl e)"

text \<open>Saving: the files after it, \<open>write_file\<close> and \<open>rename\<close> being the system's.\<close>

definition save_file ::
    "('j \<Rightarrow> string + bytes) \<Rightarrow> (string \<Rightarrow> string) \<Rightarrow> (string \<Rightarrow> bytes \<Rightarrow> 'fs \<Rightarrow> io_error + 'fs) \<Rightarrow>
     (string \<Rightarrow> string \<Rightarrow> 'fs \<Rightarrow> io_error + 'fs) \<Rightarrow> 'j \<Rightarrow> string \<Rightarrow> 'fs \<Rightarrow> io_error + 'fs" where
  "save_file encode tmp_name write_file rename store path fs =
     (case encode store of
        Inl e \<Rightarrow> Inl (OtherError e)
      | Inr buf \<Rightarrow>
          (case write_file (tmp_name path) buf fs of
             Inl e \<Rightarrow> Inl e
           | Inr fs' \<Rightarrow> rename (tmp_name path) path fs'))"

section \<open>A listed domain blocks its subdomains\<close>

lemma parent_blocked_iff:
  "parent_blocked bl domain \<longleftrightarrow> (\<exists>sub d. d \<in> set bl \<and> domain = sub @ ''.'' @ d)"
proof (induction bl domain rule: parent_blocked.induct)
  case (1 bl domain)
  show ?case
  proof (cases "split_once CHR ''.'' domain")
    case None
    then have "CHR ''.'' \<notin> set domain"
      by (simp add: split_once_None)
    with None show ?thesis
      by (auto simp: parent_blocked.simps [of bl domain])
  next
    case (Some p)
    obtain label rest where p: "p = (label, rest)"
      by force
    with Some have d: "domain = label @ CHR ''.'' # rest" "CHR ''.'' \<notin> set label"
      by (simp_all add: split_once_Some)
    have step: "(\<exists>sub d. d \<in> set bl \<and> domain = sub @ ''.'' @ d) \<longleftrightarrow>
        rest \<in> set bl \<or> (\<exists>sub d. d \<in> set bl \<and> rest = sub @ ''.'' @ d)"
    proof
      assume "\<exists>sub d. d \<in> set bl \<and> domain = sub @ ''.'' @ d"
      then obtain sub e where e: "e \<in> set bl" "label @ CHR ''.'' # rest = sub @ CHR ''.'' # e"
        using d(1) by auto
      then obtain us where "(label = sub @ us \<and> us @ CHR ''.'' # rest = CHR ''.'' # e) \<or>
          (label @ us = sub \<and> CHR ''.'' # rest = us @ CHR ''.'' # e)"
        by (auto simp: append_eq_append_conv2)
      then show "rest \<in> set bl \<or> (\<exists>sub d. d \<in> set bl \<and> rest = sub @ ''.'' @ d)"
        using e(1) d(2) by (cases us) auto
    next
      assume "rest \<in> set bl \<or> (\<exists>sub d. d \<in> set bl \<and> rest = sub @ ''.'' @ d)"
      then show "\<exists>sub d. d \<in> set bl \<and> domain = sub @ ''.'' @ d"
      proof
        assume "rest \<in> set bl"
        then show ?thesis
          using d(1) by (intro exI [of _ label] exI [of _ rest]) simp
      next
        assume "\<exists>sub d. d \<in> set bl \<and> rest = sub @ ''.'' @ d"
        then obtain sub e where "e \<in> set bl" "rest = sub @ ''.'' @ e"
          by blast
        then show ?thesis
          using d(1) by (intro exI [of _ "label @ ''.'' @ sub"] exI [of _ e]) simp
      qed
    qed
    have IH: "parent_blocked bl rest \<longleftrightarrow> (\<exists>sub d. d \<in> set bl \<and> rest = sub @ ''.'' @ d)" if "rest \<notin> set bl"
      using p that by (intro 1 [OF Some]) simp_all
    have "parent_blocked bl domain \<longleftrightarrow> rest \<in> set bl \<or> parent_blocked bl rest"
      using Some p by (subst parent_blocked.simps) simp
    with step IH show ?thesis
      by blast
  qed
qed

text \<open>
  Claim C35. A host is blocked exactly when, without trailing dots and in lower case, it is a domain
  of the list or a subdomain of one: a host that merely ends in a listed name is not.
\<close>

theorem blocked_iff_subdomain_of_listed:
  "is_blocked bl host \<longleftrightarrow>
   (\<exists>d sub. d \<in> set bl \<and> (let h = to_ascii_lowercase (trim_end_matches CHR ''.'' host) in h = d \<or> h = sub @ ''.'' @ d))"
proof -
  have "(h \<in> set bl \<or> (\<exists>sub d. d \<in> set bl \<and> h = sub @ ''.'' @ d)) \<longleftrightarrow>
      (\<exists>d sub. d \<in> set bl \<and> (h = d \<or> h = sub @ ''.'' @ d))" for h
    by blast
  from this [of "to_ascii_lowercase (trim_end_matches CHR ''.'' host)"] show ?thesis
    unfolding is_blocked_def Let_def parent_blocked_iff by (simp only: List.member_iff if_True split: if_split) blast
qed

lemma cookie_line_join:
  "line \<noteq> [] \<Longrightarrow> cookie_line line pairs = line @ concat (map (\<lambda>(n, v). ''; '' @ n @ ''='' @ v) pairs)"
  by (induction line pairs rule: cookie_line.induct) auto

end
