(* ===== verification/CdpWire.thy ===== *)
theory CdpWire
  imports Intercept Blocklist
begin

text \<open>
  The debugging server's outer layer (\<open>crates/cdp/src/lib.rs\<close> and the first part of
  \<open>server.rs\<close>): JSON values and messages, the index of open pages, the token a client must
  show, and what is answered to an HTTP request. Serialisation, the WebSocket accept key and the
  decoding of bytes that are no UTF-8 are arguments.
\<close>

section \<open>JSON values\<close>

text \<open>A floating point number is its bit pattern.\<close>

datatype json =
    JNull
  | JBool bool
  | JInt int
  | JFloat u64
  | JStr string
  | JArr "json list"
  | JObj "(string \<times> json) list"

definition json_get :: "json \<Rightarrow> string \<Rightarrow> json option" where
  "json_get v k = (case v of JObj m \<Rightarrow> map_of m k | _ \<Rightarrow> None)"

text \<open>\<open>v[k]\<close>: a missing member reads as null.\<close>

definition json_at :: "json \<Rightarrow> string \<Rightarrow> json" where
  "json_at v k = (case json_get v k of Some x \<Rightarrow> x | None \<Rightarrow> JNull)"

definition json_set :: "string \<Rightarrow> json \<Rightarrow> json \<Rightarrow> json" where
  "json_set k x v = (case v of JObj m \<Rightarrow> JObj (AList.update k x m) | _ \<Rightarrow> v)"

definition as_str :: "json \<Rightarrow> string option" where
  "as_str v = (case v of JStr s \<Rightarrow> Some s | _ \<Rightarrow> None)"

definition as_bool :: "json \<Rightarrow> bool option" where
  "as_bool v = (case v of JBool b \<Rightarrow> Some b | _ \<Rightarrow> None)"

definition as_i64 :: "json \<Rightarrow> int option" where
  "as_i64 v = (case v of JInt n \<Rightarrow> if - (2 ^ 63) \<le> n \<and> n < 2 ^ 63 then Some n else None | _ \<Rightarrow> None)"

definition as_u64 :: "json \<Rightarrow> nat option" where
  "as_u64 v = (case v of JInt n \<Rightarrow> if 0 \<le> n \<and> n < 2 ^ 64 then Some (nat n) else None | _ \<Rightarrow> None)"

definition as_array :: "json \<Rightarrow> json list option" where
  "as_array v = (case v of JArr a \<Rightarrow> Some a | _ \<Rightarrow> None)"

definition member_str :: "json \<Rightarrow> string \<Rightarrow> string option" where
  "member_str v k = Option.bind (json_get v k) as_str"

section \<open>Messages\<close>

record command =
  cm_id :: int
  cm_method :: string
  cm_params :: json
  cm_session_id :: "string option"

record cdp_error =
  ce_code :: int
  ce_message :: string
  ce_data :: "string option"

record cdp_response =
  cp_id :: int
  cp_result :: "json option"
  cp_error :: "cdp_error option"
  cp_session_id :: "string option"

definition response_ok :: "int \<Rightarrow> json \<Rightarrow> cdp_response" where
  "response_ok ident result = \<lparr>cp_id = ident, cp_result = Some result, cp_error = None, cp_session_id = None\<rparr>"

definition response_err :: "int \<Rightarrow> int \<Rightarrow> string \<Rightarrow> cdp_response" where
  "response_err ident code message =
     \<lparr>cp_id = ident, cp_result = None,
      cp_error = Some \<lparr>ce_code = code, ce_message = message, ce_data = None\<rparr>, cp_session_id = None\<rparr>"

definition response_with_session :: "string \<Rightarrow> cdp_response \<Rightarrow> cdp_response" where
  "response_with_session session r = r\<lparr>cp_session_id := Some session\<rparr>"

record cdp_event =
  ev_method :: string
  ev_params :: json
  ev_session_id :: "string option"

definition event_new :: "string \<Rightarrow> json \<Rightarrow> cdp_event" where
  "event_new meth params = \<lparr>ev_method = meth, ev_params = params, ev_session_id = None\<rparr>"

definition split_method :: "string \<Rightarrow> (string \<times> string) option" where
  "split_method meth = split_once CHR ''.'' meth"

definition method_not_found :: int where
  "method_not_found = - 32601"

definition invalid_params :: int where
  "invalid_params = - 32602"

definition with_session_id :: "string option \<Rightarrow> json \<Rightarrow> json" where
  "with_session_id session m =
     (case session of Some s \<Rightarrow> json_set ''sessionId'' (JStr s) m | None \<Rightarrow> m)"

definition ok_message :: "int \<Rightarrow> string option \<Rightarrow> json \<Rightarrow> json" where
  "ok_message ident session result =
     with_session_id session (JObj [(''id'', JInt ident), (''result'', result)])"

definition err_message :: "int \<Rightarrow> string option \<Rightarrow> int \<Rightarrow> string \<Rightarrow> json" where
  "err_message ident session code message =
     with_session_id session
       (JObj [(''id'', JInt ident),
              (''error'', JObj [(''code'', JInt code), (''message'', JStr message)])])"

definition event_message :: "string \<Rightarrow> string option \<Rightarrow> json \<Rightarrow> json" where
  "event_message meth session params =
     with_session_id session (JObj [(''method'', JStr meth), (''params'', params)])"

section \<open>Open pages\<close>

type_synonym registry = "json list"

definition reg_add :: "json \<Rightarrow> registry \<Rightarrow> registry" where
  "reg_add entry reg = reg @ [entry]"

definition reg_remove :: "string \<Rightarrow> registry \<Rightarrow> registry" where
  "reg_remove target reg = filter (\<lambda>e. json_at e ''id'' \<noteq> JStr target) reg"

definition reg_set_url :: "string \<Rightarrow> string \<Rightarrow> registry \<Rightarrow> registry" where
  "reg_set_url target url reg =
     upd_first (\<lambda>e. json_at e ''id'' = JStr target) (json_set ''url'' (JStr url)) reg"

definition reg_list :: "registry \<Rightarrow> json list" where
  "reg_list reg = reg"

text \<open>Ids: a prefix and the process-wide counter in upper case hexadecimal.\<close>

definition hex_digit :: "nat \<Rightarrow> char" where
  "hex_digit d = (if d < 10 then char_of (48 + d) else char_of (55 + d))"

fun hex_str :: "nat \<Rightarrow> string" where
  "hex_str n = (if n < 16 then [hex_digit n] else hex_str (n div 16) @ [hex_digit (n mod 16)])"

declare hex_str.simps [simp del]

definition next_id :: "string \<Rightarrow> u64 \<Rightarrow> string \<times> u64" where
  "next_id prefix ids = (prefix @ hex_str (unat ids), ids + 1)"

section \<open>The token\<close>

definition header_value :: "string \<Rightarrow> string \<Rightarrow> string option" where
  "header_value head name =
     (case find (\<lambda>l. has_prefix (to_ascii_lowercase l) (to_ascii_lowercase name @ '':'')) (text_lines head) of
        None \<Rightarrow> None
      | Some l \<Rightarrow> map_option (\<lambda>(_, v). trim v) (split_once CHR '':'' l))"

text \<open>The comparison looks at every byte.\<close>

definition byte_of :: "char \<Rightarrow> u8" where
  "byte_of c = of_nat (of_char c)"

definition token_eq :: "string \<Rightarrow> string \<Rightarrow> bool" where
  "token_eq want got \<longleftrightarrow>
     length got = length want \<and>
     foldl (\<lambda>acc (a, b). or acc (xor (byte_of a) (byte_of b))) 0 (zip got want) = (0 :: u8)"

definition authorized :: "string \<Rightarrow> string \<Rightarrow> string option \<Rightarrow> bool" where
  "authorized head path token =
     (case token of
        None \<Rightarrow> True
      | Some want \<Rightarrow>
          let from_query = (case split_once CHR ''?'' path of
                 Some (_, q) \<Rightarrow>
                   list_ex (token_eq want) (List.map_filter (strip_prefix ''token='') (split_on CHR ''&'' q))
               | None \<Rightarrow> False);
              from_header = (case Option.bind (header_value head ''authorization'')
                   (\<lambda>v. case strip_prefix ''Bearer '' v of Some t \<Rightarrow> Some t | None \<Rightarrow> strip_prefix ''bearer '' v) of
                 Some t \<Rightarrow> token_eq want (trim t)
               | None \<Rightarrow> False)
          in from_query \<or> from_header)"

section \<open>A connection's first request\<close>

text \<open>The head is read up to the blank line, or until it is longer than 32 KiB.\<close>

fun read_head :: "string \<Rightarrow> string \<Rightarrow> string" where
  "read_head buf [] = buf"
| "read_head buf (c # input) =
     (let buf = buf @ [c] in
      if has_suffix buf [CHR 0x0D, CHR 0x0A, CHR 0x0D, CHR 0x0A] \<or> 32 * 1024 < length buf then buf
      else read_head buf input)"

definition leading_space :: "string \<Rightarrow> string option" where
  "leading_space s = (case List.map_filter (\<lambda>p. strip_prefix p s) white_spaces of [] \<Rightarrow> None | r # _ \<Rightarrow> Some r)"

lemma leading_space_shorter: "leading_space s = Some r \<Longrightarrow> length r < length s"
proof -
  assume "leading_space s = Some r"
  then have "r \<in> set (List.map_filter (\<lambda>p. strip_prefix p s) white_spaces)"
    by (auto simp: leading_space_def split: list.splits)
  then obtain p where p: "p \<in> set white_spaces" "strip_prefix p s = Some r"
    by (auto simp: List.map_filter_def)
  have "list_all (\<lambda>p. p \<noteq> []) white_spaces"
    by code_simp
  with p show ?thesis
    by (auto simp: list_all_iff strip_prefix_Some)
qed

function split_whitespace :: "string \<Rightarrow> string \<Rightarrow> string list" where
  "split_whitespace word [] = (if word = [] then [] else [word])"
| "split_whitespace word (c # s) =
     (case leading_space (c # s) of
        Some r \<Rightarrow> (if word = [] then [] else [word]) @ split_whitespace [] r
      | None \<Rightarrow> split_whitespace (word @ [c]) s)"
  by pat_completeness auto

termination split_whitespace
  by (relation "measure (\<lambda>x. length (snd x))") (auto dest: leading_space_shorter)

definition request_path :: "string \<Rightarrow> string" where
  "request_path head =
     (let line = (case text_lines head of l # _ \<Rightarrow> l | [] \<Rightarrow> []) in
      case split_whitespace [] line of _ # p # _ \<Rightarrow> p | _ \<Rightarrow> ''/'')"

definition crlf :: string where
  "crlf = [CHR 0x0D, CHR 0x0A]"

definition ws_url :: "nat \<Rightarrow> string option \<Rightarrow> string" where
  "ws_url port token =
     (let url = ''ws://127.0.0.1:'' @ nat_str port @ ''/devtools/browser/nokk''
      in case token of Some t \<Rightarrow> url @ ''?token='' @ t | None \<Rightarrow> url)"

definition version_answer :: "string \<Rightarrow> json" where
  "version_answer url =
     JObj [(''Browser'', JStr ''Chrome/148.0.0.0''), (''Protocol-Version'', JStr ''1.3''),
           (''User-Agent'', JStr ''Mozilla/5.0 (X11; Linux x86_64) AppleWebKit/537.36 (KHTML, like Gecko) Chrome/148.0.0.0 Safari/537.36''),
           (''V8-Version'', JStr ''13.7''), (''WebKit-Version'', JStr ''537.36''), (''webSocketDebuggerUrl'', JStr url)]"

definition http_answer :: "string \<Rightarrow> nat \<Rightarrow> registry \<Rightarrow> string option \<Rightarrow> json" where
  "http_answer path port reg token =
     (let url = ws_url port token in
      if has_prefix path ''/json/version'' then version_answer url
      else if has_prefix path ''/json/list'' \<or> path = ''/json'' \<or> has_prefix path ''/json?'' \<or> path = ''/json/'' then
        JArr (map (json_set ''webSocketDebuggerUrl'' (JStr url)) (reg_list reg))
      else if has_prefix path ''/json/new'' then
        JObj [(''error'', JStr ''not supported: open pages over the browser WebSocket with Target.createTarget''),
              (''webSocketDebuggerUrl'', JStr url)]
      else if has_prefix path ''/json'' then JArr []
      else JObj [(''error'', JStr ''not found'')])"

definition http_response :: "(json \<Rightarrow> string) \<Rightarrow> string \<Rightarrow> nat \<Rightarrow> registry \<Rightarrow> string option \<Rightarrow> string" where
  "http_response render path port reg token =
     (let body = render (http_answer path port reg token)
      in ''HTTP/1.1 200 OK'' @ crlf @ ''Content-Type: application/json'' @ crlf @ ''Content-Length: '' @
         nat_str (length body) @ crlf @ ''Connection: close'' @ crlf @ crlf @ body)"

definition unauthorized_response :: string where
  "unauthorized_response =
     (let body = ''{'' @ quoted ''error'' @ '':'' @
            quoted ''a token is required: ?token=... or Authorization: Bearer ...'' @ ''}''
      in ''HTTP/1.1 401 Unauthorized'' @ crlf @ ''Content-Type: application/json'' @ crlf @ ''Content-Length: '' @
         nat_str (length body) @ crlf @ ''Connection: close'' @ crlf @ crlf @ body)"

text \<open>What is written, and whether a session follows on the connection.\<close>

definition handle_conn ::
    "(json \<Rightarrow> string) \<Rightarrow> (string \<Rightarrow> string) \<Rightarrow> (string \<Rightarrow> string) \<Rightarrow> nat \<Rightarrow> registry \<Rightarrow> string option \<Rightarrow>
     string \<Rightarrow> string \<times> bool" where
  "handle_conn render accept_key lossy port reg token input =
     (let head = lossy (read_head [] input);
          path = request_path head
      in if \<not> authorized head path token then (unauthorized_response, False)
         else if \<not> (case header_value head ''upgrade'' of
                       Some u \<Rightarrow> eq_ignore_ascii_case u ''websocket'' | None \<Rightarrow> False)
         then (http_response render path port reg token, False)
         else
           (case header_value head ''sec-websocket-key'' of
              None \<Rightarrow> (''HTTP/1.1 400 Bad Request'' @ crlf @ crlf, False)
            | Some key \<Rightarrow>
                (''HTTP/1.1 101 Switching Protocols'' @ crlf @ ''Upgrade: websocket'' @ crlf @
                 ''Connection: Upgrade'' @ crlf @ ''Sec-WebSocket-Accept: '' @ accept_key key @ crlf @ crlf,
                 True)))"

section \<open>Only the token opens\<close>

lemma byte_of_eq: "byte_of a = byte_of b \<longleftrightarrow> a = b"
proof
  assume "byte_of a = byte_of b"
  then have "unat (byte_of a) = unat (byte_of b)"
    by simp
  then have "of_char a = (of_char b :: nat)"
    by (simp add: byte_of_def unat_of_nat take_bit_nat_eq_self)
  then show "a = b"
    by simp
qed simp

lemma xor_zero_iff: "xor x y = 0 \<longleftrightarrow> x = (y :: 'a :: len word)"
proof
  assume "xor x y = 0"
  then have "bit x n = bit y n" if "n < LENGTH('a)" for n
    using bit_xor_iff [of x y n] by simp
  then show "x = y"
    by (rule bit_word_eqI)
qed simp

lemma foldl_differences:
  "foldl (\<lambda>acc (a, b). or acc (xor (byte_of a) (byte_of b))) acc ps = (0 :: u8) \<longleftrightarrow>
   acc = 0 \<and> list_all (\<lambda>(a, b). a = b) ps"
proof (induction ps arbitrary: acc)
  case (Cons p ps)
  have "or acc (xor (byte_of (fst p)) (byte_of (snd p))) = 0 \<longleftrightarrow> acc = 0 \<and> fst p = snd p"
    by (simp only: or_eq_0_iff xor_zero_iff byte_of_eq)
  with Cons.IH show ?case
    by (simp add: split_def)
qed simp

lemma token_eq_iff: "token_eq want got \<longleftrightarrow> got = want"
proof -
  have "list_all (\<lambda>(a, b). a = b) (zip got want) \<longleftrightarrow> got = want" if "length got = length want"
    using that by (induction got want rule: list_induct2) auto
  then show ?thesis
    by (auto simp: token_eq_def foldl_differences)
qed

lemma list_ex_stripped:
  "list_ex (\<lambda>x. x = want) (List.map_filter (strip_prefix p) xs) \<longleftrightarrow> p @ want \<in> set xs"
proof -
  have self: "strip_prefix p (p @ want) = Some want"
    by (simp add: strip_prefix_Some)
  show ?thesis
    by (induction xs)
      (auto simp: List.map_filter_simps self dest: strip_prefix_Some [THEN iffD1] split: option.splits)
qed

text \<open>
  Claim C38. A server with a token lets a request in exactly when it shows that token: as a
  \<open>token\<close> parameter of the query that equals it in full, or as a bearer token of the
  \<open>Authorization\<close> header. The byte by byte comparison is equality.
\<close>

theorem only_the_token_opens:
  "authorized head path (Some want) \<longleftrightarrow>
   (\<exists>p q. split_once CHR ''?'' path = Some (p, q) \<and> ''token='' @ want \<in> set (split_on CHR ''&'' q)) \<or>
   (\<exists>v t. header_value head ''authorization'' = Some v \<and> trim t = want \<and>
      (v = ''Bearer '' @ t \<or> v = ''bearer '' @ t))"
proof -
  have header: "(case Option.bind h (\<lambda>v. case strip_prefix ''Bearer '' v of Some t \<Rightarrow> Some t
          | None \<Rightarrow> strip_prefix ''bearer '' v) of Some t \<Rightarrow> token_eq want (trim t) | None \<Rightarrow> False) \<longleftrightarrow>
      (\<exists>v t. h = Some v \<and> trim t = want \<and> (v = ''Bearer '' @ t \<or> v = ''bearer '' @ t))" for h
  proof (cases h)
    case (Some v)
    show ?thesis
    proof (cases "strip_prefix ''Bearer '' v")
      case (Some t)
      then have "v = ''Bearer '' @ t"
        by (simp add: strip_prefix_Some)
      with Some \<open>h = Some v\<close> show ?thesis
        by (auto simp: token_eq_iff)
    next
      case None
      then have "v \<noteq> ''Bearer '' @ t" for t
        by auto
      with None \<open>h = Some v\<close> show ?thesis
        by (auto simp: token_eq_iff strip_prefix_Some split: option.split)
    qed
  qed simp
  have query: "(case split_once CHR ''?'' path of
         Some (_, q) \<Rightarrow> list_ex (token_eq want) (List.map_filter (strip_prefix ''token='') (split_on CHR ''&'' q))
       | None \<Rightarrow> False) \<longleftrightarrow>
      (\<exists>p q. split_once CHR ''?'' path = Some (p, q) \<and> ''token='' @ want \<in> set (split_on CHR ''&'' q))"
    by (auto simp: token_eq_iff [abs_def] list_ex_stripped [of want] split: option.split)
  show ?thesis
    unfolding authorized_def Let_def option.case query header by (rule refl)
qed

end
