(* ===== verification/Wildcard.thy ===== *)
theory Wildcard
  imports Text
begin

text \<open>
  CDP's URL wildcards (\<open>wildcard_match\<close> in \<open>crates/cdp/src/server.rs\<close>). The loop with its two
  indices and the place to come back to is kept; it is a \<open>partial_function\<close>, so not returning would be
  \<open>None\<close>. It is proved to return what the meaning of a pattern, token by token, says. Characters are
  Unicode scalar values, decoded from UTF-8 by \<open>chars\<close>.
\<close>

section \<open>Characters of a string\<close>

fun chars :: "string \<Rightarrow> nat list" where
  "chars [] = []"
| "chars (a # s) =
     (let x = of_char a :: nat in
      if x < 0x80 then x # chars s
      else if x < 0xE0 then
        (case s of b # s \<Rightarrow> (x mod 32 * 64 + of_char b mod 64) # chars s | [] \<Rightarrow> [])
      else if x < 0xF0 then
        (case s of b # c # s \<Rightarrow> (x mod 16 * 4096 + of_char b mod 64 * 64 + of_char c mod 64) # chars s | _ \<Rightarrow> [])
      else
        (case s of
           b # c # d # s \<Rightarrow>
             (x mod 8 * 262144 + of_char b mod 64 * 4096 + of_char c mod 64 * 64 + of_char d mod 64) # chars s
         | _ \<Rightarrow> []))"

section \<open>The loop\<close>

abbreviation star_char :: nat where "star_char \<equiv> 42"
abbreviation any_char :: nat where "any_char \<equiv> 63"
abbreviation escape_char :: nat where "escape_char \<equiv> 92"

text \<open>The literal at \<open>i\<close>, if it is one, and how many characters of the pattern it takes.\<close>

definition literal_at :: "nat list \<Rightarrow> nat \<Rightarrow> nat option \<times> nat" where
  "literal_at p i =
     (if p ! i = escape_char \<and> i + 1 < length p then (Some (p ! (i + 1)), 2)
      else if p ! i = any_char then (None, 1)
      else (Some (p ! i), 1))"

definition fits :: "nat option \<Rightarrow> nat \<Rightarrow> bool" where
  "fits lit c = (case lit of None \<Rightarrow> True | Some l \<Rightarrow> l = c)"

function skip_stars :: "nat list \<Rightarrow> nat \<Rightarrow> nat" where
  "skip_stars p i = (if i < length p \<and> p ! i = star_char then skip_stars p (i + 1) else i)"
  by pat_completeness auto

termination skip_stars
  by (relation "measure (\<lambda>(p, i). length p - i)") auto

declare skip_stars.simps [simp del]

partial_function (option) match_loop ::
    "nat list \<Rightarrow> nat list \<Rightarrow> nat \<Rightarrow> nat \<Rightarrow> nat option \<Rightarrow> nat \<Rightarrow> bool option" where
  "match_loop p t i j star mark =
     (if j < length t then
        if i < length p \<and> p ! i = star_char then match_loop p t (i + 1) j (Some i) j
        else if i < length p \<and> fits (fst (literal_at p i)) (t ! j)
        then match_loop p t (i + snd (literal_at p i)) (j + 1) star mark
        else
          (case star of
             Some s \<Rightarrow> match_loop p t (s + 1) (mark + 1) star (mark + 1)
           | None \<Rightarrow> Some False)
      else Some (skip_stars p i = length p))"

definition wildcard_match :: "string \<Rightarrow> string \<Rightarrow> bool option" where
  "wildcard_match pattern s = match_loop (chars pattern) (chars s) 0 0 None 0"

section \<open>What a pattern means\<close>

datatype token = Run | One | Lit nat

fun tokens :: "nat list \<Rightarrow> token list" where
  "tokens [] = []"
| "tokens [c] = [if c = star_char then Run else if c = any_char then One else Lit c]"
| "tokens (c # d # p) =
     (if c = star_char then Run # tokens (d # p)
      else if c = escape_char then Lit d # tokens p
      else (if c = any_char then One else Lit c) # tokens (d # p))"

fun means :: "token list \<Rightarrow> nat list \<Rightarrow> bool" where
  "means [] t = (t = [])"
| "means (Run # ps) [] = means ps []"
| "means (Run # ps) (c # t) = (means ps (c # t) \<or> means (Run # ps) t)"
| "means (One # ps) [] = False"
| "means (One # ps) (c # t) = means ps t"
| "means (Lit l # ps) [] = False"
| "means (Lit l # ps) (c # t) = (l = c \<and> means ps t)"

lemma means_Run: "means (Run # ps) t \<longleftrightarrow> (\<exists>k \<le> length t. means ps (drop k t))"
proof (induction t)
  case (Cons c t)
  have "(\<exists>k \<le> length (c # t). means ps (drop k (c # t))) \<longleftrightarrow>
      means ps (c # t) \<or> (\<exists>k \<le> length t. means ps (drop k t))"
  proof
    assume "\<exists>k \<le> length (c # t). means ps (drop k (c # t))"
    then obtain k where "k \<le> Suc (length t)" "means ps (drop k (c # t))"
      by auto
    then show "means ps (c # t) \<or> (\<exists>k \<le> length t. means ps (drop k t))"
      by (cases k) auto
  next
    assume "means ps (c # t) \<or> (\<exists>k \<le> length t. means ps (drop k t))"
    then show "\<exists>k \<le> length (c # t). means ps (drop k (c # t))"
    proof
      assume "means ps (c # t)"
      then show ?thesis
        by (intro exI [of _ 0]) simp
    next
      assume "\<exists>k \<le> length t. means ps (drop k t)"
      then obtain k where "k \<le> length t" "means ps (drop k t)"
        by blast
      then show ?thesis
        by (intro exI [of _ "Suc k"]) simp
    qed
  qed
  with Cons.IH show ?case
    by simp
qed simp

text \<open>Tokens other than \<open>Run\<close> take one character each.\<close>

lemma means_singles:
  "Run \<notin> set ms \<Longrightarrow> means (ms @ ps) t \<Longrightarrow> length ms \<le> length t \<and> means ps (drop (length ms) t)"
proof (induction ms arbitrary: t)
  case (Cons m ms)
  then show ?case
    by (cases m; cases t) auto
qed simp

section \<open>The loop finds it\<close>

text \<open>Tokens from an index of the pattern on.\<close>

lemma tokens_star: "i < length p \<Longrightarrow> p ! i = star_char \<Longrightarrow> tokens (drop i p) = Run # tokens (drop (i + 1) p)"
  by (cases "drop (i + 1) p") (auto simp: Cons_nth_drop_Suc [symmetric])

definition single :: "nat option \<Rightarrow> token" where
  "single lit = (case lit of None \<Rightarrow> One | Some c \<Rightarrow> Lit c)"

lemma tokens_single:
  assumes "i < length p" and "p ! i \<noteq> star_char"
  shows "tokens (drop i p) = single (fst (literal_at p i)) # tokens (drop (i + snd (literal_at p i)) p)"
proof -
  have d: "drop i p = p ! i # drop (Suc i) p"
    using assms(1) by (simp add: Cons_nth_drop_Suc)
  show ?thesis
  proof (cases "Suc i < length p")
    case True
    then have "drop (Suc i) p = p ! Suc i # drop (Suc (Suc i)) p"
      by (simp add: Cons_nth_drop_Suc)
    with True d assms(2) show ?thesis
      by (simp add: literal_at_def single_def)
  next
    case False
    with d assms(2) show ?thesis
      by (simp add: literal_at_def single_def)
  qed
qed

lemma literal_step: "0 < snd (literal_at p i) \<and> (i < length p \<longrightarrow> i + snd (literal_at p i) \<le> length p)"
  by (simp add: literal_at_def)

lemma single_not_Run [simp]: "single lit \<noteq> Run" "Run \<noteq> single lit"
  by (simp_all add: single_def split: option.split)

lemma means_single: "means (single lit # ps) (c # t) \<longleftrightarrow> fits lit c \<and> means ps t"
  by (cases lit) (auto simp: single_def fits_def)

lemma means_end: "skip_stars p i = length p \<longleftrightarrow> i \<le> length p \<and> means (tokens (drop i p)) []"
proof (induction p i rule: skip_stars.induct)
  case (1 p i)
  show ?case
  proof (cases "i < length p")
    case True
    show ?thesis
    proof (cases "p ! i = star_char")
      case True
      with \<open>i < length p\<close> 1 show ?thesis
        by (subst skip_stars.simps) (simp add: tokens_star)
    next
      case False
      with True have "\<not> means (tokens (drop i p)) []"
        by (simp add: tokens_single single_def split: option.split)
      with False True show ?thesis
        by (subst skip_stars.simps) simp
    qed
  next
    case False
    then show ?thesis
      by (subst skip_stars.simps) auto
  qed
qed

text \<open>
  The state the loop can be in: the pattern from \<open>i\<close> on and the text from \<open>j\<close> on are left; since
  the last star only single tokens were matched, one character each, from \<open>mark\<close> to \<open>j\<close>.
\<close>

definition in_loop :: "nat list \<Rightarrow> nat list \<Rightarrow> nat \<Rightarrow> nat \<Rightarrow> nat option \<Rightarrow> nat \<Rightarrow> bool" where
  "in_loop p t i j star mark \<longleftrightarrow> i \<le> length p \<and> j \<le> length t \<and>
     (case star of
        None \<Rightarrow> True
      | Some s \<Rightarrow> s < i \<and> mark \<le> j \<and>
          (\<exists>ms. Run \<notin> set ms \<and> tokens (drop (s + 1) p) = ms @ tokens (drop i p) \<and> length ms = j - mark))"

text \<open>What is still open there: to go on, or to start again further on after the last star.\<close>

definition open_answer :: "nat list \<Rightarrow> nat list \<Rightarrow> nat \<Rightarrow> nat \<Rightarrow> nat option \<Rightarrow> nat \<Rightarrow> bool" where
  "open_answer p t i j star mark \<longleftrightarrow> means (tokens (drop i p)) (drop j t) \<or>
     (case star of
        None \<Rightarrow> False
      | Some s \<Rightarrow> \<exists>k > mark. k \<le> length t \<and> means (tokens (drop (s + 1) p)) (drop k t))"

lemma means_Run_from:
  "j \<le> length t \<Longrightarrow> means (Run # ps) (drop j t) \<longleftrightarrow> (\<exists>k \<ge> j. k \<le> length t \<and> means ps (drop k t))"
proof -
  assume j: "j \<le> length t"
  have "(\<exists>k \<le> length t - j. means ps (drop (k + j) t)) \<longleftrightarrow> (\<exists>k \<ge> j. k \<le> length t \<and> means ps (drop k t))"
  proof
    assume "\<exists>k \<le> length t - j. means ps (drop (k + j) t)"
    then obtain k where "k \<le> length t - j" "means ps (drop (k + j) t)"
      by blast
    with j show "\<exists>k \<ge> j. k \<le> length t \<and> means ps (drop k t)"
      by (intro exI [of _ "k + j"]) simp
  next
    assume "\<exists>k \<ge> j. k \<le> length t \<and> means ps (drop k t)"
    then obtain k where "j \<le> k" "k \<le> length t" "means ps (drop k t)"
      by blast
    then show "\<exists>k \<le> length t - j. means ps (drop (k + j) t)"
      by (intro exI [of _ "k - j"]) simp
  qed
  then show ?thesis
    by (simp add: means_Run)
qed

lemma star_step:
  assumes "in_loop p t i j star mark" and "j < length t" and "i < length p" and "p ! i = star_char"
  shows "in_loop p t (i + 1) j (Some i) j"
    and "open_answer p t i j star mark = open_answer p t (i + 1) j (Some i) j"
proof -
  show "in_loop p t (i + 1) j (Some i) j"
    using assms by (simp add: in_loop_def)
  have toks: "tokens (drop i p) = Run # tokens (drop (i + 1) p)"
    using assms(3,4) by (rule tokens_star)
  have here: "means (tokens (drop i p)) (drop j t) \<longleftrightarrow>
      (\<exists>k \<ge> j. k \<le> length t \<and> means (tokens (drop (i + 1) p)) (drop k t))"
    unfolding toks using assms(2) by (simp add: means_Run_from)
  have later: "means (tokens (drop i p)) (drop j t)"
    if more: "star = Some s" "mark < k" "k \<le> length t" "means (tokens (drop (s + 1) p)) (drop k t)" for s k
  proof -
    from assms(1) more(1) obtain ms where ms: "Run \<notin> set ms" "mark \<le> j" "length ms = j - mark"
        "tokens (drop (s + 1) p) = ms @ tokens (drop i p)"
      by (auto simp: in_loop_def)
    from more(4) ms(4) have "means (ms @ tokens (drop i p)) (drop k t)"
      by simp
    from means_singles [OF ms(1) this] have fit: "length ms \<le> length t - k"
        "means (tokens (drop i p)) (drop (length ms + k) t)"
      by simp_all
    then obtain k' where k': "k' \<ge> length ms + k" "k' \<le> length t" "means (tokens (drop (i + 1) p)) (drop k' t)"
      unfolding toks using more(3) by (auto simp: means_Run_from)
    with ms(2,3) more(2) have "j \<le> k'"
      by simp
    with k' here show ?thesis
      by blast
  qed
  have "open_answer p t (i + 1) j (Some i) j \<longleftrightarrow> means (tokens (drop i p)) (drop j t)"
    unfolding here using assms(2) by (auto simp: open_answer_def le_less)
  moreover have "open_answer p t i j star mark \<longleftrightarrow> means (tokens (drop i p)) (drop j t)"
    using later by (auto simp: open_answer_def split: option.split)
  ultimately show "open_answer p t i j star mark = open_answer p t (i + 1) j (Some i) j"
    by simp
qed

lemma match_step:
  assumes "in_loop p t i j star mark" and "j < length t" and "i < length p" and "p ! i \<noteq> star_char"
      and "fits (fst (literal_at p i)) (t ! j)"
  shows "in_loop p t (i + snd (literal_at p i)) (j + 1) star mark"
    and "open_answer p t i j star mark = open_answer p t (i + snd (literal_at p i)) (j + 1) star mark"
proof -
  let ?i = "i + snd (literal_at p i)"
  note toks = tokens_single [OF assms(3,4)]
  show "in_loop p t ?i (j + 1) star mark"
  proof (cases star)
    case None
    with assms(1-3) literal_step [of p i] show ?thesis
      by (simp add: in_loop_def)
  next
    case (Some s)
    with assms(1) obtain ms where ms: "Run \<notin> set ms" "mark \<le> j" "length ms = j - mark" "s < i"
        "tokens (drop (s + 1) p) = ms @ tokens (drop i p)"
      by (auto simp: in_loop_def)
    then have "tokens (drop (s + 1) p) = (ms @ [single (fst (literal_at p i))]) @ tokens (drop ?i p)"
      using toks by simp
    moreover have "Run \<notin> set (ms @ [single (fst (literal_at p i))])"
        "length (ms @ [single (fst (literal_at p i))]) = j + 1 - mark"
      using ms by simp_all
    moreover have "s < ?i \<and> mark \<le> j + 1 \<and> ?i \<le> length p \<and> j + 1 \<le> length t"
      using ms assms(2,3) literal_step [of p i] by simp
    ultimately show ?thesis
      unfolding in_loop_def Some option.case by blast
  qed
  have "drop j t = t ! j # drop (Suc j) t"
    using assms(2) by (simp add: Cons_nth_drop_Suc)
  then show "open_answer p t i j star mark = open_answer p t ?i (j + 1) star mark"
    using assms(5) by (simp add: open_answer_def toks means_single)
qed

lemma fail_step:
  assumes "in_loop p t i j star mark" and "j < length t" and "\<not> (i < length p \<and> p ! i = star_char)"
      and "\<not> (i < length p \<and> fits (fst (literal_at p i)) (t ! j))"
  shows "star = Some s \<Longrightarrow> in_loop p t (s + 1) (mark + 1) star (mark + 1)"
    and "star = Some s \<Longrightarrow> open_answer p t i j star mark = open_answer p t (s + 1) (mark + 1) star (mark + 1)"
    and "star = None \<Longrightarrow> \<not> open_answer p t i j star mark"
proof -
  have no: "\<not> means (tokens (drop i p)) (drop j t)"
  proof (cases "i < length p")
    case True
    have "drop j t = t ! j # drop (Suc j) t"
      using assms(2) by (simp add: Cons_nth_drop_Suc)
    with True assms(3,4) show ?thesis
      by (simp add: tokens_single means_single)
  next
    case False
    with assms(2) show ?thesis
      by simp
  qed
  then show "star = None \<Longrightarrow> \<not> open_answer p t i j star mark"
    by (simp add: open_answer_def)
  assume s: "star = Some s"
  with assms(1,2) show "in_loop p t (s + 1) (mark + 1) star (mark + 1)"
    by (auto simp: in_loop_def intro: exI [of _ "[]"])
  from s no show "open_answer p t i j star mark = open_answer p t (s + 1) (mark + 1) star (mark + 1)"
  proof -
    have "mark + 1 \<le> length t"
      using assms(1,2) s by (simp add: in_loop_def)
    moreover have "k > mark \<longleftrightarrow> k = mark + 1 \<or> k > mark + 1" for k
      by auto
    ultimately show ?thesis
      using s no by (auto simp: open_answer_def)
  qed
qed

lemma end_step:
  assumes "in_loop p t i j star mark" and "\<not> j < length t"
  shows "open_answer p t i j star mark = (skip_stars p i = length p)"
proof -
  from assms have j: "j = length t" "i \<le> length p"
    by (auto simp: in_loop_def)
  have False if more: "star = Some s" "mark < k" "k \<le> length t" "means (tokens (drop (s + 1) p)) (drop k t)" for s k
  proof -
    from assms(1) more(1) obtain ms where ms: "Run \<notin> set ms" "mark \<le> j" "length ms = j - mark"
        "tokens (drop (s + 1) p) = ms @ tokens (drop i p)"
      by (auto simp: in_loop_def)
    from more(4) ms(4) have "means (ms @ tokens (drop i p)) (drop k t)"
      by simp
    from means_singles [OF ms(1) this] have "length ms \<le> length t - k"
      by simp
    with ms j more show False
      by simp
  qed
  with j show ?thesis
    by (auto simp: open_answer_def means_end split: option.split)
qed

lemma match_loop_answer:
  "in_loop p t i j star mark \<Longrightarrow> match_loop p t i j star mark = Some (open_answer p t i j star mark)"
proof (induction "(length p + 1 - (case star of None \<Rightarrow> 0 | Some s \<Rightarrow> s + 1), length t - mark, length p - i)"
    arbitrary: i j star mark rule: wf_induct_rule
      [OF wf_lex_prod [OF wf_less_than wf_lex_prod [OF wf_less_than wf_less_than]]])
  case 1
  note IH = 1(1) and loop = 1(2)
  show ?case
  proof (cases "j < length t")
    case False
    then show ?thesis
      using end_step [OF loop] by (subst match_loop.simps) simp
  next
    case j: True
    show ?thesis
    proof (cases "i < length p \<and> p ! i = star_char")
      case True
      then have "match_loop p t (i + 1) j (Some i) j = Some (open_answer p t (i + 1) j (Some i) j)"
        using star_step [OF loop j] loop by (intro IH) (auto simp: in_loop_def split: option.splits)
      with True j star_step(2) [OF loop j] show ?thesis
        by (subst match_loop.simps) simp
    next
      case no_star: False
      show ?thesis
      proof (cases "i < length p \<and> fits (fst (literal_at p i)) (t ! j)")
        case True
        then have "match_loop p t (i + snd (literal_at p i)) (j + 1) star mark =
            Some (open_answer p t (i + snd (literal_at p i)) (j + 1) star mark)"
          using match_step(1) [OF loop j] no_star literal_step [of p i] by (intro IH) auto
        with True no_star j match_step(2) [OF loop j] show ?thesis
          by (subst match_loop.simps) simp
      next
        case False
        note fail = fail_step [OF loop j no_star False]
        show ?thesis
        proof (cases star)
          case None
          with no_star False j fail(3) show ?thesis
            by (subst match_loop.simps) auto
        next
          case (Some s)
          then have "match_loop p t (s + 1) (mark + 1) star (mark + 1) =
              Some (open_answer p t (s + 1) (mark + 1) star (mark + 1))"
            using fail(1) loop j by (intro IH) (auto simp: in_loop_def)
          with Some no_star False j fail(2) show ?thesis
            by (subst match_loop.simps) auto
        qed
      qed
    qed
  qed
qed

text \<open>
  Claim C37. Matching a URL against a pattern always ends, never reads outside of either, and answers
  what the pattern means: a star is any run of characters, a question mark one character, and a
  character after a backslash, like any other, itself. Coming back to the last star only is enough.
\<close>

theorem wildcard_match_is_its_meaning:
  "wildcard_match pattern s = Some (means (tokens (chars pattern)) (chars s))"
  using match_loop_answer [of "chars pattern" "chars s" 0 0 None 0]
  by (simp add: wildcard_match_def in_loop_def open_answer_def)

end
