(* ===== verification/CdpFrames.thy ===== *)
theory CdpFrames
  imports CdpWire Wildcard
begin

text \<open>
  How a driver names things (\<open>crates/cdp/src/server.rs\<close>, the helpers around \<open>dispatch\<close>): handles and
  nodes of frames, execution contexts, request patterns and decisions, cookies and proxies as CDP
  parameters. The escaping of a JavaScript string, base64 and the arithmetic of expiry times are
  arguments.
\<close>

section \<open>References into frames\<close>

text \<open>\<open>i64\<close> arithmetic wraps.\<close>

definition wrap64 :: "int \<Rightarrow> int" where
  "wrap64 n = signed_take_bit 63 n"

lemma wrap64_small: "- (2 ^ 63) \<le> n \<Longrightarrow> n < 2 ^ 63 \<Longrightarrow> wrap64 n = n"
  by (simp add: wrap64_def signed_take_bit_int_eq_self)

definition node_stride :: int where
  "node_stride = 2 ^ 32"

definition child_frame_id :: "string \<Rightarrow> nat \<Rightarrow> string" where
  "child_frame_id target frame = target @ ''-F'' @ nat_str frame"

definition object_is_stale :: "string \<Rightarrow> nat \<Rightarrow> bool" where
  "object_is_stale oid page_ctx =
     (case Option.bind (strip_prefix ''obj-'' oid) (split_once CHR ''.'') of
        Some (c, _) \<Rightarrow> (case parse_unsigned (2 ^ 64) c of Some n \<Rightarrow> n \<noteq> page_ctx | None \<Rightarrow> False)
      | None \<Rightarrow> False)"

definition split_oid :: "string \<Rightarrow> nat option \<times> string" where
  "split_oid oid =
     (case Option.bind (strip_prefix ''f'' oid) (split_once CHR '':'') of
        Some (f, raw) \<Rightarrow>
          (case parse_unsigned (2 ^ 32) f of Some n \<Rightarrow> (Some n, raw) | None \<Rightarrow> (None, oid))
      | None \<Rightarrow> (None, oid))"

definition split_node_id :: "int \<Rightarrow> nat option \<times> int" where
  "split_node_id bid =
     (if node_stride \<le> bid then (Some (nat ((bid div node_stride - 1) mod 2 ^ 32)), bid mod node_stride)
      else (None, bid))"

definition tagged_oid :: "nat \<Rightarrow> string \<Rightarrow> string" where
  "tagged_oid frame s = ''f'' @ nat_str frame @ '':'' @ s"

definition tagged_node :: "nat \<Rightarrow> int \<Rightarrow> int" where
  "tagged_node frame n = wrap64 (wrap64 ((int frame + 1) * node_stride) + n)"

text \<open>One member of an object; \<open>inside\<close> is what becomes of it when it is no reference.\<close>

definition tag_member :: "nat \<Rightarrow> string \<Rightarrow> json \<Rightarrow> json \<Rightarrow> json" where
  "tag_member frame k x inside =
     (case x of
        JStr s \<Rightarrow> if k = ''objectId'' then JStr (tagged_oid frame s) else inside
      | JInt n \<Rightarrow>
          if k = ''backendNodeId''
          then (case as_i64 x of Some n \<Rightarrow> JInt (tagged_node frame n) | None \<Rightarrow> x) else inside
      | _ \<Rightarrow> inside)"

fun tag_frame_refs :: "nat \<Rightarrow> json \<Rightarrow> json" where
  "tag_frame_refs frame (JObj m) =
     JObj (map (\<lambda>p. (fst p, tag_member frame (fst p) (snd p) (tag_frame_refs frame (snd p)))) m)"
| "tag_frame_refs frame (JArr a) = JArr (map (tag_frame_refs frame) a)"
| "tag_frame_refs frame v = v"

fun int_str :: "int \<Rightarrow> string" where
  "int_str n = (if n < 0 then ''-'' @ nat_str (nat (- n)) else nat_str (nat n))"

definition node_ref :: "(string \<Rightarrow> string) \<Rightarrow> json \<Rightarrow> nat option \<times> string" where
  "node_ref js_str params =
     (case member_str params ''objectId'' of
        Some oid \<Rightarrow> let (f, raw) = split_oid oid in (f, ''__pt_objGet('' @ js_str raw @ '')'')
      | None \<Rightarrow>
          (case Option.bind
                  (case json_get params ''backendNodeId'' of Some v \<Rightarrow> Some v | None \<Rightarrow> json_get params ''nodeId'')
                  as_i64 of
             Some bid \<Rightarrow> let (f, bid) = split_node_id bid in (f, ''__pt_nodeById('' @ int_str bid @ '')'')
           | None \<Rightarrow> (None, ''null'')))"

section \<open>Execution contexts\<close>

definition frame_world_stride :: int where
  "frame_world_stride = 100000000"

definition frame_ctx_id :: "nat \<Rightarrow> int" where
  "frame_ctx_id frame = 1000000 + int frame"

definition frame_world_ctx_id :: "nat \<Rightarrow> nat \<Rightarrow> int" where
  "frame_world_ctx_id frame k = wrap64 (frame_ctx_id frame + wrap64 ((int k + 1) * frame_world_stride))"

definition frame_of_ctx_id :: "int \<Rightarrow> nat option" where
  "frame_of_ctx_id ctx =
     (if 1000000 \<le> ctx then Some (nat ((ctx - 1000000) mod frame_world_stride mod 2 ^ 32)) else None)"

section \<open>Held requests\<close>

definition decision_headers :: "json \<Rightarrow> string \<Rightarrow> (string, string) btree_map option" where
  "decision_headers params k =
     map_option
       (\<lambda>a. fold (\<lambda>(n, v). bt_insert n v)
              (List.map_filter
                (\<lambda>h. case (member_str h ''name'', member_str h ''value'') of
                        (Some n, Some v) \<Rightarrow> Some (n, v) | _ \<Rightarrow> None) a) [])
       (Option.bind (json_get params k) as_array)"

definition fetch_decision :: "(string \<Rightarrow> bytes option) \<Rightarrow> string \<Rightarrow> json \<Rightarrow> decision" where
  "fetch_decision base64 meth params =
     (let b64 = (\<lambda>k. map_option (\<lambda>s. case base64 s of Some b \<Rightarrow> b | None \<Rightarrow> []) (member_str params k)) in
      if meth = ''Fetch.failRequest'' then Fail
      else if meth = ''Fetch.fulfillRequest'' then
        Fulfill (case Option.bind (json_get params ''responseCode'') as_u64 of
                   Some n \<Rightarrow> n mod 2 ^ 16 | None \<Rightarrow> 200)
          (case decision_headers params ''responseHeaders'' of Some h \<Rightarrow> h | None \<Rightarrow> [])
          (case b64 ''body'' of Some b \<Rightarrow> b | None \<Rightarrow> [])
      else if meth = ''Fetch.continueRequest'' then
        Continue (member_str params ''url'') (member_str params ''method'')
          (decision_headers params ''headers'') (b64 ''postData'')
      else Continue None None None None)"

text \<open>\<open>None\<close>: no patterns were given, every request is paused.\<close>

type_synonym fetch_patterns = "(string \<times> string option) list option"

definition patterns_from :: "json \<Rightarrow> fetch_patterns" where
  "patterns_from params =
     map_option
       (List.map_filter (\<lambda>p.
          if (case member_str p ''requestStage'' of Some s \<Rightarrow> s | None \<Rightarrow> ''Request'') \<noteq> ''Request'' then None
          else Some (case member_str p ''urlPattern'' of Some u \<Rightarrow> u | None \<Rightarrow> ''*'',
                     member_str p ''resourceType'')))
       (Option.bind (json_get params ''patterns'') as_array)"

text \<open>\<open>None\<close> would be a match that does not end.\<close>

fun any_pauses :: "(string \<times> string option) list \<Rightarrow> string \<Rightarrow> string \<Rightarrow> bool option" where
  "any_pauses [] url kind = Some False"
| "any_pauses ((pat, k) # ps) url kind =
     (if k = None \<or> k = Some kind then
        (case wildcard_match pat url of
           None \<Rightarrow> None
         | Some True \<Rightarrow> Some True
         | Some False \<Rightarrow> any_pauses ps url kind)
      else any_pauses ps url kind)"

definition pauses :: "fetch_patterns \<Rightarrow> string \<Rightarrow> string \<Rightarrow> bool option" where
  "pauses patterns url kind = (case patterns of None \<Rightarrow> Some True | Some ps \<Rightarrow> any_pauses ps url kind)"

section \<open>Cookies and proxies as parameters\<close>

definition or_empty :: "string option \<Rightarrow> string" where
  "or_empty x = (case x of Some s \<Rightarrow> s | None \<Rightarrow> [])"

definition is_set :: "json \<Rightarrow> string \<Rightarrow> bool" where
  "is_set v k = (Option.bind (json_get v k) as_bool = Some True)"

text \<open>\<open>max_age\<close> reads \<open>expires\<close> and gives the seconds left from now, when it names a time.\<close>

definition cookie_param :: "(json \<Rightarrow> int option) \<Rightarrow> json \<Rightarrow> (string \<times> string) option" where
  "cookie_param max_age c =
     (case member_str c ''name'' of
        None \<Rightarrow> None
      | Some name \<Rightarrow>
          let val = or_empty (member_str c ''value'');
              domain = or_empty (member_str c ''domain'');
              path = (case member_str c ''path'' of Some p \<Rightarrow> p | None \<Rightarrow> ''/'');
              secure = is_set c ''secure'';
              url = (case member_str c ''url'' of
                       Some u \<Rightarrow> Some u
                     | None \<Rightarrow>
                         if domain \<noteq> []
                         then Some ((if secure then ''https'' else ''http'') @ ''://'' @
                                    trim_start_matches CHR ''.'' domain @ path)
                         else None)
          in case url of
               None \<Rightarrow> None
             | Some u \<Rightarrow>
                 Some (name @ ''='' @ val @ ''; Path='' @ path @
                   (if has_prefix domain ''.'' then ''; Domain='' @ domain else []) @
                   (if secure then ''; Secure'' else []) @
                   (if is_set c ''httpOnly'' then ''; HttpOnly'' else []) @
                   (case member_str c ''sameSite'' of Some ss \<Rightarrow> ''; SameSite='' @ ss | None \<Rightarrow> []) @
                   (case Option.bind (json_get c ''expires'') max_age of
                      Some n \<Rightarrow> ''; Max-Age='' @ int_str n | None \<Rightarrow> []), u))"

text \<open>\<open>double\<close> is an integer as a floating point number.\<close>

definition cdp_cookie :: "(int \<Rightarrow> u64) \<Rightarrow> cookie_record \<Rightarrow> json" where
  "cdp_cookie double c =
     JObj ([(''name'', JStr (cr_name c)), (''value'', JStr (cr_value c)),
       (''domain'', JStr (or_empty (cr_domain c))),
       (''path'', JStr (case cr_path c of Some p \<Rightarrow> p | None \<Rightarrow> ''/'')),
       (''expires'', JFloat (double (case cr_expires c of Some t \<Rightarrow> t | None \<Rightarrow> - 1))),
       (''size'', JInt (int (length (cr_name c) + length (cr_value c)))),
       (''httpOnly'', JBool (cr_http_only c)), (''secure'', JBool (cr_secure c)),
       (''session'', JBool (cr_expires c = None))] @
       (case cr_same_site c of
          Some s \<Rightarrow> [(''sameSite'', JStr (case s of [] \<Rightarrow> s | ch # rest \<Rightarrow> upper_char ch # rest))]
        | None \<Rightarrow> []))"

definition parse_proxy_server :: "string \<Rightarrow> proxy_config option" where
  "parse_proxy_server s =
     (let (scheme, rest) = (case split_once_str ''://'' s of Some p \<Rightarrow> p | None \<Rightarrow> (''http'', s));
          kind = (if scheme = ''http'' \<or> scheme = ''https'' then Some Http
                  else if scheme = ''socks5'' \<or> scheme = ''socks5h'' \<or> scheme = ''socks'' then Some Socks5
                  else None)
      in case kind of
           None \<Rightarrow> None
         | Some kind \<Rightarrow>
             let (auth, hostport) = (case rsplit_once CHR ''@'' rest of
                     Some (a, hp) \<Rightarrow> (Some a, hp) | None \<Rightarrow> (None, rest))
             in case rsplit_once CHR '':'' (trim_end_matches CHR ''/'' hostport) of
                  None \<Rightarrow> None
                | Some (host, port) \<Rightarrow>
                    (case parse_unsigned (2 ^ 16) port of
                       None \<Rightarrow> None
                     | Some port \<Rightarrow>
                         let (user, pass) = (case auth of
                               Some a \<Rightarrow> (case split_once CHR '':'' a of
                                            Some (u, p) \<Rightarrow> (Some u, Some p) | None \<Rightarrow> (Some a, None))
                             | None \<Rightarrow> (None, None))
                         in Some \<lparr>px_scheme = kind, px_host = host, px_port = port,
                                  px_username = user, px_password = pass\<rparr>))"

definition configuration_noops :: "string list" where
  "configuration_noops =
     [''Browser.setDownloadBehavior'', ''DOM.disable'', ''Emulation.setDefaultBackgroundColorOverride'',
      ''Emulation.setEmulatedMedia'', ''Emulation.setFocusEmulationEnabled'', ''Emulation.setPageScaleFactor'',
      ''Emulation.setScriptExecutionDisabled'', ''Emulation.setTouchEmulationEnabled'', ''Log.clear'',
      ''Log.disable'', ''Network.disable'', ''Network.setCacheDisabled'', ''Network.setExtraHTTPHeaders'',
      ''Page.disable'', ''Page.setBypassCSP'', ''Page.setInterceptFileChooserDialog'', ''Page.stopLoading'',
      ''Performance.disable'', ''Runtime.discardConsoleEntries'', ''Runtime.disable'',
      ''Target.detachFromTarget'', ''Target.setDiscoverTargets'']"

definition is_configuration_noop :: "string \<Rightarrow> bool" where
  "is_configuration_noop meth = List.member configuration_noops meth"

section \<open>A frame's references come back to it\<close>

datatype reference = ObjectRef string | NodeRef int

definition member_refs :: "string \<Rightarrow> json \<Rightarrow> reference list \<Rightarrow> reference list" where
  "member_refs k x inside =
     (case x of
        JStr s \<Rightarrow> if k = ''objectId'' then [ObjectRef s] else inside
      | JInt n \<Rightarrow> if k = ''backendNodeId'' then [NodeRef n] else inside
      | _ \<Rightarrow> inside)"

fun refs_of :: "json \<Rightarrow> reference list" where
  "refs_of (JObj m) = concat (map (\<lambda>p. member_refs (fst p) (snd p) (refs_of (snd p))) m)"
| "refs_of (JArr a) = concat (map refs_of a)"
| "refs_of v = []"

definition resolve_ref :: "reference \<Rightarrow> nat option \<times> reference" where
  "resolve_ref r =
     (case r of
        ObjectRef s \<Rightarrow> map_prod id ObjectRef (split_oid s)
      | NodeRef n \<Rightarrow> map_prod id NodeRef (split_node_id n))"

definition plain_ref :: "reference \<Rightarrow> bool" where
  "plain_ref r = (case r of ObjectRef _ \<Rightarrow> True | NodeRef n \<Rightarrow> 0 \<le> n \<and> n < node_stride)"

lemma nat_str_no_colon: "CHR '':'' \<notin> set (nat_str n)"
proof
  assume "CHR '':'' \<in> set (nat_str n)"
  then obtain d where "d < 10" "CHR '':'' = digit_char d"
    using nat_str_digits by blast
  then have "of_char (CHR '':'') = (48 + d :: nat)"
    by (simp add: digit_char_def)
  with \<open>d < 10\<close> show False
    by simp
qed

lemma split_tagged_oid: "frame < 2 ^ 32 \<Longrightarrow> split_oid (tagged_oid frame s) = (Some frame, s)"
  using nat_str_no_colon [of frame]
  by (simp add: split_oid_def tagged_oid_def parse_nat_str
      split_once_Some [of "CHR '':''" "nat_str frame @ CHR '':'' # s" "nat_str frame" s, THEN iffD2])

lemma split_tagged_node:
  assumes "frame + 1 < 2 ^ 31" and "0 \<le> n" and "n < node_stride"
  shows "split_node_id (tagged_node frame n) = (Some frame, n)"
proof -
  have "(int frame + 1) * node_stride + n < 2 ^ 63"
  proof -
    have "(int frame + 2) * node_stride \<le> 2 ^ 31 * node_stride"
      using assms(1) by (intro mult_right_mono) (simp_all add: node_stride_def)
    with assms(3) show ?thesis
      by (simp add: node_stride_def algebra_simps)
  qed
  moreover have "0 \<le> (int frame + 1) * node_stride"
    by (simp add: node_stride_def)
  ultimately have tag: "tagged_node frame n = (int frame + 1) * node_stride + n"
    using assms(2) by (simp add: tagged_node_def wrap64_small)
  moreover have "((int frame + 1) * node_stride + n) div node_stride = int frame + 1"
      "((int frame + 1) * node_stride + n) mod node_stride = n"
    using assms(2,3) by (simp_all add: div_pos_pos_trivial mod_pos_pos_trivial)
  moreover have "node_stride \<le> (int frame + 1) * node_stride + n"
    using assms(2) by (simp add: node_stride_def)
  ultimately show ?thesis
    using assms(1) by (simp add: split_node_id_def)
qed

lemma refs_of_tagged_member:
  assumes "frame + 1 < 2 ^ 31"
      and "list_all plain_ref (member_refs k x (refs_of x))"
      and "list_all plain_ref (refs_of x) \<Longrightarrow> map resolve_ref (refs_of y) = map (Pair (Some frame)) (refs_of x)"
      and "(\<exists>m. x = JObj m \<and> y = tag_frame_refs frame x) \<or> (\<exists>a. x = JArr a \<and> y = tag_frame_refs frame x) \<or> y = x"
  shows "map resolve_ref (member_refs k (tag_member frame k x y) (refs_of (tag_member frame k x y))) =
    map (Pair (Some frame)) (member_refs k x (refs_of x))"
proof (cases x)
  case (JInt n)
  show ?thesis
  proof (cases "k = ''backendNodeId''")
    case True
    with JInt assms(2) have n: "0 \<le> n" "n < node_stride"
      by (simp_all add: member_refs_def plain_ref_def)
    then have "as_i64 (JInt n) = Some n"
      by (simp add: as_i64_def node_stride_def)
    with JInt True split_tagged_node [OF assms(1) n] show ?thesis
      by (simp add: member_refs_def tag_member_def resolve_ref_def)
  next
    case False
    with JInt assms(4) show ?thesis
      by (auto simp: member_refs_def tag_member_def)
  qed
next
  case (JStr s)
  have "frame < 2 ^ 32"
    using assms(1) by simp
  with JStr assms(4) split_tagged_oid [of frame s] show ?thesis
    by (auto simp: member_refs_def tag_member_def resolve_ref_def)
qed (use assms(2-4) in \<open>auto simp: member_refs_def tag_member_def\<close>)

lemma refs_of_tagged:
  assumes "frame + 1 < 2 ^ 31"
  shows "list_all plain_ref (refs_of v) \<Longrightarrow>
    map resolve_ref (refs_of (tag_frame_refs frame v)) = map (Pair (Some frame)) (refs_of v)"
proof (induction v rule: refs_of.induct)
  case (1 m)
  have "map resolve_ref (member_refs (fst p) (tag_member frame (fst p) (snd p) (tag_frame_refs frame (snd p)))
        (refs_of (tag_member frame (fst p) (snd p) (tag_frame_refs frame (snd p))))) =
      map (Pair (Some frame)) (member_refs (fst p) (snd p) (refs_of (snd p)))" if "p \<in> set m" for p
  proof (rule refs_of_tagged_member [OF assms])
    show "list_all plain_ref (member_refs (fst p) (snd p) (refs_of (snd p)))"
      using 1(2) that by (auto simp: list_all_iff)
    show "list_all plain_ref (refs_of (snd p)) \<Longrightarrow>
        map resolve_ref (refs_of (tag_frame_refs frame (snd p))) = map (Pair (Some frame)) (refs_of (snd p))"
      using 1(1) that by simp
    show "(\<exists>m. snd p = JObj m \<and> tag_frame_refs frame (snd p) = tag_frame_refs frame (snd p)) \<or>
        (\<exists>a. snd p = JArr a \<and> tag_frame_refs frame (snd p) = tag_frame_refs frame (snd p)) \<or>
        tag_frame_refs frame (snd p) = snd p"
      by (cases "snd p") simp_all
  qed
  then show ?case
    by (simp add: map_concat comp_def cong: map_cong)
next
  case (2 a)
  then have "map resolve_ref (refs_of (tag_frame_refs frame x)) = map (Pair (Some frame)) (refs_of x)"
    if "x \<in> set a" for x
    using that by (auto simp: list_all_iff)
  then show ?case
    by (simp add: map_concat comp_def cong: map_cong)
qed simp_all

text \<open>
  Claim C39. Every handle and node in a frame's answer, sent back by the driver, names that frame and
  the handle or node as the frame knows it: marking an answer, whatever its shape, and taking a
  reference apart are inverse, for frame ids below 2^31 - 1 and node ids below 2^32.
\<close>

theorem frame_references_come_back:
  assumes "frame + 1 < 2 ^ 31"
      and "list_all plain_ref (refs_of v)"
  shows "map resolve_ref (refs_of (tag_frame_refs frame v)) = map (\<lambda>r. (Some frame, r)) (refs_of v)"
  using refs_of_tagged [OF assms] .

definition demo_answer :: json where
  "demo_answer =
     JObj [(''result'', JObj [(''objectId'', JStr ''obj-3.7''), (''type'', JStr ''object'')]),
           (''nodes'', JArr [JObj [(''backendNodeId'', JInt 42)], JNull])]"

theorem frame_references_come_back_witness:
  "map resolve_ref (refs_of (tag_frame_refs 5 demo_answer)) =
     [(Some 5, ObjectRef ''obj-3.7''), (Some 5, NodeRef 42)]"
proof -
  have refs: "refs_of demo_answer = [ObjectRef ''obj-3.7'', NodeRef 42]"
    by code_simp
  show ?thesis
    using frame_references_come_back [of 5 demo_answer] by (simp add: refs plain_ref_def node_stride_def)
qed

section \<open>Contexts of frames\<close>

lemma frame_world_ctx_id_small:
  "frame < 2 ^ 32 \<Longrightarrow> k < 2 ^ 32 \<Longrightarrow>
   frame_world_ctx_id frame k = 1000000 + int frame + (int k + 1) * frame_world_stride"
  by (simp add: frame_world_ctx_id_def frame_ctx_id_def frame_world_stride_def wrap64_small)

lemma contexts_name_their_frame:
  assumes "frame < 100000000" and "k < 2 ^ 32"
  shows "frame_of_ctx_id (frame_ctx_id frame) = Some frame"
    and "frame_of_ctx_id (frame_world_ctx_id frame k) = Some frame"
  using assms by (simp_all add: frame_world_ctx_id_small frame_of_ctx_id_def frame_ctx_id_def frame_world_stride_def)

text \<open>The page's own contexts are numbered by the process-wide counter, which has no upper end.\<close>

lemma page_context_taken_for_a_frame: "frame_of_ctx_id 1000000 = Some 0"
  by code_simp

end
