(* ===== verification/CdpBrowser.thy ===== *)
theory CdpBrowser
  imports CdpFrames "HOL-Library.Multiset"
begin

text \<open>
  One driver's connection (\<open>Conn\<close> in \<open>crates/cdp/src/server.rs\<close>): its pages, sessions and browser
  contexts, and the commands that change them. A command is answered with messages, asks the engine
  for things (\<open>effect\<close>) and leaves a new connection. What the engine knows (cookies, frames, the
  document's address) is an argument; contexts of the engine are numbers.
\<close>

section \<open>State\<close>

record target =
  tg_id :: string
  tg_session :: string
  tg_ctx :: nat
  tg_exec_ctx :: int
  tg_url :: string
  tg_iso_worlds :: "(string \<times> int) list"
  tg_frame_worlds :: "(string \<times> bool) list"
  tg_init_scripts :: "string list"
  tg_context :: "string option"
  tg_loader :: string
  tg_held :: "(string \<times> nat) list"
  tg_frames :: "nat list"
  tg_navigating :: bool
  tg_announced :: u64
  tg_extra_sessions :: "string list"

record context_cfg =
  bc_proxy :: "proxy_config option"
  bc_session :: "string option"
  bc_auto_solve :: "bool option"
  bc_pending_cookies :: "(string \<times> string) list"


text \<open>A page whose engine context is being built.\<close>

record pending_target =
  pt_reply :: int
  pt_reply_session :: "string option"
  pt_target :: string
  pt_session :: string
  pt_url :: string
  pt_auto_attach :: bool
  pt_context :: "string option"

record conn =
  cn_auto_attach :: bool
  cn_targets :: "target list"
  cn_pending :: "pending_target list"
  cn_registry :: registry
  cn_port :: nat
  cn_browser_sessions :: "string list"
  cn_contexts :: "(string \<times> context_cfg) list"
  cn_ids :: u64

datatype effect =
    SetCookie nat string string
  | BuildContext pending_target "string option" "string option" "proxy_config option" "(string \<times> string) list"
  | ReleaseIdentity string
  | AskWindow int "string option" nat
  | AddInitScript nat string
  | StopIntercepting nat
  | DropHeld "nat list"
  | AnswerHeld nat decision
  | PageCommand nat int string json "string option"

type_synonym reaction = "json list \<times> effect list \<times> conn"

definition reply :: "json list \<Rightarrow> conn \<Rightarrow> reaction" where
  "reply out c = (out, [], c)"

definition fresh_id :: "string \<Rightarrow> conn \<Rightarrow> string \<times> conn" where
  "fresh_id prefix c = (let (ident, ids) = next_id prefix (cn_ids c) in (ident, c\<lparr>cn_ids := ids\<rparr>))"

definition fresh_ctx :: "conn \<Rightarrow> int \<times> conn" where
  "fresh_ctx c = (sint (cn_ids c), c\<lparr>cn_ids := cn_ids c + 1\<rparr>)"




definition update_target :: "nat \<Rightarrow> (target \<Rightarrow> target) \<Rightarrow> conn \<Rightarrow> conn" where
  "update_target i f c = c\<lparr>cn_targets := (cn_targets c)[i := f (cn_targets c ! i)]\<rparr>"

section \<open>Pages come and go\<close>










definition dispose_browser_context :: "int \<Rightarrow> json \<Rightarrow> string option \<Rightarrow> conn \<Rightarrow> reaction" where
  "dispose_browser_context ident params session c =
     (let done = ok_message ident session (JObj [(''success'', JBool True)]) in
      case member_str params ''browserContextId'' of
        None \<Rightarrow> reply [done] c
      | Some bc \<Rightarrow>
          let named = Option.bind (map_of (cn_contexts c) bc) bc_session;
              closing = map tg_id (filter (\<lambda>t. tg_context t = Some bc) (cn_targets c))
          in (map (\<lambda>tid. event_message ''Target.targetDestroyed'' None (JObj [(''targetId'', JStr tid)])) closing @ [done],
              if named = None \<and> bc \<noteq> [] then [ReleaseIdentity bc] else [],
              c\<lparr>cn_contexts := AList.delete bc (cn_contexts c),
                cn_targets := filter (\<lambda>t. tg_context t \<noteq> Some bc) (cn_targets c)\<rparr>))"

text \<open>When the connection ends.\<close>

definition end_session :: "conn \<Rightarrow> registry" where
  "end_session c = fold (\<lambda>t. reg_remove (tg_id t)) (cn_targets c) (cn_registry c)"

section \<open>Browser level commands\<close>











section \<open>Page level commands\<close>









text \<open>A frame as the engine lists it: its id, address and origin.\<close>

record frame_info =
  fi_id :: nat
  fi_url :: string
  fi_origin :: string

definition frame_world_created :: "string option \<Rightarrow> nat \<Rightarrow> nat \<Rightarrow> string \<Rightarrow> string \<Rightarrow> string \<Rightarrow> json" where
  "frame_world_created session frame k name origin fid =
     (let cid = frame_world_ctx_id frame k
      in event_message ''Runtime.executionContextCreated'' session
           (JObj [(''context'', JObj
             [(''id'', JInt cid), (''origin'', JStr origin), (''name'', JStr name),
              (''uniqueId'', JStr (int_str cid @ ''.1'')),
              (''auxData'', JObj [(''isDefault'', JBool False), (''type'', JStr ''isolated''), (''frameId'', JStr fid)])])]))"


section \<open>Dispatch\<close>







section \<open>What the page does by itself\<close>

definition page_context_created :: "string option \<Rightarrow> string \<Rightarrow> int \<Rightarrow> string \<Rightarrow> string \<Rightarrow> bool \<Rightarrow> string \<Rightarrow> json" where
  "page_context_created session origin cid name kind default_world fid =
     event_message ''Runtime.executionContextCreated'' session
       (JObj [(''context'', JObj
         [(''id'', JInt cid), (''origin'', JStr origin), (''name'', JStr name), (''uniqueId'', JStr (int_str cid @ ''.1'')),
          (''auxData'', JObj [(''isDefault'', JBool default_world), (''type'', JStr kind), (''frameId'', JStr fid)])])])"




definition frame_attached :: "target \<Rightarrow> frame_info \<Rightarrow> json list" where
  "frame_attached t f =
     (let session = Some (tg_session t);
          fid = child_frame_id (tg_id t) (fi_id f)
      in [event_message ''Page.frameAttached'' session
            (JObj [(''frameId'', JStr fid), (''parentFrameId'', JStr (tg_id t)),
                   (''stack'', JObj [(''callFrames'', JArr [])])]),
          event_message ''Page.frameNavigated'' session
            (JObj [(''type'', JStr ''Navigation''),
                   (''frame'', JObj [(''id'', JStr fid), (''parentId'', JStr (tg_id t)),
                      (''loaderId'', JStr (''LF'' @ nat_str (fi_id f))), (''url'', JStr (fi_url f)),
                      (''domainAndRegistry'', JStr []), (''securityOrigin'', JStr (fi_origin f)),
                      (''mimeType'', JStr ''text/html'')])]),
          page_context_created session (fi_origin f) (frame_ctx_id (fi_id f)) [] ''default'' True fid] @
         map (\<lambda>(k, n, _). frame_world_created session (fi_id f) k n (fi_origin f) fid)
           (filter (\<lambda>(_, _, auto). auto) (enumerate 0 (tg_frame_worlds t))))"

definition context_destroyed :: "string option \<Rightarrow> int \<Rightarrow> json" where
  "context_destroyed session cid =
     event_message ''Runtime.executionContextDestroyed'' session (JObj [(''executionContextId'', JInt cid)])"

definition frame_detached :: "target \<Rightarrow> nat \<Rightarrow> json list" where
  "frame_detached t frame =
     (let session = Some (tg_session t)
      in map (\<lambda>k. context_destroyed session (frame_world_ctx_id frame k)) [0..<length (tg_frame_worlds t)] @
         [context_destroyed session (frame_ctx_id frame),
          event_message ''Page.frameDetached'' session
            (JObj [(''frameId'', JStr (child_frame_id (tg_id t) frame)), (''reason'', JStr ''remove'')])])"

fun new_frames :: "nat list \<Rightarrow> frame_info list \<Rightarrow> frame_info list \<times> nat list" where
  "new_frames shown [] = ([], shown)"
| "new_frames shown (f # fs) =
     (if List.member shown (fi_id f) then new_frames shown fs
      else case new_frames (shown @ [fi_id f]) fs of (news, shown) \<Rightarrow> (f # news, shown))"

definition announce_frames :: "nat \<Rightarrow> frame_info list \<Rightarrow> conn \<Rightarrow> reaction" where
  "announce_frames i live c =
     (let t = cn_targets c ! i in
      if tg_navigating t then reply [] c
      else
        let (news, shown) = new_frames (tg_frames t) live;
            gone = filter (\<lambda>n. \<not> list_ex (\<lambda>f. fi_id f = n) live) shown
        in reply (concat (map (frame_attached t) news) @ concat (map (frame_detached t) gone))
             (update_target i (\<lambda>t. t\<lparr>tg_frames := filter (\<lambda>n. list_ex (\<lambda>f. fi_id f = n) live) shown\<rparr>) c))"

lemma new_frames_known: "set (snd (new_frames shown fs)) = set shown \<union> fi_id ` set fs"
  by (induction shown fs rule: new_frames.induct) (auto split: prod.splits)

lemma announced_frames_are_live:
  assumes "i < length (cn_targets c)" and "\<not> tg_navigating (cn_targets c ! i)"
  shows "set (tg_frames (cn_targets (snd (snd (announce_frames i live c))) ! i)) = fi_id ` set live"
  using assms new_frames_known [of "tg_frames (cn_targets c ! i)" live]
  by (auto simp: announce_frames_def reply_def update_target_def Let_def list_ex_iff split_def)

section \<open>Every page that can be reached is listed\<close>





definition listed :: "conn \<Rightarrow> string \<Rightarrow> bool" where
  "listed c name = list_ex (\<lambda>e. json_at e ''id'' = JStr name) (cn_registry c)"


definition same_pages :: "conn \<Rightarrow> conn \<Rightarrow> bool" where
  "same_pages c c' \<longleftrightarrow> map tg_id (cn_targets c') = map tg_id (cn_targets c) \<and> cn_pending c' = cn_pending c \<and>
     cn_registry c' = cn_registry c \<and> unat (cn_ids c) \<le> unat (cn_ids c')"

lemma same_pages_refl [simp]: "same_pages c c"
  by (simp add: same_pages_def)



lemma map_update_target [simp]:
  "(\<And>t. tg_id (f t) = tg_id t) \<Longrightarrow> map tg_id (cn_targets (update_target i f c)) = map tg_id (cn_targets c)"
  by (cases "i < length (cn_targets c)")
    (simp_all add: update_target_def map_update list_update_beyond list_update_same_conv)

lemma update_target_other [simp]:
  "cn_pending (update_target i f c) = cn_pending c" "cn_registry (update_target i f c) = cn_registry c"
  "cn_ids (update_target i f c) = cn_ids c"
  by (simp_all add: update_target_def)

lemma fresh_id_simps [simp]:
  "fresh_id p c = (p @ hex_str (unat (cn_ids c)), c\<lparr>cn_ids := cn_ids c + 1\<rparr>)"
  by (simp add: fresh_id_def next_id_def)

lemma fresh_ctx_simps [simp]: "fresh_ctx c = (sint (cn_ids c), c\<lparr>cn_ids := cn_ids c + 1\<rparr>)"
  by (simp add: fresh_ctx_def)






section \<open>Opening and closing\<close>




















text \<open>
  The index may list more than that: disposing of a browser context closes its pages without taking
  them out of the index.
\<close>

lemma disposed_pages_stay_listed:
  "listed (snd (snd (dispose_browser_context ident params session c))) name = listed c name"
  by (simp add: dispose_browser_context_def reply_def Let_def listed_def split: option.split)

text \<open>Nor are session ids of pages and of the browser kept apart: \<open>S\<close> before \<open>B5\<close> is \<open>SB\<close> before \<open>5\<close>.\<close>

lemma session_ids_collide:
  "fst (next_id ''SB'' 5) = fst (next_id ''S'' 0xB5)"
  by code_simp






end
