(* ===== verification/Profile.thy ===== *)
theory Profile
  imports ClientHints
begin

text \<open>
  Identities (\<open>crates/stealth/src/lib.rs\<close>): the profile a page sees, the three presets, their
  version and zone, and how a value is written into a script. The scripts themselves are
  JavaScript and are not modelled.
\<close>

section \<open>Profiles\<close>

record stealth_profile =
  sp_user_agent :: string
  sp_platform :: string
  sp_languages :: "string list"
  sp_hardware_concurrency :: nat
  sp_device_memory :: nat
  sp_vendor :: string
  sp_webgl_vendor :: string
  sp_webgl_renderer :: string
  sp_timezone :: string
  sp_offset_minutes :: int
  sp_dst :: string
  sp_name_std :: string
  sp_name_dst :: string
  sp_screen_width :: nat
  sp_screen_height :: nat
  sp_avail_height :: nat
  sp_color_depth :: nat
  sp_ua_platform :: string
  sp_chrome_major :: nat
  sp_pin_timezone :: bool

text \<open>\<open>str::replace\<close> with a pattern that is not empty.\<close>

function replace_all :: "'a list \<Rightarrow> 'a list \<Rightarrow> 'a list \<Rightarrow> 'a list" where
  "replace_all old new s =
     (case split_once_str old s of
        None \<Rightarrow> s
      | Some (a, b) \<Rightarrow> if old = [] then s else a @ new @ replace_all old new b)"
  by pat_completeness auto

termination replace_all
  by (relation "measure (\<lambda>(_, _, s). length s)") (auto dest: split_once_str_Some)

declare replace_all.simps [simp del]

definition chrome_token :: "nat \<Rightarrow> string" where
  "chrome_token major = ''Chrome/'' @ nat_str major @ ''.0.0.0''"

definition with_chrome_major :: "nat \<Rightarrow> stealth_profile \<Rightarrow> stealth_profile" where
  "with_chrome_major major p =
     p\<lparr>sp_user_agent := replace_all (chrome_token (sp_chrome_major p)) (chrome_token major) (sp_user_agent p),
       sp_chrome_major := major\<rparr>"

section \<open>Presets\<close>

datatype profile_os = OsLinux | OsWindows | OsMac

datatype fingerprint_profile = ChromeLinux | ChromeWindows | ChromeMac

definition chrome_full :: string where
  "chrome_full = ''151.0.7922.173''"

definition all_profiles :: "fingerprint_profile list" where
  "all_profiles = [ChromeLinux, ChromeWindows, ChromeMac]"

fun profile_os_of :: "fingerprint_profile \<Rightarrow> profile_os" where
  "profile_os_of ChromeLinux = OsLinux"
| "profile_os_of ChromeWindows = OsWindows"
| "profile_os_of ChromeMac = OsMac"

definition from_seed :: "u64 \<Rightarrow> fingerprint_profile" where
  "from_seed seed = all_profiles ! unat (seed mod of_nat (length all_profiles))"

text \<open>
  The memory of the machine, from the text of \<open>/proc/meminfo\<close>. The loop compares doubles; below
  \<open>2^53\<close> bytes they are exact, and \<open>v * 1.5 < bytes / 2^30\<close> is \<open>3 * v * 2^30 < 2 * bytes\<close>. Seven
  rounds reach 64.
\<close>

fun first_word :: "string \<Rightarrow> string" where
  "first_word [] = []"
| "first_word (c # s) = (if list_ex (has_prefix (c # s)) white_spaces then [] else c # first_word s)"

definition meminfo_kb :: "string \<Rightarrow> nat option" where
  "meminfo_kb text =
     (case List.map_filter (strip_prefix ''MemTotal:'') (split_on CHR 0x0A text) of
        [] \<Rightarrow> None
      | r # _ \<Rightarrow> (let w = first_word (trim_start r) in if w = [] then None else parse_unsigned (2 ^ 64) w))"

fun memory_steps :: "nat \<Rightarrow> nat \<Rightarrow> nat \<Rightarrow> nat" where
  "memory_steps 0 bytes v = v"
| "memory_steps (Suc n) bytes v =
     (if 3 * v * 2 ^ 30 < 2 * bytes \<and> v < 64 then memory_steps n bytes (v * 2) else v)"

definition device_memory_gb :: "string option \<Rightarrow> nat" where
  "device_memory_gb meminfo =
     (let bytes = (case Option.bind meminfo meminfo_kb of Some kb \<Rightarrow> kb * 1024 | None \<Rightarrow> 8 * 1024 * 1024 * 1024)
      in memory_steps 7 bytes 1)"

fun os_fields :: "profile_os \<Rightarrow> string \<times> string \<times> nat \<times> nat \<times> nat \<times> nat" where
  "os_fields OsLinux = (''Linux x86_64'', ''Linux'', 1920, 1080, 1053, 24)"
| "os_fields OsWindows = (''Win32'', ''Windows'', 1920, 1080, 1032, 24)"
| "os_fields OsMac = (''MacIntel'', ''macOS'', 1512, 982, 944, 30)"

definition common_profile ::
    "profile_os \<Rightarrow> nat \<Rightarrow> string \<Rightarrow> nat \<Rightarrow> string \<Rightarrow> string \<Rightarrow> stealth_profile" where
  "common_profile os memory ua hw gl_vendor gl_renderer =
     (case os_fields os of (platform, ua_platform, sw, sh, avail, depth) \<Rightarrow>
       \<lparr>sp_user_agent = ua, sp_platform = platform, sp_languages = [''en-US'', ''en''],
        sp_hardware_concurrency = hw, sp_device_memory = memory, sp_vendor = ''Google Inc.'',
        sp_webgl_vendor = gl_vendor, sp_webgl_renderer = gl_renderer,
        sp_timezone = ''America/New_York'', sp_offset_minutes = 300, sp_dst = ''us'',
        sp_name_std = ''Eastern Standard Time'', sp_name_dst = ''Eastern Daylight Time'',
        sp_screen_width = sw, sp_screen_height = sh, sp_avail_height = avail, sp_color_depth = depth,
        sp_ua_platform = ua_platform, sp_chrome_major = 151, sp_pin_timezone = False\<rparr>)"

fun stealth :: "nat \<Rightarrow> fingerprint_profile \<Rightarrow> stealth_profile" where
  "stealth memory ChromeLinux = common_profile OsLinux memory
     (''Mozilla/5.0 (X11; Linux x86_64) AppleWebKit/537.36 (KHTML, like Gecko) '' @
      ''Chrome/151.0.0.0 Safari/537.36'') 8 ''Google Inc. (Intel)''
     ''ANGLE (Intel, Mesa Intel(R) Xe Graphics (TGL GT2), OpenGL ES 3.2)''"
| "stealth memory ChromeWindows = common_profile OsWindows memory
     (''Mozilla/5.0 (Windows NT 10.0; Win64; x64) AppleWebKit/537.36 (KHTML, like Gecko) '' @
      ''Chrome/151.0.0.0 Safari/537.36'') 16 ''Google Inc. (NVIDIA)''
     ''ANGLE (NVIDIA, NVIDIA GeForce RTX 3060 (0x00002503) Direct3D11 vs_5_0 ps_5_0, D3D11)''"
| "stealth memory ChromeMac = common_profile OsMac memory
     (''Mozilla/5.0 (Macintosh; Intel Mac OS X 10_15_7) AppleWebKit/537.36 '' @
      ''(KHTML, like Gecko) Chrome/151.0.0.0 Safari/537.36'') 8 ''Google Inc. (Apple)''
     ''ANGLE (Apple, ANGLE Metal Renderer: Apple M1, Unspecified Version)''"

section \<open>Zones and languages\<close>

record timezone_fields =
  tz_offset :: int
  tz_rule :: string
  tz_std :: string
  tz_dst :: string

definition zone :: "int \<Rightarrow> string \<Rightarrow> string \<Rightarrow> string \<Rightarrow> timezone_fields" where
  "zone offset rule std dst = \<lparr>tz_offset = offset, tz_rule = rule, tz_std = std, tz_dst = dst\<rparr>"

text \<open>The arms of the match, in its order.\<close>

definition timezone_table :: "(string list \<times> timezone_fields) list" where
  "timezone_table =
    [([''America/New_York'', ''America/Toronto''],
       zone 300 ''us'' ''Eastern Standard Time'' ''Eastern Daylight Time''),
     ([''America/Chicago''], zone 360 ''us'' ''Central Standard Time'' ''Central Daylight Time''),
     ([''America/Denver''], zone 420 ''us'' ''Mountain Standard Time'' ''Mountain Daylight Time''),
     ([''America/Phoenix''],
       zone 420 ''none'' ''Mountain Standard Time'' ''Mountain Standard Time''),
     ([''America/Los_Angeles'', ''America/Vancouver''],
       zone 480 ''us'' ''Pacific Standard Time'' ''Pacific Daylight Time''),
     ([''America/Anchorage''], zone 540 ''us'' ''Alaska Standard Time'' ''Alaska Daylight Time''),
     ([''America/Mexico_City''],
       zone 360 ''none'' ''Central Standard Time'' ''Central Standard Time''),
     ([''America/Sao_Paulo''],
       zone 180 ''none'' ''Brasilia Standard Time'' ''Brasilia Standard Time''),
     ([''Europe/London'', ''Europe/Dublin'', ''Europe/Lisbon''],
       zone 0 ''eu'' ''Greenwich Mean Time'' ''British Summer Time''),
     ([''Europe/Paris'', ''Europe/Berlin'', ''Europe/Madrid'', ''Europe/Rome'',
       ''Europe/Amsterdam'', ''Europe/Brussels'', ''Europe/Vienna'', ''Europe/Zurich'',
       ''Europe/Prague'', ''Europe/Warsaw'', ''Europe/Stockholm'', ''Europe/Oslo'',
       ''Europe/Copenhagen'', ''Europe/Budapest''],
       zone (-60) ''eu'' ''Central European Standard Time'' ''Central European Summer Time''),
     ([''Europe/Athens'', ''Europe/Helsinki'', ''Europe/Bucharest'', ''Europe/Kyiv'',
       ''Europe/Kiev'', ''Europe/Riga'', ''Europe/Sofia''],
       zone (-120) ''eu'' ''Eastern European Standard Time'' ''Eastern European Summer Time''),
     ([''Europe/Istanbul''], zone (-180) ''none'' ''GMT+03:00'' ''GMT+03:00''),
     ([''Europe/Moscow''], zone (-180) ''none'' ''Moscow Standard Time'' ''Moscow Standard Time''),
     ([''Africa/Lagos''],
       zone (-60) ''none'' ''West Africa Standard Time'' ''West Africa Standard Time''),
     ([''Africa/Johannesburg''],
       zone (-120) ''none'' ''South Africa Standard Time'' ''South Africa Standard Time''),
     ([''Asia/Dubai''], zone (-240) ''none'' ''Gulf Standard Time'' ''Gulf Standard Time''),
     ([''Asia/Karachi''],
       zone (-300) ''none'' ''Pakistan Standard Time'' ''Pakistan Standard Time''),
     ([''Asia/Kolkata'', ''Asia/Calcutta''],
       zone (-330) ''none'' ''India Standard Time'' ''India Standard Time''),
     ([''Asia/Dhaka''],
       zone (-360) ''none'' ''Bangladesh Standard Time'' ''Bangladesh Standard Time''),
     ([''Asia/Bangkok'', ''Asia/Jakarta''],
       zone (-420) ''none'' ''Indochina Time'' ''Indochina Time''),
     ([''Asia/Shanghai'', ''Asia/Hong_Kong''],
       zone (-480) ''none'' ''China Standard Time'' ''China Standard Time''),
     ([''Asia/Singapore''],
       zone (-480) ''none'' ''Singapore Standard Time'' ''Singapore Standard Time''),
     ([''Asia/Taipei''], zone (-480) ''none'' ''Taipei Standard Time'' ''Taipei Standard Time''),
     ([''Asia/Tokyo''], zone (-540) ''none'' ''Japan Standard Time'' ''Japan Standard Time''),
     ([''Asia/Seoul''], zone (-540) ''none'' ''Korean Standard Time'' ''Korean Standard Time''),
     ([''Australia/Sydney'', ''Australia/Melbourne''],
       zone (-600) ''none'' ''Australian Eastern Standard Time'' ''Australian Eastern Standard Time''),
     ([''Pacific/Auckland''],
       zone (-720) ''none'' ''New Zealand Standard Time'' ''New Zealand Standard Time''),
     ([''UTC'', ''Etc/UTC'', ''Etc/GMT''],
       zone 0 ''none'' ''Coordinated Universal Time'' ''Coordinated Universal Time'')]"

definition timezone_fields :: "string \<Rightarrow> timezone_fields option" where
  "timezone_fields iana = map_option snd (find (\<lambda>(names, _). List.member names iana) timezone_table)"

definition language_table :: "(string list \<times> string list) list" where
  "language_table =
    [([''US''], [''en-US'', ''en'']), ([''GB''], [''en-GB'', ''en'']),
     ([''CA''], [''en-CA'', ''fr-CA'', ''en'']), ([''AU''], [''en-AU'', ''en'']),
     ([''NZ''], [''en-NZ'', ''en'']), ([''IE''], [''en-IE'', ''en'']),
     ([''ZA''], [''en-ZA'', ''en'']), ([''DE'', ''AT''], [''de-DE'', ''de'', ''en'']),
     ([''CH''], [''de-CH'', ''de'', ''fr'', ''en'']), ([''FR''], [''fr-FR'', ''fr'', ''en'']),
     ([''ES''], [''es-ES'', ''es'', ''en'']), ([''IT''], [''it-IT'', ''it'', ''en'']),
     ([''NL''], [''nl-NL'', ''nl'', ''en'']), ([''BE''], [''nl-BE'', ''fr-BE'', ''en'']),
     ([''PT''], [''pt-PT'', ''pt'', ''en'']), ([''PL''], [''pl-PL'', ''pl'', ''en'']),
     ([''SE''], [''sv-SE'', ''sv'', ''en'']), ([''NO''], [''nb-NO'', ''no'', ''en'']),
     ([''DK''], [''da-DK'', ''da'', ''en'']), ([''FI''], [''fi-FI'', ''fi'', ''en'']),
     ([''CZ''], [''cs-CZ'', ''cs'', ''en'']), ([''HU''], [''hu-HU'', ''hu'', ''en'']),
     ([''RO''], [''ro-RO'', ''ro'', ''en'']), ([''GR''], [''el-GR'', ''el'', ''en'']),
     ([''TR''], [''tr-TR'', ''tr'', ''en'']), ([''RU''], [''ru-RU'', ''ru'']),
     ([''UA''], [''uk-UA'', ''uk'', ''ru'']), ([''BR''], [''pt-BR'', ''pt'', ''en'']),
     ([''MX''], [''es-MX'', ''es'', ''en'']), ([''JP''], [''ja-JP'', ''ja'']),
     ([''KR''], [''ko-KR'', ''ko'']), ([''CN''], [''zh-CN'', ''zh'']),
     ([''TW''], [''zh-TW'', ''zh'']), ([''HK''], [''zh-HK'', ''zh'', ''en'']),
     ([''SG''], [''en-SG'', ''en'', ''zh'']), ([''IN''], [''en-IN'', ''en'', ''hi'']),
     ([''AE''], [''ar-AE'', ''ar'', ''en'']), ([''PK''], [''en-PK'', ''ur'', ''en'']),
     ([''BD''], [''bn-BD'', ''bn'', ''en'']), ([''TH''], [''th-TH'', ''th'', ''en'']),
     ([''ID''], [''id-ID'', ''id'', ''en''])]"

definition country_languages :: "string \<Rightarrow> string list" where
  "country_languages country_code =
     (case find (\<lambda>(codes, _). List.member codes (to_ascii_uppercase country_code)) language_table of
        Some (_, tags) \<Rightarrow> tags
      | None \<Rightarrow> [''en-US'', ''en''])"

definition apply_geo :: "stealth_profile \<Rightarrow> string \<Rightarrow> string \<Rightarrow> stealth_profile" where
  "apply_geo profile timezone country_code =
     (let p = (case timezone_fields timezone of
                 Some tz \<Rightarrow> profile\<lparr>sp_timezone := timezone, sp_offset_minutes := tz_offset tz, sp_dst := tz_rule tz,
                              sp_name_std := tz_std tz, sp_name_dst := tz_dst tz, sp_pin_timezone := True\<rparr>
               | None \<Rightarrow> profile)
      in p\<lparr>sp_languages := country_languages country_code\<rparr>)"

section \<open>Values in scripts\<close>

text \<open>FNV-1a over the fields, each ended by a byte that occurs in no UTF-8 text.\<close>

fun eat_bytes :: "u32 \<Rightarrow> string \<Rightarrow> u32" where
  "eat_bytes h [] = h"
| "eat_bytes h (c # s) = eat_bytes ((h XOR of_char c) * 16777619) s"

definition eat_field :: "u32 \<Rightarrow> string \<Rightarrow> u32" where
  "eat_field h s = (eat_bytes h s XOR 0xFF) * 16777619"

definition profile_seed :: "stealth_profile \<Rightarrow> u32" where
  "profile_seed p =
     foldl eat_field 2166136261
       [sp_user_agent p, sp_platform p, sp_webgl_vendor p, sp_webgl_renderer p, sp_timezone p,
        nat_str (sp_screen_width p), nat_str (sp_screen_height p), nat_str (sp_hardware_concurrency p),
        nat_str (sp_device_memory p)] AND 0x7FFFFFFF"

definition escape_json_char :: "char \<Rightarrow> string" where
  "escape_json_char c =
     (if c = CHR 0x22 then [CHR 0x5C, CHR 0x22]
      else if c = CHR 0x5C then [CHR 0x5C, CHR 0x5C]
      else if c = CHR 0x0A then [CHR 0x5C, CHR ''n'']
      else if c = CHR 0x0D then [CHR 0x5C, CHR ''r'']
      else if c = CHR 0x09 then [CHR 0x5C, CHR ''t'']
      else [c])"

definition json_escape :: "string \<Rightarrow> string" where
  "json_escape s = concat (map escape_json_char s)"

definition js_quoted :: "string \<Rightarrow> string" where
  "js_quoted s = CHR 0x22 # json_escape s @ [CHR 0x22]"

definition json_string_array :: "string list \<Rightarrow> string" where
  "json_string_array items = CHR ''['' # join '','' (map js_quoted items) @ '']''"

section \<open>The parts of a profile agree\<close>

text \<open>Chrome's user agent on a platform.\<close>

fun agent_system :: "profile_os \<Rightarrow> string" where
  "agent_system OsLinux = ''X11; Linux x86_64''"
| "agent_system OsWindows = ''Windows NT 10.0; Win64; x64''"
| "agent_system OsMac = ''Macintosh; Intel Mac OS X 10_15_7''"

definition agent_prefix :: "profile_os \<Rightarrow> string" where
  "agent_prefix os = ''Mozilla/5.0 ('' @ agent_system os @ '') AppleWebKit/537.36 (KHTML, like Gecko) ''"

definition chrome_agent :: "profile_os \<Rightarrow> nat \<Rightarrow> string" where
  "chrome_agent os major = agent_prefix os @ chrome_token major @ '' Safari/537.36''"

definition coherent :: "profile_os \<Rightarrow> nat \<Rightarrow> stealth_profile \<Rightarrow> bool" where
  "coherent os major p \<longleftrightarrow>
     sp_user_agent p = chrome_agent os major \<and> sp_chrome_major p = major \<and>
     (sp_platform p, sp_ua_platform p, sp_screen_width p, sp_screen_height p, sp_avail_height p, sp_color_depth p)
       = os_fields os \<and>
     timezone_fields (sp_timezone p) = Some (zone (sp_offset_minutes p) (sp_dst p) (sp_name_std p) (sp_name_dst p)) \<and>
     sp_languages p \<noteq> []"

lemma nat_str_151: "nat_str 151 = ''151''"
  by code_simp

lemma split_agent:
  "split_once_str (chrome_token 151) (chrome_agent os 151) = Some (agent_prefix os, '' Safari/537.36'')"
  by (cases os; simp add: chrome_token_def chrome_agent_def agent_prefix_def nat_str_151; code_simp)

lemma split_agent_rest: "split_once_str (chrome_token 151) '' Safari/537.36'' = None"
  by code_simp

lemma agent_reversions: "replace_all (chrome_token 151) (chrome_token major) (chrome_agent os 151) = chrome_agent os major"
proof -
  have rest: "replace_all (chrome_token 151) (chrome_token major) '' Safari/537.36'' = '' Safari/537.36''"
    by (simp add: replace_all.simps [of _ _ "'' Safari/537.36''"] split_agent_rest)
  have "chrome_token 151 \<noteq> []"
    by (simp add: chrome_token_def)
  with rest show ?thesis
    by (simp only: replace_all.simps [of _ _ "chrome_agent os 151"] split_agent option.case prod.case if_False)
      (simp only: chrome_agent_def)
qed

lemma timezone_new_york:
  "timezone_fields ''America/New_York'' = Some (zone 300 ''us'' ''Eastern Standard Time'' ''Eastern Daylight Time'')"
  by code_simp

lemma stealth_agent: "sp_user_agent (stealth memory f) = chrome_agent (profile_os_of f) 151"
  by (cases f) (simp_all add: common_profile_def chrome_agent_def agent_prefix_def chrome_token_def nat_str_151)

lemma coherent_preset: "coherent (profile_os_of f) 151 (stealth memory f)"
  unfolding coherent_def stealth_agent
  by (cases f) (simp_all add: common_profile_def timezone_new_york)

lemma coherent_chrome_major: "coherent os 151 p \<Longrightarrow> coherent os major (with_chrome_major major p)"
  by (simp add: coherent_def with_chrome_major_def agent_reversions)

lemma language_tables: "list_all (\<lambda>(_, tags). tags \<noteq> []) language_table"
  by (simp add: language_table_def)

lemma country_languages_not_Nil [simp]: "country_languages c \<noteq> []"
  using language_tables
  by (auto simp: country_languages_def list_all_iff find_Some_iff set_conv_nth split: option.split)

lemma coherent_apply_geo: "coherent os major p \<Longrightarrow> coherent os major (apply_geo p tz cc)"
  by (auto simp: coherent_def apply_geo_def zone_def Let_def split: option.split)

text \<open>The zone is the exit's when it is known, and otherwise stays.\<close>

lemma apply_geo_zone:
  "sp_timezone (apply_geo p tz cc) = (if timezone_fields tz = None then sp_timezone p else tz)"
  by (auto simp: apply_geo_def Let_def split: option.split)

section \<open>Memory\<close>

lemma memory_steps_power: "\<exists>k. v = 2 ^ k \<Longrightarrow> \<exists>k. memory_steps n bytes v = 2 ^ k"
proof (induction n arbitrary: v)
  case (Suc n)
  then obtain k where "v = 2 ^ k"
    by blast
  then have "\<exists>k. v * 2 = 2 ^ k"
    by (metis power_Suc2)
  with Suc show ?case
    by auto
qed simp

section \<open>A value cannot leave its quotes\<close>

text \<open>
  What a JavaScript engine reads after an opening double quote: the value and what follows the
  closing one. A line end inside is an error, and so is a script that ends there.
\<close>

fun escape_value :: "char \<Rightarrow> char" where
  "escape_value c =
     (if c = CHR ''n'' then CHR 0x0A else if c = CHR ''r'' then CHR 0x0D else if c = CHR ''t'' then CHR 0x09 else c)"

fun read_literal :: "string \<Rightarrow> (string \<times> string) option" where
  "read_literal [] = None"
| "read_literal (c # s) =
     (if c = CHR 0x22 then Some ([], s)
      else if c = CHR 0x0A \<or> c = CHR 0x0D then None
      else if c = CHR 0x5C then
        (case s of
           [] \<Rightarrow> None
         | d # s \<Rightarrow> map_option (\<lambda>(v, r). (escape_value d # v, r)) (read_literal s))
      else map_option (\<lambda>(v, r). (c # v, r)) (read_literal s))"

lemma read_escape_char:
  "read_literal (escape_json_char c @ s) = map_option (\<lambda>(v, r). (c # v, r)) (read_literal s)"
  by (simp add: escape_json_char_def)

lemma read_json_escape: "read_literal (json_escape v @ CHR 0x22 # rest) = Some (v, rest)"
  by (induction v) (simp_all add: json_escape_def read_escape_char)

end
