(* ===== verification/Engine.thy ===== *)
theory Engine
  imports Profile Blocklist NetSend IdbWorld
begin

text \<open>
  The engine (\<open>crates/core/src/lib.rs\<close>, \<open>EngineInner\<close> and \<open>Engine\<close>): which client, cookie jar,
  identity, location and storage a new page gets, and the files of named sessions. A shared value
  (\<open>Arc\<close>) is an address: a client's number into the table of clients, a session jar's into the heap
  of jars. A rendered bootstrap script is represented by the profile it is rendered from. The
  functions are the code between two locks or two waits; \<open>EngineRun\<close> interleaves them.
\<close>

section \<open>Session names and files\<close>

definition is_alphanumeric :: "char \<Rightarrow> bool" where
  "is_alphanumeric c =
     (let n = of_char c :: nat in 48 \<le> n \<and> n \<le> 57 \<or> 65 \<le> n \<and> n \<le> 90 \<or> 97 \<le> n \<and> n \<le> 122)"

definition safe_char :: "char \<Rightarrow> bool" where
  "safe_char c \<longleftrightarrow> is_alphanumeric c \<or> c = CHR ''-'' \<or> c = CHR ''_'' \<or> c = CHR ''.''"

text \<open>A character of a UTF-8 text is its first byte and the continuation bytes after it.\<close>

definition continuation :: "char \<Rightarrow> bool" where
  "continuation c = (let n = of_char c :: nat in 128 \<le> n \<and> n < 192)"

definition sanitize_session_name :: "string \<Rightarrow> string option" where
  "sanitize_session_name name =
     (let mapped = map (\<lambda>c. if safe_char c then c else CHR ''_'') (filter (\<lambda>c. \<not> continuation c) name);
          trimmed = trim_end_matches CHR ''.'' (trim_start_matches CHR ''.'' mapped)
      in if trimmed = [] then None else Some trimmed)"

definition path_join :: "string \<Rightarrow> string \<Rightarrow> string" where
  "path_join store name =
     (if has_prefix name ''/'' then name
      else if store = [] \<or> has_suffix store ''/'' then store @ name
      else store @ ''/'' @ name)"


definition session_path :: "string option \<Rightarrow> string \<Rightarrow> string option" where
  "session_path session_store name = do {
     store \<leftarrow> session_store;
     safe \<leftarrow> sanitize_session_name name;
     Some (path_join store (safe @ ''.json''))
   }"

text \<open>\<open>Path::with_extension\<close> for a path that ends in a file name.\<close>

definition file_stem :: "string \<Rightarrow> string" where
  "file_stem file =
     (case rsplit_once CHR ''.'' file of Some (stem, _) \<Rightarrow> if stem = [] then file else stem | None \<Rightarrow> file)"

definition with_extension :: "string \<Rightarrow> string \<Rightarrow> string" where
  "with_extension ext path =
     (case rsplit_once CHR ''/'' path of
        Some (dir, file) \<Rightarrow> dir @ ''/'' @ file_stem file @ ''.'' @ ext
      | None \<Rightarrow> file_stem path @ ''.'' @ ext)"

definition session_hints_path :: "string option \<Rightarrow> string \<Rightarrow> string option" where
  "session_hints_path session_store name = map_option (with_extension ''hints.json'') (session_path session_store name)"

text \<open>The file system, as far as sessions use it; a bad path refuses every access.\<close>

record disk =
  dk_files :: "string \<Rightarrow> bytes option"
  dk_bad :: "string \<Rightarrow> bool"

definition open_file :: "disk \<Rightarrow> string \<Rightarrow> io_error + bytes" where
  "open_file d path =
     (if dk_bad d path then Inl (OtherError [])
      else case dk_files d path of None \<Rightarrow> Inl NotFound | Some bs \<Rightarrow> Inr bs)"

definition write_file :: "string \<Rightarrow> bytes \<Rightarrow> disk \<Rightarrow> io_error + disk" where
  "write_file path bs d =
     (if dk_bad d path then Inl (OtherError []) else Inr (d\<lparr>dk_files := (dk_files d)(path \<mapsto> bs)\<rparr>))"

definition rename_file :: "string \<Rightarrow> string \<Rightarrow> disk \<Rightarrow> io_error + disk" where
  "rename_file a b d =
     (if dk_bad d b then Inl (OtherError [])
      else case dk_files d a of
             None \<Rightarrow> Inl NotFound
           | Some bs \<Rightarrow> Inr (d\<lparr>dk_files := (dk_files d)(a := None, b \<mapsto> bs)\<rparr>))"

section \<open>Identities\<close>

fun fnv64 :: "u64 \<Rightarrow> string \<Rightarrow> u64" where
  "fnv64 hash [] = hash"
| "fnv64 hash (c # s) = fnv64 ((hash XOR of_char c) * 0x100000001B3) s"

definition identity_seed :: "string \<Rightarrow> u64" where
  "identity_seed s = fnv64 0xCBF29CE484222325 s"

fun debug_scheme :: "proxy_scheme \<Rightarrow> string" where
  "debug_scheme Http = ''Http''"
| "debug_scheme Socks5 = ''Socks5''"

definition proxy_key :: "proxy_config \<Rightarrow> string" where
  "proxy_key p =
     ''proxy:'' @ debug_scheme (px_scheme p) @ ''|'' @ px_host p @ ''|'' @ nat_str (px_port p) @ ''|'' @
     (case px_username p of Some u \<Rightarrow> u | None \<Rightarrow> [])"

definition optional_key :: "proxy_config option \<Rightarrow> string" where
  "optional_key proxy = (case proxy of Some p \<Rightarrow> proxy_key p | None \<Rightarrow> [])"

definition hint_values_for :: "stealth_profile \<Rightarrow> hint_values" where
  "hint_values_for p =
     default_hints\<lparr>hv_full_version := chrome_full, hv_device_memory := sp_device_memory p,
       hv_viewport_width := sp_screen_width p, hv_viewport_height := sp_avail_height p - 111\<rparr>"

fun preset_for_os :: "emulation_os \<Rightarrow> fingerprint_profile" where
  "preset_for_os Windows = ChromeWindows"
| "preset_for_os Mac = ChromeMac"
| "preset_for_os Linux = ChromeLinux"

definition emulation_os_for :: "stealth_profile \<Rightarrow> emulation_os" where
  "emulation_os_for p =
     (if sp_ua_platform p = ''Windows'' then Windows else if sp_ua_platform p = ''macOS'' then Mac else Linux)"

section \<open>Settings and state\<close>

datatype engine_error =
    PoolError string
  | NetFailed net_error
  | JsError string
  | NavNotImplemented
  | SessionError string io_error
  | NoSuchFrame nat

record engine_config =
  eg_client :: client_config
  eg_stealth :: stealth_profile
  eg_real_network :: bool
  eg_session_store :: "string option"
  eg_rotate :: bool
  eg_geoip :: bool
  eg_chrome_major :: nat

text \<open>
  A client: the stub, or a real one with its number, its settings and the session jar it was built
  on, if any; otherwise it has a jar of its own.
\<close>

datatype engine_client = Stub | Real nat client_config "nat option"

text \<open>What the libraries around the engine do.\<close>

record 'j host =
  ho_profile :: "nat \<Rightarrow> emulation_os \<Rightarrow> (string \<times> string) list \<times> string option"
  ho_proxy_error :: "string \<Rightarrow> string option"
  ho_build_error :: "client_settings \<Rightarrow> string option"
  ho_decode_jar :: "bytes \<Rightarrow> string + 'j"
  ho_encode_jar :: "'j \<Rightarrow> string + bytes"
  ho_fresh_jar :: "'j"
  ho_add_cookie :: "string \<Rightarrow> string \<Rightarrow> 'j \<Rightarrow> 'j"
  ho_cookies :: "'j \<Rightarrow> stored_cookie list"
  ho_decode_hints :: "bytes \<Rightarrow> (string \<times> string list) list option"
  ho_encode_hints :: "(string \<times> string list) list \<Rightarrow> bytes option"
  ho_memory :: nat

record engine_setup =
  en_client :: engine_client
  en_client_config :: client_config
  en_real_network :: bool
  en_session_store :: "string option"
  en_stealth :: stealth_profile
  en_rotate :: bool
  en_geoip :: bool
  en_chrome_major :: nat

record 'j engine =
  en_pool :: "string \<Rightarrow> engine_client option"
  en_sessions :: "string \<Rightarrow> nat option"
  en_jars :: "'j list"
  en_hint_stores :: "hint_store list"
  en_boot_cache :: "string \<Rightarrow> stealth_profile option"
  en_geo_cache :: "string \<Rightarrow> geo_info option option"
  en_disk :: disk
  en_world :: world

section \<open>Clients\<close>

text \<open>A new client, with an empty store of hints.\<close>

definition build_client ::
    "'j host \<Rightarrow> client_config \<Rightarrow> nat option \<Rightarrow> 'j engine \<Rightarrow> (engine_error + engine_client) \<times> 'j engine" where
  "build_client h cfg jar st =
     (case with_session (ho_profile h) (ho_proxy_error h) (ho_build_error h) cfg (jar \<noteq> None) of
        Inl e \<Rightarrow> (Inl (NetFailed e), st)
      | Inr _ \<Rightarrow>
          (Inr (Real (length (en_hint_stores st)) cfg jar),
           st\<lparr>en_hint_stores := en_hint_stores st @ [[]]\<rparr>))"

definition client_config_for ::
    "'j host \<Rightarrow> engine_setup \<Rightarrow> proxy_config option \<Rightarrow> emulation_os option \<Rightarrow> client_config" where
  "client_config_for h s proxy os =
     (let cfg = (en_client_config s)\<lparr>cc_proxy := proxy\<rparr>
      in case os of
           None \<Rightarrow> cfg
         | Some os \<Rightarrow>
             cfg\<lparr>cc_os := os, cc_hints := hint_values_for (stealth (ho_memory h) (preset_for_os os))\<rparr>)"

definition pool_entry :: "string \<Rightarrow> engine_client \<Rightarrow> 'j engine \<Rightarrow> engine_client \<times> 'j engine" where
  "pool_entry key c st =
     (case en_pool st key of
        Some c' \<Rightarrow> (c', st)
      | None \<Rightarrow> (c, st\<lparr>en_pool := (en_pool st)(key \<mapsto> c)\<rparr>))"

text \<open>The client found without building one, and the whole of \<open>client_for\<close> when nobody interferes.\<close>

definition known_client :: "engine_setup \<Rightarrow> string \<Rightarrow> 'j engine \<Rightarrow> engine_client option" where
  "known_client s key st = (if key = [] \<or> \<not> en_real_network s then Some (en_client s) else en_pool st key)"

definition client_for ::
    "'j host \<Rightarrow> engine_setup \<Rightarrow> string \<Rightarrow> proxy_config option \<Rightarrow> emulation_os option \<Rightarrow> 'j engine \<Rightarrow>
     (engine_error + engine_client) \<times> 'j engine" where
  "client_for h s key proxy os st =
     (case known_client s key st of
        Some c \<Rightarrow> (Inr c, st)
      | None \<Rightarrow>
          (case build_client h (client_config_for h s proxy os) None st of
             (Inl e, st) \<Rightarrow> (Inl e, st)
           | (Inr c, st) \<Rightarrow> (let (c, st) = pool_entry key c st in (Inr c, st))))"

definition rotated_profile :: "engine_setup \<Rightarrow> string \<Rightarrow> fingerprint_profile option" where
  "rotated_profile s identity =
     (if \<not> en_rotate s \<or> identity = [] then None else Some (from_seed (identity_seed identity)))"

definition emulation_os_of :: "'j host \<Rightarrow> fingerprint_profile option \<Rightarrow> emulation_os option" where
  "emulation_os_of h profile = map_option (\<lambda>p. emulation_os_for (stealth (ho_memory h) p)) profile"

definition stealth_for_identity :: "'j host \<Rightarrow> engine_setup \<Rightarrow> string \<Rightarrow> stealth_profile" where
  "stealth_for_identity h s identity =
     (case rotated_profile s identity of Some p \<Rightarrow> stealth (ho_memory h) p | None \<Rightarrow> en_stealth s)"

section \<open>Bootstraps and locations\<close>

fun debug_profile :: "fingerprint_profile \<Rightarrow> string" where
  "debug_profile ChromeLinux = ''ChromeLinux''"
| "debug_profile ChromeWindows = ''ChromeWindows''"
| "debug_profile ChromeMac = ''ChromeMac''"

definition bootstrap_key :: "fingerprint_profile option \<Rightarrow> geo_info option \<Rightarrow> string" where
  "bootstrap_key profile geo =
     (case profile of Some p \<Rightarrow> debug_profile p | None \<Rightarrow> ''default'') @ ''|'' @
     (case geo of Some g \<Rightarrow> gi_timezone g @ ''/'' @ gi_country_code g | None \<Rightarrow> ''-'')"

definition bootstrap_profile ::
    "'j host \<Rightarrow> engine_setup \<Rightarrow> fingerprint_profile option \<Rightarrow> geo_info option \<Rightarrow> stealth_profile" where
  "bootstrap_profile h s profile geo =
     (let base = (case profile of
                    Some p \<Rightarrow> with_chrome_major (en_chrome_major s) (stealth (ho_memory h) p)
                  | None \<Rightarrow> en_stealth s)
      in case geo of Some g \<Rightarrow> apply_geo base (gi_timezone g) (gi_country_code g) | None \<Rightarrow> base)"

definition context_bootstrap ::
    "'j host \<Rightarrow> engine_setup \<Rightarrow> fingerprint_profile option \<Rightarrow> geo_info option \<Rightarrow> 'j engine \<Rightarrow>
     stealth_profile \<times> 'j engine" where
  "context_bootstrap h s profile geo st =
     (if profile = None \<and> geo = None then (en_stealth s, st)
      else
        let key = bootstrap_key profile geo in
        case en_boot_cache st key of
          Some b \<Rightarrow> (b, st)
        | None \<Rightarrow>
            let b = bootstrap_profile h s profile geo
            in (b, st\<lparr>en_boot_cache := (en_boot_cache st)(key \<mapsto> b)\<rparr>))"

definition geo_lookup_url :: string where
  "geo_lookup_url = ''http://ip-api.com/json/?fields=status,timezone,countryCode''"

definition bare_request :: "(string \<times> string) list \<Rightarrow> string \<Rightarrow> request_kind \<Rightarrow> bool \<Rightarrow> request" where
  "bare_request headers url kind activated =
     \<lparr>rq_method = ''GET'', rq_url = url, rq_headers = headers, rq_body = None, rq_kind = kind,
      rq_user_activated = activated, rq_third_party = False, rq_context = None, rq_doc_hints = [],
      rq_urgency = None, rq_omit_credentials = False, rq_initiator = None, rq_referrer_policy = None,
      rq_credentials_include = None\<rparr>"

definition geo_request :: "engine_setup \<Rightarrow> request" where
  "geo_request s = bare_request [(''User-Agent'', sp_user_agent (en_stealth s))] geo_lookup_url Xhr False"

definition geo_answer_of :: "(bytes \<Rightarrow> geo_answer option) \<Rightarrow> net_error + response \<Rightarrow> geo_info option" where
  "geo_answer_of parse_json result =
     (case result of Inr resp \<Rightarrow> parse_geo parse_json (rs_body resp) | Inl _ \<Rightarrow> None)"

text \<open>\<open>Some r\<close>: the answer \<open>r\<close> is known without asking.\<close>

definition geo_known :: "engine_setup \<Rightarrow> string \<Rightarrow> 'j engine \<Rightarrow> geo_info option option" where
  "geo_known s key st =
     (if \<not> en_geoip s \<or> \<not> en_real_network s \<or> key = [] then Some None else en_geo_cache st key)"

definition geo_insert :: "string \<Rightarrow> geo_info option \<Rightarrow> 'j engine \<Rightarrow> geo_info option \<times> 'j engine" where
  "geo_insert key result st =
     (case en_geo_cache st key of
        Some r \<Rightarrow> (r, st)
      | None \<Rightarrow> (result, st\<lparr>en_geo_cache := (en_geo_cache st)(key \<mapsto> result)\<rparr>))"

text \<open>\<open>ask\<close> is what the location service answers through a client.\<close>

definition geo_for ::
    "(engine_client \<Rightarrow> geo_info option) \<Rightarrow> engine_setup \<Rightarrow> string \<Rightarrow> engine_client \<Rightarrow> 'j engine \<Rightarrow>
     geo_info option \<times> 'j engine" where
  "geo_for ask s key c st =
     (case geo_known s key st of Some r \<Rightarrow> (r, st) | None \<Rightarrow> geo_insert key (ask c) st)"

section \<open>Named sessions\<close>

definition load_jar :: "'j host \<Rightarrow> engine_setup \<Rightarrow> string \<Rightarrow> 'j engine \<Rightarrow> engine_error + 'j" where
  "load_jar h s name st =
     (case session_path (en_session_store s) name of
        Some path \<Rightarrow>
          map_sum (SessionError name) id (load_file (ho_decode_jar h) (ho_fresh_jar h) (open_file (en_disk st)) path)
      | None \<Rightarrow> Inr (ho_fresh_jar h))"

text \<open>The jar just loaded gets an address only when it is the first of its name.\<close>

definition session_entry :: "string \<Rightarrow> 'j \<Rightarrow> 'j engine \<Rightarrow> nat \<times> 'j engine" where
  "session_entry name jar st =
     (case en_sessions st name of
        Some j \<Rightarrow> (j, st)
      | None \<Rightarrow>
          let j = length (en_jars st)
          in (j, st\<lparr>en_jars := en_jars st @ [jar], en_sessions := (en_sessions st)(name \<mapsto> j)\<rparr>))"

definition session_jar :: "'j host \<Rightarrow> engine_setup \<Rightarrow> string \<Rightarrow> 'j engine \<Rightarrow> (engine_error + nat) \<times> 'j engine" where
  "session_jar h s name st =
     (case en_sessions st name of
        Some j \<Rightarrow> (Inr j, st)
      | None \<Rightarrow>
          (case load_jar h s name st of
             Inl e \<Rightarrow> (Inl e, st)
           | Inr jar \<Rightarrow> (let (j, st) = session_entry name jar st in (Inr j, st))))"

definition session_key :: "string \<Rightarrow> string" where
  "session_key name = ''session:'' @ name"

definition known_session_client :: "engine_setup \<Rightarrow> string \<Rightarrow> 'j engine \<Rightarrow> engine_client option" where
  "known_session_client s name st =
     (if \<not> en_real_network s then Some (en_client s) else en_pool st (session_key name))"

definition saved_hints :: "'j host \<Rightarrow> engine_setup \<Rightarrow> string \<Rightarrow> 'j engine \<Rightarrow> (string \<times> string list) list option" where
  "saved_hints h s name st = do {
     path \<leftarrow> session_hints_path (en_session_store s) name;
     bs \<leftarrow> (case open_file (en_disk st) path of Inr bs \<Rightarrow> Some bs | Inl _ \<Rightarrow> None);
     ho_decode_hints h bs
   }"

definition restore_hints :: "(string \<times> string list) list option \<Rightarrow> engine_client \<Rightarrow> 'j engine \<Rightarrow> 'j engine" where
  "restore_hints saved c st =
     (case (saved, c) of
        (Some hints, Real i _ _) \<Rightarrow>
          st\<lparr>en_hint_stores := (en_hint_stores st)[i := hs_restore hints (en_hint_stores st ! i)]\<rparr>
      | _ \<Rightarrow> st)"

definition build_session_client ::
    "'j host \<Rightarrow> engine_setup \<Rightarrow> string \<Rightarrow> nat \<Rightarrow> proxy_config option \<Rightarrow> emulation_os option \<Rightarrow> 'j engine \<Rightarrow>
     (engine_error + engine_client) \<times> 'j engine" where
  "build_session_client h s name j proxy os st =
     (case build_client h (client_config_for h s proxy os) (Some j) st of
        (Inl e, st) \<Rightarrow> (Inl e, st)
      | (Inr c, st) \<Rightarrow> (Inr c, restore_hints (saved_hints h s name st) c st))"

definition client_for_session ::
    "'j host \<Rightarrow> engine_setup \<Rightarrow> string \<Rightarrow> nat \<Rightarrow> proxy_config option \<Rightarrow> emulation_os option \<Rightarrow> 'j engine \<Rightarrow>
     (engine_error + engine_client) \<times> 'j engine" where
  "client_for_session h s name j proxy os st =
     (case known_session_client s name st of
        Some c \<Rightarrow> (Inr c, st)
      | None \<Rightarrow>
          (case build_session_client h s name j proxy os st of
             (Inl e, st) \<Rightarrow> (Inl e, st)
           | (Inr c, st) \<Rightarrow> (let (c, st) = pool_entry (session_key name) c st in (Inr c, st))))"

text \<open>Saving; a failure is logged and otherwise ignored.\<close>

definition save_jar :: "'j host \<Rightarrow> 'j \<Rightarrow> string \<Rightarrow> disk \<Rightarrow> disk" where
  "save_jar h jar path d =
     (case save_file (ho_encode_jar h) (with_extension ''tmp'') write_file rename_file jar path d of
        Inr d' \<Rightarrow> d'
      | Inl _ \<Rightarrow>
          \<comment> \<open>the temporary file may have been written before the renaming failed\<close>
          (case ho_encode_jar h jar of
             Inr buf \<Rightarrow> (case write_file (with_extension ''tmp'' path) buf d of Inr d' \<Rightarrow> d' | Inl _ \<Rightarrow> d)
           | Inl _ \<Rightarrow> d))"

definition client_hints_of :: "engine_client \<Rightarrow> 'j engine \<Rightarrow> hint_store" where
  "client_hints_of c st = (case c of Real i _ _ \<Rightarrow> en_hint_stores st ! i | Stub \<Rightarrow> [])"

definition save_hints :: "'j host \<Rightarrow> hint_store \<Rightarrow> string \<Rightarrow> disk \<Rightarrow> disk" where
  "save_hints h hints path d =
     (case ho_encode_hints h (hs_snapshot hints) of
        Some bs \<Rightarrow> (case write_file path bs d of Inr d' \<Rightarrow> d' | Inl _ \<Rightarrow> d)
      | None \<Rightarrow> d)"

definition save_session :: "'j host \<Rightarrow> engine_setup \<Rightarrow> string \<Rightarrow> 'j engine \<Rightarrow> 'j engine" where
  "save_session h s name st =
     (case session_path (en_session_store s) name of
        None \<Rightarrow> st
      | Some path \<Rightarrow>
          (case en_sessions st name of
             None \<Rightarrow> st
           | Some j \<Rightarrow>
               let st = st\<lparr>en_disk := save_jar h (en_jars st ! j) path (en_disk st)\<rparr> in
               (case (en_pool st (session_key name), session_hints_path (en_session_store s) name) of
                  (Some c, Some hp) \<Rightarrow> st\<lparr>en_disk := save_hints h (client_hints_of c st) hp (en_disk st)\<rparr>
                | _ \<Rightarrow> st)))"

definition import_session_cookie ::
    "'j host \<Rightarrow> engine_setup \<Rightarrow> string \<Rightarrow> string \<Rightarrow> string \<Rightarrow> 'j engine \<Rightarrow> (engine_error + unit) \<times> 'j engine" where
  "import_session_cookie h s name set_cookie orig st =
     (case session_jar h s name st of
        (Inl e, st) \<Rightarrow> (Inl e, st)
      | (Inr j, st) \<Rightarrow>
          (Inr (), st\<lparr>en_jars := (en_jars st)[j := ho_add_cookie h set_cookie orig (en_jars st ! j)]\<rparr>))"

definition session_cookies :: "'j host \<Rightarrow> string \<Rightarrow> 'j engine \<Rightarrow> cookie_record list" where
  "session_cookies h name st =
     (case en_sessions st name of Some j \<Rightarrow> jar_snapshot (ho_cookies h (en_jars st ! j)) | None \<Rightarrow> [])"

section \<open>Pages\<close>

text \<open>
  What a page is given. \<open>placed\<close> is the answer of the isolate pool to the request for a context:
  its index, or an error; nothing of the state below changes then.
\<close>

record page =
  pg_client :: engine_client
  pg_session :: "string option"
  pg_profile :: stealth_profile
  pg_storage :: u64
  pg_index :: nat

definition build_context ::
    "engine_error + nat \<Rightarrow> engine_client \<Rightarrow> string option \<Rightarrow> stealth_profile \<Rightarrow> u64 \<Rightarrow> engine_error + page" where
  "build_context placed c session bootstrap storage =
     map_sum id (\<lambda>i. \<lparr>pg_client = c, pg_session = session, pg_profile = bootstrap, pg_storage = storage,
                     pg_index = i\<rparr>) placed"

definition bind_partition :: "string \<Rightarrow> 'j engine \<Rightarrow> u64 \<times> 'j engine" where
  "bind_partition name st = (let (n, w) = partition_for name (en_world st) in (n, st\<lparr>en_world := w\<rparr>))"

definition finish_page ::
    "'j host \<Rightarrow> engine_setup \<Rightarrow> engine_error + nat \<Rightarrow> fingerprint_profile option \<Rightarrow> geo_info option \<Rightarrow> engine_client \<Rightarrow>
     string option \<Rightarrow> string \<Rightarrow> 'j engine \<Rightarrow> (engine_error + page) \<times> 'j engine" where
  "finish_page h s placed profile geo c session storage st =
     (let (bootstrap, st) = context_bootstrap h s profile geo st;
          (n, st) = bind_partition storage st
      in (build_context placed c session bootstrap n, st))"

definition new_context_with_identity ::
    "'j host \<Rightarrow> engine_setup \<Rightarrow> (engine_client \<Rightarrow> geo_info option) \<Rightarrow> engine_error + nat \<Rightarrow> string \<Rightarrow> proxy_config option \<Rightarrow>
     'j engine \<Rightarrow> (engine_error + page) \<times> 'j engine" where
  "new_context_with_identity h s ask placed identity proxy st =
     (let profile = rotated_profile s identity in
      case client_for h s identity proxy (emulation_os_of h profile) st of
        (Inl e, st) \<Rightarrow> (Inl e, st)
      | (Inr c, st) \<Rightarrow>
          let (geo, st) = geo_for ask s (optional_key proxy) c st
          in finish_page h s placed profile geo c None (''id:'' @ identity) st)"

definition new_context_with_proxy ::
    "'j host \<Rightarrow> engine_setup \<Rightarrow> (engine_client \<Rightarrow> geo_info option) \<Rightarrow> engine_error + nat \<Rightarrow> proxy_config option \<Rightarrow>
     'j engine \<Rightarrow> (engine_error + page) \<times> 'j engine" where
  "new_context_with_proxy h s ask placed proxy st =
     new_context_with_identity h s ask placed (optional_key proxy) proxy st"

definition new_context_with_session ::
    "'j host \<Rightarrow> engine_setup \<Rightarrow> (engine_client \<Rightarrow> geo_info option) \<Rightarrow> engine_error + nat \<Rightarrow> string \<Rightarrow> proxy_config option \<Rightarrow>
     'j engine \<Rightarrow> (engine_error + page) \<times> 'j engine" where
  "new_context_with_session h s ask placed name proxy st =
     (let profile = rotated_profile s name in
      case session_jar h s name st of
        (Inl e, st) \<Rightarrow> (Inl e, st)
      | (Inr j, st) \<Rightarrow>
          (case client_for_session h s name j proxy (emulation_os_of h profile) st of
             (Inl e, st) \<Rightarrow> (Inl e, st)
           | (Inr c, st) \<Rightarrow>
               let (geo, st) = geo_for ask s (optional_key proxy) c st
               in finish_page h s placed profile geo c (Some name) (''s:'' @ name) st))"

definition release_identity :: "string \<Rightarrow> 'j engine \<Rightarrow> 'j engine" where
  "release_identity identity st =
     (if identity = [] then st
      else st\<lparr>en_pool := (en_pool st)(identity := None),
              en_world := drop_partition (''id:'' @ identity) (en_world st)\<rparr>)"

text \<open>Dropping a page saves its session.\<close>

definition close_page :: "'j host \<Rightarrow> engine_setup \<Rightarrow> page \<Rightarrow> 'j engine \<Rightarrow> 'j engine" where
  "close_page h s p st = (case pg_session p of Some name \<Rightarrow> save_session h s name st | None \<Rightarrow> st)"

definition fetch_request :: "engine_setup \<Rightarrow> string \<Rightarrow> request" where
  "fetch_request s url =
     bare_request [(''Accept-Language'', join '','' (sp_languages (en_stealth s))),
       (''User-Agent'', sp_user_agent (en_stealth s))] url Document True"

definition fetch_result :: "net_error + 'r \<Rightarrow> engine_error + 'r" where
  "fetch_result r =
     (case r of
        Inr resp \<Rightarrow> Inr resp
      | Inl NetUnimplemented \<Rightarrow> Inl NavNotImplemented
      | Inl e \<Rightarrow> Inl (NetFailed e))"

section \<open>Starting\<close>

definition coherent_config :: "engine_config \<Rightarrow> engine_config" where
  "coherent_config config =
     (let major = emulated_chrome_major (eg_chrome_major config);
          stealth = with_chrome_major major (eg_stealth config)
      in config\<lparr>eg_chrome_major := major, eg_stealth := stealth,
           eg_client := (eg_client config)\<lparr>cc_chrome_major := major, cc_os := emulation_os_for stealth,
             cc_hints := hint_values_for stealth\<rparr>\<rparr>)"

definition empty_engine :: "disk \<Rightarrow> 'j engine" where
  "empty_engine d = \<lparr>en_pool = (\<lambda>_. None), en_sessions = (\<lambda>_. None), en_jars = [], en_hint_stores = [],
     en_boot_cache = (\<lambda>_. None), en_geo_cache = (\<lambda>_. None), en_disk = d, en_world = initial_world\<rparr>"

text \<open>\<open>store_error\<close> is the failure to create the store's directory.\<close>

definition engine_new ::
    "'j host \<Rightarrow> (string \<Rightarrow> io_error option) \<Rightarrow> engine_config \<Rightarrow> disk \<Rightarrow> engine_error + engine_setup \<times> 'j engine" where
  "engine_new h store_error config d =
     (let config = coherent_config config in
      case Option.bind (eg_session_store config) (\<lambda>dir. map_option (SessionError dir) (store_error dir)) of
        Some e \<Rightarrow> Inl e
      | None \<Rightarrow>
          (case (if eg_real_network config then build_client h (eg_client config) None (empty_engine d)
                 else (Inr Stub, empty_engine d)) of
             (Inl e, _) \<Rightarrow> Inl e
           | (Inr c, st) \<Rightarrow>
               Inr (\<lparr>en_client = c, en_client_config = eg_client config, en_real_network = eg_real_network config,
                     en_session_store = eg_session_store config, en_stealth = eg_stealth config,
                     en_rotate = eg_rotate config, en_geoip = eg_geoip config,
                     en_chrome_major = eg_chrome_major config\<rparr>, st)))"

section \<open>Session files\<close>

lemma safe_char_values: "safe_char c \<Longrightarrow> c \<noteq> CHR ''/''"
  by (auto simp: safe_char_def is_alphanumeric_def)

lemma dropWhile_hd: "dropWhile P xs = y # ys \<Longrightarrow> \<not> P y"
  by (metis hd_dropWhile list.distinct(1) list.sel(1))

lemma trimmed_hd:
  assumes "trim_end_matches c (trim_start_matches c s) = y # ys"
  shows "y \<noteq> c"
proof -
  have "\<exists>zs. trim_start_matches c s = trim_end_matches c (trim_start_matches c s) @ zs"
    by (metis trim_end_matches_def dropWhile_eq_drop rev_append rev_rev_ident takeWhile_dropWhile_id)
  with assms have "\<exists>zs. dropWhile (\<lambda>x. x = c) s = y # zs"
    by (auto simp: trim_start_matches_def)
  then show ?thesis
    using dropWhile_hd by fastforce
qed

lemma sanitized:
  assumes "sanitize_session_name name = Some safe"
  shows "safe \<noteq> []" and "list_all safe_char safe" and "hd safe \<noteq> CHR ''.''"
proof -
  let ?mapped = "map (\<lambda>c. if safe_char c then c else CHR ''_'') (filter (\<lambda>c. \<not> continuation c) name)"
  have safe: "safe = trim_end_matches CHR ''.'' (trim_start_matches CHR ''.'' ?mapped)" "safe \<noteq> []"
    using assms by (auto simp: sanitize_session_name_def Let_def split: if_splits)
  show "safe \<noteq> []"
    by fact
  have "set safe \<subseteq> set ?mapped"
    unfolding safe(1) trim_end_matches_def trim_start_matches_def
    by (auto simp del: set_map set_filter dest!: set_dropWhileD)
  moreover have "safe_char (CHR ''_'')"
    by (simp add: safe_char_def)
  ultimately show "list_all safe_char safe"
    by (auto simp: list_all_iff split: if_splits)
  show "hd safe \<noteq> CHR ''.''"
    using safe trimmed_hd by (metis list.collapse)
qed

lemma sanitized_no_slash: "sanitize_session_name name = Some safe \<Longrightarrow> CHR ''/'' \<notin> set safe"
  using sanitized(2) safe_char_values by (fastforce simp: list_all_iff)

text \<open>The directory a plain name lands in.\<close>

definition store_dir :: "string \<Rightarrow> string" where
  "store_dir store = (if store = [] \<or> has_suffix store ''/'' then store else store @ ''/'')"

lemma path_join_plain:
  assumes "CHR ''/'' \<notin> set file" and "file \<noteq> []"
  shows "path_join store file = store_dir store @ file"
proof -
  have "\<not> has_prefix file ''/''"
    using assms by (auto simp: has_prefix_iff)
  then show ?thesis
    by (simp add: path_join_def store_dir_def)
qed


lemma store_dir_last: "store_dir store = [] \<or> last (store_dir store) = CHR ''/''"
  by (auto simp: store_dir_def has_suffix_iff)



text \<open>The files of a session are named alike: the jar, its temporary copy and the hints.\<close>

lemma rsplit_once_append: "c \<notin> set b \<Longrightarrow> rsplit_once c (a @ c # b) = Some (a, b)"
  by (simp add: rsplit_once_Some)

lemma file_stem_json: "safe \<noteq> [] \<Longrightarrow> file_stem (safe @ ''.json'') = safe"
  using rsplit_once_append [of "CHR ''.''" "''json''" safe] by (simp add: file_stem_def)

lemma with_extension_file:
  assumes "CHR ''/'' \<notin> set safe" and "safe \<noteq> []" and "dir = [] \<or> last dir = CHR ''/''"
  shows "with_extension ext (dir @ safe @ ''.json'') = dir @ safe @ ''.'' @ ext"
proof (cases dir rule: rev_cases)
  case Nil
  have "rsplit_once CHR ''/'' (safe @ ''.json'') = None"
    using assms(1) by (simp add: rsplit_once_None)
  with Nil show ?thesis
    using assms(2) by (simp add: with_extension_def file_stem_json)
next
  case (snoc d x)
  with assms(3) have "x = CHR ''/''"
    by simp
  with snoc have "rsplit_once CHR ''/'' (dir @ safe @ ''.json'') = Some (d, safe @ ''.json'')"
    using rsplit_once_append [of "CHR ''/''" "safe @ ''.json''" d] assms(1) by simp
  then show ?thesis
    using snoc \<open>x = CHR ''/''\<close> assms(2) by (simp add: with_extension_def file_stem_json)
qed

lemma session_paths:
  assumes "session_path store name = Some path"
  obtains dir safe where "path = dir @ safe @ ''.json''" and "with_extension ''tmp'' path = dir @ safe @ ''.tmp''"
    and "session_hints_path store name = Some (dir @ safe @ ''.hints.json'')"
proof -
  obtain st safe where safe: "sanitize_session_name name = Some safe" "path = path_join st (safe @ ''.json'')"
    using assms by (auto simp: session_path_def split: Option.bind_splits)
  have dir: "path = store_dir st @ safe @ ''.json''"
    using sanitized_no_slash [OF safe(1)] by (simp add: safe(2) path_join_plain)
  have ext: "with_extension ext path = store_dir st @ safe @ ''.'' @ ext" for ext
    using with_extension_file [OF sanitized_no_slash [OF safe(1)] sanitized(1) [OF safe(1)] store_dir_last]
    by (simp add: dir)
  show thesis
    using that [of "store_dir st" safe] dir ext [of "''tmp''"] ext [of "''hints.json''"] assms
    by (simp add: session_hints_path_def)
qed

end
