(* ===== verification/Sessions.thy ===== *)
theory Sessions
  imports Engine
begin

text \<open>
  What saving and resuming a named session promises (\<open>crates/core/src/lib.rs\<close>), and where names
  and proxies that differ are taken for one: two session names with the same file, two proxies with
  the same key, and a location that is asked through another proxy's client.
\<close>

section \<open>Saving and resuming\<close>

text \<open>Saving a jar, and then hints under another name, when the disk accepts all of it.\<close>

lemma save_jar_file:
  assumes "ho_encode_jar h jar = Inr buf" and "\<not> dk_bad d (with_extension ''tmp'' path)" and "\<not> dk_bad d path"
  shows "dk_files (save_jar h jar path d) path = Some buf" and "dk_bad (save_jar h jar path d) = dk_bad d"
  using assms by (simp_all add: save_jar_def save_file_def write_file_def rename_file_def)

lemma save_hints_other:
  "path \<noteq> hp \<Longrightarrow> dk_files (save_hints h hints hp d) path = dk_files d path"
  "dk_bad (save_hints h hints hp d) = dk_bad d"
  by (auto simp: save_hints_def write_file_def split: option.split)


lemma save_session_sessions [simp]: "en_sessions (save_session h s name st) = en_sessions st"
  "en_jars (save_session h s name st) = en_jars st" "en_pool (save_session h s name st) = en_pool st"
  "en_hint_stores (save_session h s name st) = en_hint_stores st"
  by (auto simp: save_session_def Let_def split: option.split)

lemma hints_path_differs:
  assumes "session_path store name = Some path" and "session_hints_path store name = Some hp"
  shows "path \<noteq> hp"
  using session_paths [OF assms(1)] assms(2) by force

lemma save_session_jar:
  assumes path: "session_path (en_session_store s) name = Some path"
    and jar: "en_sessions st name = Some j"
    and enc: "ho_encode_jar h (en_jars st ! j) = Inr buf"
    and disk: "\<And>p. \<not> dk_bad (en_disk st) p"
  shows "dk_files (en_disk (save_session h s name st)) path = Some buf"
    and "\<not> dk_bad (en_disk (save_session h s name st)) p"
proof -
  note kept = save_jar_file [OF enc disk disk, of path]
  show "dk_files (en_disk (save_session h s name st)) path = Some buf"
    using kept hints_path_differs [OF path]
    by (auto simp: save_session_def path jar Let_def save_hints_other split: option.split)
  show "\<not> dk_bad (en_disk (save_session h s name st)) p"
    using kept disk by (auto simp: save_session_def path jar Let_def save_hints_other split: option.split)
qed

lemma load_jar_of_file:
  assumes "session_path (en_session_store s) name = Some path"
    and "dk_files (en_disk st) path = Some buf" and "\<not> dk_bad (en_disk st) path"
    and "ho_decode_jar h buf = Inr jar"
  shows "load_jar h s name st = Inr jar"
  using assms by (simp add: load_jar_def load_file_def open_file_def)


section \<open>A demonstration\<close>

text \<open>A host whose jars are byte strings, stored as they are; hints are one text of names.\<close>

definition demo_host :: "bytes host" where
  "demo_host = \<lparr>ho_profile = (\<lambda>_ _. ([], None)), ho_proxy_error = (\<lambda>_. None), ho_build_error = (\<lambda>_. None),
     ho_decode_jar = Inr, ho_encode_jar = Inr, ho_fresh_jar = [],
     ho_add_cookie = (\<lambda>c _ jar. jar @ [of_nat (length c)]), ho_cookies = (\<lambda>_. []),
     ho_decode_hints = (\<lambda>bs. if bs = [] then Some [] else None),
     ho_encode_hints = (\<lambda>hs. if hs = [] then Some [] else None), ho_memory = 8\<rparr>"

definition demo_setup :: engine_setup where
  "demo_setup = \<lparr>en_client = Real 0 default_client_config None, en_client_config = default_client_config,
     en_real_network = True, en_session_store = Some ''store'', en_stealth = stealth 8 ChromeLinux,
     en_rotate = False, en_geoip = True, en_chrome_major = 151\<rparr>"

definition demo_engine :: "bytes engine" where
  "demo_engine = (empty_engine \<lparr>dk_files = (\<lambda>_. None), dk_bad = (\<lambda>_. False)\<rparr>)\<lparr>en_hint_stores := [[]]\<rparr>"

definition demo_session :: "bytes engine" where
  "demo_session = demo_engine\<lparr>en_sessions := [''a/b'' \<mapsto> 0, ''a_b'' \<mapsto> 1], en_jars := [[7, 7], [9]],
     en_pool := [session_key ''a/b'' \<mapsto> Real 0 default_client_config (Some 0)]\<rparr>"


section \<open>Two names, one file\<close>

text \<open>
  Sessions are kept apart by name while the engine runs, but not on disk: the names
  \<open>a/b\<close> and \<open>a_b\<close> have one file, so after \<open>a/b\<close> has been saved, \<open>a_b\<close> resumes with the cookies
  of \<open>a/b\<close>; and the file for the hints of \<open>s\<close> is the file for the cookies of \<open>s.hints\<close>.
\<close>

theorem sessions_can_share_a_file:
  assumes store: "en_session_store s = Some store"
    and jar: "en_sessions st ''a/b'' = Some j"
    and jars: "ho_encode_jar h (en_jars st ! j) = Inr buf" "ho_decode_jar h buf = Inr (en_jars st ! j)"
    and disk: "\<And>p. \<not> dk_bad (en_disk st) p"
  shows "load_jar h s ''a_b'' (save_session h s ''a/b'' st) = Inr (en_jars st ! j) \<and>
    session_hints_path (en_session_store s) ''s'' = session_path (en_session_store s) ''s.hints''"
proof (rule conjI)
  have safe: "sanitize_session_name ''a/b'' = Some ''a_b''" "sanitize_session_name ''a_b'' = Some ''a_b''"
      "sanitize_session_name ''s'' = Some ''s''" "sanitize_session_name ''s.hints'' = Some ''s.hints''"
    by code_simp+
  have path: "session_path (en_session_store s) ''a/b'' = Some (path_join store ''a_b.json'')"
      "session_path (en_session_store s) ''a_b'' = Some (path_join store ''a_b.json'')"
    by (simp_all add: session_path_def store safe)
  note saved = save_session_jar [OF path(1) jar jars(1) disk]
  show "load_jar h s ''a_b'' (save_session h s ''a/b'' st) = Inr (en_jars st ! j)"
    by (rule load_jar_of_file [OF path(2) _ _ jars(2)]) (simp_all add: saved)
  show "session_hints_path (en_session_store s) ''s'' = session_path (en_session_store s) ''s.hints''"
    using with_extension_file [of "''s''" "store_dir store" "''hints.json''"] store_dir_last [of store]
    by (simp add: session_hints_path_def session_path_def store safe path_join_plain)
qed

theorem sessions_can_share_a_file_witness:
  "load_jar demo_host demo_setup ''a_b'' (save_session demo_host demo_setup ''a/b'' demo_session) = Inr [7, 7] \<and>
   session_hints_path (en_session_store demo_setup) ''s'' = session_path (en_session_store demo_setup) ''s.hints''"
  using sessions_can_share_a_file [of demo_setup "''store''" demo_session 0 demo_host "[7, 7]"]
  by (simp add: demo_setup_def demo_session_def demo_engine_def demo_host_def empty_engine_def)

section \<open>Which proxy a client has\<close>

fun client_proxy :: "engine_client \<Rightarrow> proxy_config option" where
  "client_proxy (Real _ cfg _) = cc_proxy cfg"
| "client_proxy Stub = None"

lemma geo_for_pool [simp]: "en_pool (snd (geo_for ask s key c st)) = en_pool st"
  "en_disk (snd (geo_for ask s key c st)) = en_disk st"
  by (auto simp: geo_for_def geo_insert_def split: option.split)

lemma finish_page_state:
  "en_pool (snd (finish_page h s placed profile geo c session storage st)) = en_pool st"
  "en_geo_cache (snd (finish_page h s placed profile geo c session storage st)) = en_geo_cache st"
  "en_disk (snd (finish_page h s placed profile geo c session storage st)) = en_disk st"
  by (auto simp: finish_page_def context_bootstrap_def bind_partition_def Let_def split: option.split prod.split)

lemma finish_page_client:
  "fst (finish_page h s placed profile geo c session storage st) = Inr pg \<Longrightarrow> pg_client pg = c"
  by (cases placed) (auto simp: finish_page_def build_context_def split: prod.splits)

lemma session_jar_state:
  "en_pool (snd (session_jar h s name st)) = en_pool st"
  "en_geo_cache (snd (session_jar h s name st)) = en_geo_cache st"
  "en_disk (snd (session_jar h s name st)) = en_disk st"
  by (auto simp: session_jar_def session_entry_def Let_def split: option.split sum.split)

lemma build_client_cases:
  "build_client h cfg jar st = (r, st') \<Longrightarrow> (\<exists>e. r = Inl e \<and> st' = st) \<or>
    (r = Inr (Real (length (en_hint_stores st)) cfg jar) \<and> st' = st\<lparr>en_hint_stores := en_hint_stores st @ [[]]\<rparr>)"
  by (auto simp: build_client_def split: sum.splits)

lemma restore_hints_state [simp]:
  "en_pool (restore_hints saved c st) = en_pool st" "en_geo_cache (restore_hints saved c st) = en_geo_cache st"
  "en_sessions (restore_hints saved c st) = en_sessions st"
  "length (en_hint_stores (restore_hints saved c st)) = length (en_hint_stores st)"
  by (auto simp: restore_hints_def split: option.split engine_client.split)

text \<open>A client handed out with the real network is the pooled one afterwards.\<close>

lemma client_for_pooled:
  assumes "client_for h s key proxy os st = (Inr c, st')" and "en_real_network s" and "key \<noteq> []"
  shows "en_pool st' key = Some c"
    and "en_pool st key = None \<Longrightarrow> \<exists>i. c = Real i (client_config_for h s proxy os) None"
    and "en_pool st key = Some d \<Longrightarrow> c = d \<and> st' = st"
  using assms build_client_cases [of h "client_config_for h s proxy os" None st]
  by (auto simp: client_for_def known_client_def pool_entry_def Let_def split: option.splits sum.splits prod.splits)

lemma client_for_session_pooled:
  assumes "client_for_session h s name j proxy os st = (Inr c, st')" and "en_real_network s"
  shows "en_pool st' (session_key name) = Some c"
    and "en_pool st (session_key name) = None \<Longrightarrow> \<exists>i. c = Real i (client_config_for h s proxy os) (Some j)"
    and "en_pool st (session_key name) = Some d \<Longrightarrow> c = d \<and> st' = st"
  using assms build_client_cases [of h "client_config_for h s proxy os" "Some j" st]
  by (auto simp: client_for_session_def known_session_client_def build_session_client_def pool_entry_def Let_def
      split: option.splits sum.splits prod.splits)

lemma client_config_proxy: "cc_proxy (client_config_for h s proxy os) = proxy"
  by (simp add: client_config_for_def Let_def split: option.split)

lemma client_for_session_disk: "en_disk (snd (client_for_session h s name j proxy os st)) = en_disk st"
proof -
  have "en_disk (snd (build_session_client h s name j proxy os st)) = en_disk st"
    by (auto simp: build_session_client_def build_client_def restore_hints_def
        split: sum.split option.split engine_client.split)
  then show ?thesis
    by (auto simp: client_for_session_def pool_entry_def Let_def split: option.split prod.split sum.split)
qed

lemma with_session_disk: "en_disk (snd (new_context_with_session h s ask placed name proxy st)) = en_disk st"
proof -
  obtain r st0 where r: "session_jar h s name st = (r, st0)" "en_disk st0 = en_disk st"
    using session_jar_state(3) by (metis prod.collapse)
  show ?thesis
  proof (cases r)
    case (Inr j)
    obtain r1 st1 where r1: "client_for_session h s name j proxy (emulation_os_of h (rotated_profile s name)) st0 = (r1, st1)"
        "en_disk st1 = en_disk st0"
      using client_for_session_disk by (metis prod.collapse)
    obtain geo st2 where geo: "geo_for ask s (optional_key proxy) (projr r1) st1 = (geo, st2)" "en_disk st2 = en_disk st1"
      using geo_for_pool(2) by (metis prod.collapse)
    show ?thesis
      using Inr r r1 geo by (cases r1) (simp_all add: new_context_with_session_def Let_def finish_page_state)
  qed (simp add: new_context_with_session_def r)
qed

lemma with_identity_result:
  assumes "new_context_with_identity h s ask placed identity proxy st = (Inr a, st')"
  obtains c st1 where "client_for h s identity proxy (emulation_os_of h (rotated_profile s identity)) st = (Inr c, st1)"
    and "pg_client a = c" and "en_pool st' = en_pool st1"
proof -
  obtain r st1 where r: "client_for h s identity proxy (emulation_os_of h (rotated_profile s identity)) st = (r, st1)"
    by force
  with assms obtain c where c: "r = Inr c"
    by (cases r) (auto simp: new_context_with_identity_def)
  obtain geo st2 where geo: "geo_for ask s (optional_key proxy) c st1 = (geo, st2)"
    by force
  have fin: "finish_page h s placed (rotated_profile s identity) geo c None (''id:'' @ identity) st2 = (Inr a, st')"
    using assms by (simp add: new_context_with_identity_def r c geo Let_def)
  have "pg_client a = c"
    using finish_page_client fin by (metis fst_conv)
  moreover have "en_pool st' = en_pool st1"
    using finish_page_state(1) geo_for_pool fin geo by (metis snd_conv)
  ultimately show thesis
    using that r c by blast
qed

lemma with_session_result:
  assumes "new_context_with_session h s ask placed name proxy st = (Inr a, st')"
  obtains j st0 c st1 where "session_jar h s name st = (Inr j, st0)"
    and "client_for_session h s name j proxy (emulation_os_of h (rotated_profile s name)) st0 = (Inr c, st1)"
    and "pg_client a = c" and "en_pool st' = en_pool st1"
    and "en_geo_cache st' = en_geo_cache (snd (geo_for ask s (optional_key proxy) c st1))"
proof -
  obtain r st0 where r: "session_jar h s name st = (r, st0)"
    by force
  with assms obtain j where j: "r = Inr j"
    by (cases r) (auto simp: new_context_with_session_def)
  obtain r1 st1 where r1: "client_for_session h s name j proxy (emulation_os_of h (rotated_profile s name)) st0 = (r1, st1)"
    by force
  with assms obtain c where c: "r1 = Inr c"
    by (cases r1) (auto simp: new_context_with_session_def r j)
  obtain geo st2 where geo: "geo_for ask s (optional_key proxy) c st1 = (geo, st2)"
    by force
  have fin: "finish_page h s placed (rotated_profile s name) geo c (Some name) (''s:'' @ name) st2 = (Inr a, st')"
    using assms by (simp add: new_context_with_session_def r j r1 c geo Let_def)
  have "pg_client a = c"
    using finish_page_client fin by (metis fst_conv)
  moreover have "en_pool st' = en_pool st1"
    using finish_page_state(1) geo_for_pool fin geo by (metis snd_conv)
  moreover have "en_geo_cache st' = en_geo_cache st2"
    using finish_page_state(2) fin by (metis snd_conv)
  ultimately show thesis
    using that [of j st0 c st1] r j r1 c geo by simp
qed

section \<open>The demonstration's pages\<close>

lemma demo_build:
  "build_client demo_host cfg jar st =
    (Inr (Real (length (en_hint_stores st)) cfg jar), st\<lparr>en_hint_stores := en_hint_stores st @ [[]]\<rparr>)"
  by (cases "cs_proxy (client_settings_for (\<lambda>_ _. ([], None)) cfg (jar \<noteq> None))")
    (auto simp: build_client_def with_session_def demo_host_def Let_def)

definition demo_proxy :: "string \<Rightarrow> proxy_config" where
  "demo_proxy host = \<lparr>px_scheme = Http, px_host = host, px_port = 8080, px_username = Some ''u'', px_password = Some ''x''\<rparr>"

definition demo_place :: "engine_client \<Rightarrow> geo_info option" where
  "demo_place c = map_option (\<lambda>p. \<lparr>gi_timezone = px_host p, gi_country_code = ''US''\<rparr>) (client_proxy c)"

definition demo_open :: "proxy_config \<Rightarrow> bytes engine \<Rightarrow> (engine_error + page) \<times> bytes engine" where
  "demo_open p st = new_context_with_proxy demo_host demo_setup demo_place (Inr 0) (Some p) st"

definition demo_resume :: "proxy_config \<Rightarrow> bytes engine \<Rightarrow> (engine_error + page) \<times> bytes engine" where
  "demo_resume p st = new_context_with_session demo_host demo_setup demo_place (Inr 0) ''s'' (Some p) st"

lemma pair_projr: "isl (fst x) = False \<Longrightarrow> x = (Inr (projr (fst x)), snd x)"
  by (cases x; cases "fst x") auto

lemma build_context_projr [simp]: "isl (build_context (Inr i) c session b n) = False"
  by (simp add: build_context_def)

lemma finish_page_placed [simp]: "isl (fst (finish_page h s (Inr i) profile geo c session storage st)) = False"
  by (simp add: finish_page_def split: prod.split)

lemma demo_real: "en_real_network demo_setup"
  by (simp add: demo_setup_def)

lemma demo_open_works: "isl (fst (demo_open p st)) = False"
  by (simp add: demo_open_def new_context_with_proxy_def new_context_with_identity_def client_for_def demo_build
      pool_entry_def Let_def split: option.split prod.split)

lemma demo_open_eq:
  "new_context_with_proxy demo_host demo_setup demo_place (Inr 0) (Some p) st =
    (Inr (projr (fst (demo_open p st))), snd (demo_open p st))"
  using pair_projr [OF demo_open_works] by (simp add: demo_open_def)

lemma demo_session_path: "session_path (en_session_store demo_setup) ''s'' = Some ''store/s.json''"
  by code_simp

lemma demo_load: "dk_files (en_disk st) ''store/s.json'' = None \<Longrightarrow> \<not> dk_bad (en_disk st) ''store/s.json'' \<Longrightarrow>
    load_jar demo_host demo_setup ''s'' st = Inr []"
  by (simp add: load_jar_def demo_session_path load_file_def open_file_def demo_host_def)

lemma demo_jar_works:
  "dk_files (en_disk st) ''store/s.json'' = None \<Longrightarrow> \<not> dk_bad (en_disk st) ''store/s.json'' \<Longrightarrow>
    \<exists>j st'. session_jar demo_host demo_setup ''s'' st = (Inr j, st')"
  by (cases "en_sessions st ''s''") (simp_all add: session_jar_def demo_load session_entry_def Let_def)

lemma demo_resume_works:
  assumes "dk_files (en_disk st) ''store/s.json'' = None" and "\<not> dk_bad (en_disk st) ''store/s.json''"
  shows "isl (fst (demo_resume p st)) = False"
proof -
  obtain j st' where j: "session_jar demo_host demo_setup ''s'' st = (Inr j, st')"
    using demo_jar_works [OF assms] by blast
  show ?thesis
    by (simp add: demo_resume_def new_context_with_session_def j client_for_session_def build_session_client_def
        demo_build pool_entry_def Let_def split: option.split prod.split)
qed

text \<open>
  A proxy is known by its address and user name only, so correcting its password changes
  nothing: a page opened for the proxy with another password gets the client that was built with
  the first one, for as long as the engine runs.
\<close>

lemma demo_resume_eq:
  assumes "dk_files (en_disk st) ''store/s.json'' = None" and "\<not> dk_bad (en_disk st) ''store/s.json''"
  shows "new_context_with_session demo_host demo_setup demo_place (Inr 0) ''s'' (Some p) st =
    (Inr (projr (fst (demo_resume p st))), snd (demo_resume p st))"
  using pair_projr [OF demo_resume_works [OF assms]] by (simp add: demo_resume_def)

lemma demo_resume_disk: "en_disk (snd (demo_resume p st)) = en_disk st"
  by (simp add: demo_resume_def with_session_disk)

lemma demo_resume_geo:
  assumes "dk_files (en_disk st) ''store/s.json'' = None" and "\<not> dk_bad (en_disk st) ''store/s.json''"
    and "k \<noteq> proxy_key p"
  shows "en_geo_cache (snd (demo_resume p st)) k = en_geo_cache st k"
proof -
  obtain j st0 c st1 where r: "session_jar demo_host demo_setup ''s'' st = (Inr j, st0)"
      "client_for_session demo_host demo_setup ''s'' j (Some p) (emulation_os_of demo_host (rotated_profile demo_setup ''s'')) st0
        = (Inr c, st1)"
      "pg_client (projr (fst (demo_resume p st))) = c" "en_pool (snd (demo_resume p st)) = en_pool st1"
      "en_geo_cache (snd (demo_resume p st)) =
        en_geo_cache (snd (geo_for demo_place demo_setup (optional_key (Some p)) c st1))"
    by (rule with_session_result [OF demo_resume_eq [OF assms(1,2)]])
  have "en_geo_cache st1 = en_geo_cache st0"
    using r(2) by (auto simp: client_for_session_def build_session_client_def demo_build pool_entry_def Let_def
        split: option.splits prod.splits)
  moreover have "en_geo_cache st0 = en_geo_cache st"
    using session_jar_state(2) [of demo_host demo_setup "''s''" st] by (simp add: r(1))
  ultimately show ?thesis
    using r(5) assms(3) by (auto simp: geo_for_def geo_insert_def optional_key_def split: option.split)
qed

theorem a_changed_password_is_ignored:
  assumes real: "en_real_network s" and fresh: "en_pool st (proxy_key p) = None"
    and first: "new_context_with_proxy h s ask placed (Some p) st = (Inr a, st1)"
    and second: "new_context_with_proxy h s ask' placed' (Some (p\<lparr>px_password := w\<rparr>)) st1 = (Inr b, st2)"
  shows "pg_client b = pg_client a \<and> client_proxy (pg_client b) = Some p"
proof -
  have key: "proxy_key (p\<lparr>px_password := w\<rparr>) = proxy_key p" "proxy_key p \<noteq> []"
    by (simp_all add: proxy_key_def)
  obtain c st1' where c: "client_for h s (proxy_key p) (Some p) (emulation_os_of h (rotated_profile s (proxy_key p))) st = (Inr c, st1')"
      "pg_client a = c" "en_pool st1 = en_pool st1'"
    by (rule with_identity_result [OF first [unfolded new_context_with_proxy_def optional_key_def option.case]])
  have a: "en_pool st1 (proxy_key p) = Some c" "client_proxy c = Some p"
    using client_for_pooled(1,2) [OF c(1) real key(2)] fresh c(3) by (auto simp: client_config_proxy)
  obtain d st2' where d: "client_for h s (proxy_key p) (Some (p\<lparr>px_password := w\<rparr>))
        (emulation_os_of h (rotated_profile s (proxy_key p))) st1 = (Inr d, st2')" "pg_client b = d" "en_pool st2 = en_pool st2'"
    by (rule with_identity_result [OF second [unfolded new_context_with_proxy_def optional_key_def option.case key]])
  show ?thesis
    using client_for_pooled(3) [OF d(1) real key(2) a(1)] a(2) c(2) d(2) by simp
qed

theorem a_changed_password_is_ignored_witness:
  "pg_client (projr (fst (demo_open ((demo_proxy ''h'')\<lparr>px_password := Some ''y''\<rparr>) (snd (demo_open (demo_proxy ''h'') demo_engine)))))
     = pg_client (projr (fst (demo_open (demo_proxy ''h'') demo_engine))) \<and>
   client_proxy (pg_client (projr (fst (demo_open ((demo_proxy ''h'')\<lparr>px_password := Some ''y''\<rparr>)
     (snd (demo_open (demo_proxy ''h'') demo_engine)))))) = Some (demo_proxy ''h'')"
proof -
  have fresh: "en_pool demo_engine (proxy_key (demo_proxy ''h'')) = None"
    by (simp add: demo_engine_def empty_engine_def)
  show ?thesis
    by (rule a_changed_password_is_ignored [OF demo_real fresh demo_open_eq demo_open_eq])
qed

text \<open>
  The location cached for a proxy can be another one's. A page of a named session goes
  through the client of the session's first page; when it names another proxy, the location of that
  proxy is asked through the first one, and kept for every later page of the proxy.
\<close>

theorem location_is_asked_through_the_first_proxy:
  assumes real: "en_real_network s" and geoip: "en_geoip s"
    and fresh: "en_pool st (session_key name) = None"
    and first: "new_context_with_session h s ask placed name (Some p) st = (Inr a, st1)"
    and unknown: "en_geo_cache st1 (proxy_key q) = None"
    and second: "new_context_with_session h s ask' placed' name (Some q) st1 = (Inr b, st2)"
  shows "client_proxy (pg_client b) = Some p \<and> en_geo_cache st2 (proxy_key q) = Some (ask' (pg_client b))"
proof -
  obtain j1 st01 c1 st11 where c1: "session_jar h s name st = (Inr j1, st01)"
      "client_for_session h s name j1 (Some p) (emulation_os_of h (rotated_profile s name)) st01 = (Inr c1, st11)"
      "pg_client a = c1" "en_pool st1 = en_pool st11"
      "en_geo_cache st1 = en_geo_cache (snd (geo_for ask s (optional_key (Some p)) c1 st11))"
    by (rule with_session_result [OF first])
  have "en_pool st01 (session_key name) = None"
    using session_jar_state(1) [of h s name st] fresh by (simp add: c1(1))
  then have a: "en_pool st1 (session_key name) = Some (pg_client a)" "client_proxy (pg_client a) = Some p"
    using client_for_session_pooled(1,2) [OF c1(2) real] c1(3,4) by (auto simp: client_config_proxy)
  obtain j st0 c st' where b: "session_jar h s name st1 = (Inr j, st0)"
      "client_for_session h s name j (Some q) (emulation_os_of h (rotated_profile s name)) st0 = (Inr c, st')"
      "pg_client b = c" "en_pool st2 = en_pool st'"
      "en_geo_cache st2 = en_geo_cache (snd (geo_for ask' s (optional_key (Some q)) c st'))"
    by (rule with_session_result [OF second])
  have st0: "en_pool st0 (session_key name) = Some (pg_client a)" "en_geo_cache st0 (proxy_key q) = None"
    using session_jar_state [of h s name st1] a unknown by (simp_all add: b(1))
  with client_for_session_pooled(3) [OF b(2) real st0(1)] have "c = pg_client a" "st' = st0"
    by simp_all
  moreover have "proxy_key q \<noteq> []"
    by (simp add: proxy_key_def)
  ultimately show ?thesis
    using a b st0 real geoip by (simp add: geo_for_def geo_known_def geo_insert_def optional_key_def)
qed

theorem location_is_asked_through_the_first_proxy_witness:
  "client_proxy (pg_client (projr (fst (demo_resume (demo_proxy ''k'') (snd (demo_resume (demo_proxy ''h'') demo_engine))))))
     = Some (demo_proxy ''h'') \<and>
   en_geo_cache (snd (demo_resume (demo_proxy ''k'') (snd (demo_resume (demo_proxy ''h'') demo_engine)))) (proxy_key (demo_proxy ''k''))
     = Some (demo_place (pg_client (projr (fst (demo_resume (demo_proxy ''k'') (snd (demo_resume (demo_proxy ''h'') demo_engine)))))))"
proof -
  have start: "en_pool demo_engine (session_key ''s'') = None" "dk_files (en_disk demo_engine) ''store/s.json'' = None"
      "\<not> dk_bad (en_disk demo_engine) ''store/s.json''" "en_geo_cache demo_engine = (\<lambda>_. None)"
    by (simp_all add: demo_engine_def empty_engine_def)
  have keys: "proxy_key (demo_proxy ''k'') \<noteq> proxy_key (demo_proxy ''h'')"
    by (simp add: proxy_key_def demo_proxy_def)
  have geoip: "en_geoip demo_setup"
    by (simp add: demo_setup_def)
  let ?st = "snd (demo_resume (demo_proxy ''h'') demo_engine)"
  have unknown: "en_geo_cache ?st (proxy_key (demo_proxy ''k'')) = None"
    using demo_resume_geo [OF start(2,3) keys] start(4) by simp
  have later: "dk_files (en_disk ?st) ''store/s.json'' = None" "\<not> dk_bad (en_disk ?st) ''store/s.json''"
    using start(2,3) by (simp_all add: demo_resume_disk)
  show ?thesis
    by (rule location_is_asked_through_the_first_proxy [OF demo_real geoip start(1)
          demo_resume_eq [OF start(2,3)] unknown demo_resume_eq [OF later]])
qed

end
