(* ===== verification/EngineRun.thy ===== *)
theory EngineRun
  imports Sessions
begin

text \<open>
  The engine while many pages are opened at once (\<open>crates/core/src/lib.rs\<close>). Opening a page waits
  for the disk, for a client to be built and for the location service, and between two waits other
  calls run. A step takes one call from one lock or wait to the next, releases an identity, saves or
  closes, or lets pages use their jars and hint stores.
\<close>

section \<open>Runs\<close>


















section \<open>What a client and a page agree on\<close>




lemma emulation_os_for_stealth [simp]:
  "preset_for_os (emulation_os_for (stealth memory f)) = f"
  by (cases f) (simp_all add: emulation_os_for_def common_profile_def)

lemma hint_values_same:
  "sp_device_memory p = sp_device_memory q \<Longrightarrow> sp_screen_width p = sp_screen_width q \<Longrightarrow>
   sp_avail_height p = sp_avail_height q \<Longrightarrow> hint_values_for p = hint_values_for q"
  by (simp add: hint_values_for_def)





section \<open>The invariant\<close>



















section \<open>Every step keeps it\<close>


lemma pool_key_session [simp]: "session_key n \<noteq> []"
  by (simp add: session_key_def)

























section \<open>A demonstration\<close>










section \<open>Isolation and coherence\<close>






end
