(* ===== verification/Utf8.thy ===== *)
theory Utf8
  imports Text
begin

text \<open>
  \<open>String::from_utf8_lossy\<close> of the Rust standard library, which the engine applies to whatever a
  server sends: well-formed characters stay, and each longest beginning of one that is cut short or
  wrong becomes one replacement character.
\<close>

definition code :: "char \<Rightarrow> nat" where
  "code c = of_char c"

definition is_cont :: "char \<Rightarrow> bool" where
  "is_cont c \<longleftrightarrow> 0x80 \<le> code c \<and> code c < 0xC0"

text \<open>Which second byte may follow the first of three or four.\<close>

definition second_ok :: "char \<Rightarrow> char \<Rightarrow> bool" where
  "second_ok c d \<longleftrightarrow>
     (if code c = 0xE0 then 0xA0 \<le> code d \<and> code d < 0xC0
      else if code c = 0xED then 0x80 \<le> code d \<and> code d < 0xA0
      else if code c = 0xF0 then 0x90 \<le> code d \<and> code d < 0xC0
      else if code c = 0xF4 then 0x80 \<le> code d \<and> code d < 0x90
      else is_cont d)"

definition width :: "char \<Rightarrow> nat" where
  "width c =
     (if code c < 0x80 then 1
      else if 0xC2 \<le> code c \<and> code c \<le> 0xDF then 2
      else if 0xE0 \<le> code c \<and> code c \<le> 0xEF then 3
      else if 0xF0 \<le> code c \<and> code c \<le> 0xF4 then 4
      else 0)"

definition replacement :: string where
  "replacement = byte_string [0xEF, 0xBF, 0xBD]"

text \<open>
  The bytes of the first character: how many there are, and whether they make one. Of a broken one
  it is those read before the byte that breaks it, and at least one.
\<close>

fun conts :: "nat \<Rightarrow> string \<Rightarrow> nat" where
  "conts (Suc n) (c # s) = (if is_cont c then Suc (conts n s) else 0)"
| "conts n s = 0"

definition first_char :: "char \<Rightarrow> string \<Rightarrow> nat \<times> bool" where
  "first_char c s =
     (if width c = 0 then (1, False)
      else if width c \<le> 1 then (1, True)
      else
        case s of
          [] \<Rightarrow> (1, False)
        | d # s \<Rightarrow>
            if \<not> second_ok c d \<or> \<not> is_cont d then (1, False)
            else let n = 2 + conts (width c - 2) s in (n, n = width c))"

function from_utf8_lossy :: "string \<Rightarrow> string" where
  "from_utf8_lossy [] = []"
| "from_utf8_lossy (c # s) =
     (let (n, ok) = first_char c s
      in (if ok then take n (c # s) else replacement) @ from_utf8_lossy (drop (n - 1) s))"
  by pat_completeness auto
termination
  by (relation "measure length") simp_all

declare from_utf8_lossy.simps(2) [simp del]

fun ascii :: "string \<Rightarrow> bool" where
  "ascii [] = True"
| "ascii (c # s) \<longleftrightarrow> code c < 0x80 \<and> ascii s"

lemma first_char_ascii: "code c < 0x80 \<Longrightarrow> first_char c s = (1, True)"
  by (simp add: first_char_def width_def)

lemma lossy_ascii: "ascii s \<Longrightarrow> from_utf8_lossy s = s"
  by (induction s) (simp_all add: from_utf8_lossy.simps(2) first_char_ascii)

text \<open>Well-formed text: every character is complete.\<close>

function well_formed :: "string \<Rightarrow> bool" where
  "well_formed [] = True"
| "well_formed (c # s) = (let (n, ok) = first_char c s in ok \<and> well_formed (drop (n - 1) s))"
  by pat_completeness auto
termination
  by (relation "measure length") simp_all

declare well_formed.simps(2) [simp del]

lemma first_char_pos: "first_char c s = (n, ok) \<Longrightarrow> 0 < n"
  by (auto simp: first_char_def Let_def split: if_splits list.splits)

lemma lossy_well_formed: "well_formed s \<Longrightarrow> from_utf8_lossy s = s"
proof (induction s rule: well_formed.induct)
  case (2 c s)
  obtain n ok where n: "first_char c s = (n, ok)"
    by force
  with 2(2) have ok: "ok" "well_formed (drop (n - 1) s)"
    by (simp_all add: well_formed.simps(2))
  have "from_utf8_lossy (drop (n - 1) s) = drop (n - 1) s"
    using 2(1) [OF n [symmetric] refl ok(2)] n ok by simp
  moreover have "take n (c # s) @ drop (n - 1) s = c # s"
    using first_char_pos [OF n] by (cases n) simp_all
  ultimately show ?case
    by (simp add: from_utf8_lossy.simps(2) n ok)
qed simp

end
