(* ===== verification/Documents.thy ===== *)
theory Documents
  imports Utf8 Net
begin

text \<open>
  What a document is made of before the parser sees it (\<open>crates/core/src/lib.rs\<close>): the markup Chrome
  shows for a text reply, documents in \<open>data:\<close> addresses, the referrer policy and character set a
  document names, and the fields the page's own scripts must not see. Base64 and the JSON printer
  are arguments.
\<close>

section \<open>Text shown as a document\<close>

definition markup_char :: "char \<Rightarrow> string" where
  "markup_char c =
     (if c = CHR ''&'' then ''&amp;'' else if c = CHR ''<'' then ''&lt;'' else if c = CHR ''>'' then ''&gt;'' else [c])"

definition escape_markup :: "string \<Rightarrow> string" where
  "escape_markup s = concat (map markup_char s)"

definition json_mime :: "string \<Rightarrow> bool" where
  "json_mime mime \<longleftrightarrow> mime = ''application/json'' \<or> mime = ''text/json'' \<or>
     (has_prefix mime ''application/'' \<and> has_suffix mime ''+json'')"

definition script_mimes :: "string list" where
  "script_mimes =
     [''application/javascript'', ''application/x-javascript'', ''application/ecmascript'', ''application/x-ecmascript'']"

definition downloaded_mimes :: "string list" where
  "downloaded_mimes =
     [''text/calendar'', ''text/x-calendar'', ''text/x-vcalendar'', ''text/vcalendar'', ''text/vcard'', ''text/x-vcard'',
      ''text/directory'', ''text/ldif'', ''text/qif'', ''text/x-qif'', ''text/x-csv'', ''text/x-vcf'', ''text/rtf'',
      ''text/comma-separated-values'', ''text/csv'', ''text/tab-separated-values'', ''text/tsv'', ''text/ofx'',
      ''text/vnd.sun.j2me.app-descriptor'']"

definition text_mime :: "string \<Rightarrow> bool" where
  "text_mime mime \<longleftrightarrow> List.member script_mimes mime \<or>
     (has_prefix mime ''text/'' \<and> \<not> List.member [''text/html'', ''text/xml'', ''text/xsl''] mime \<and>
      \<not> List.member downloaded_mimes mime)"

definition attribute :: "string \<Rightarrow> string \<Rightarrow> string" where
  "attribute name value = name @ ''='' @ CHR 0x22 # value @ [CHR 0x22]"

definition text_head :: string where
  "text_head =
     ''<html><head><meta '' @ attribute ''name'' ''color-scheme'' @ '' '' @ attribute ''content'' ''light dark'' @
     ''></head><body><pre '' @ attribute ''style'' ''word-wrap: break-word; white-space: pre-wrap;'' @ ''>''"

definition text_tail :: string where
  "text_tail = ''</pre></body></html>''"

definition json_head :: string where
  "json_head =
     ''<html><head><meta '' @ attribute ''name'' ''color-scheme'' @ '' '' @ attribute ''content'' ''light dark'' @
     ''><meta '' @ attribute ''charset'' ''utf-8'' @ ''></head><body><pre>''"

definition json_tail :: string where
  "json_tail = ''</pre><div '' @ attribute ''class'' ''json-formatter-container'' @ ''></div></body></html>''"

definition text_document_markup :: "string \<Rightarrow> string \<Rightarrow> string option" where
  "text_document_markup mime body =
     (if \<not> json_mime mime \<and> \<not> text_mime mime then None
      else
        let esc = (if has_prefix body [CHR 0x0A] then [CHR 0x0A] else []) @ escape_markup body
        in Some (if json_mime mime then json_head @ esc @ json_tail else text_head @ esc @ text_tail))"

section \<open>Documents in addresses\<close>

definition hex_digit_value :: "char \<Rightarrow> nat option" where
  "hex_digit_value c =
     (let n = code c in
      if 48 \<le> n \<and> n \<le> 57 then Some (n - 48)
      else if 97 \<le> n \<and> n \<le> 102 then Some (n - 87)
      else if 65 \<le> n \<and> n \<le> 70 then Some (n - 55)
      else None)"

fun percent_decode :: "string \<Rightarrow> string" where
  "percent_decode [] = []"
| "percent_decode (c # s) =
     (if c = CHR ''%'' then
        (case s of
           x # y # rest \<Rightarrow>
             (case (hex_digit_value x, hex_digit_value y) of
                (Some a, Some b) \<Rightarrow> char_of (a * 16 + b) # percent_decode rest
              | _ \<Rightarrow> c # percent_decode s)
         | _ \<Rightarrow> c # percent_decode s)
      else c # percent_decode s)"

definition ascii_space :: "char \<Rightarrow> bool" where
  "ascii_space c \<longleftrightarrow> List.member [0x09, 0x0A, 0x0C, 0x0D, 0x20] (code c)"

text \<open>
  The address begins with \<open>data:\<close>. \<open>standard\<close> and \<open>no_pad\<close> are the two decoders of Base64.
\<close>

definition data_url_document ::
    "(string \<Rightarrow> string option) \<Rightarrow> (string \<Rightarrow> string option) \<Rightarrow> string \<Rightarrow> string option" where
  "data_url_document standard no_pad url = do {
     (meta, payload) \<leftarrow> split_once CHR '','' (drop 5 url);
     bytes \<leftarrow> (if has_suffix (trim_end (to_ascii_lowercase meta)) '';base64'' then
                  let decoded = percent_decode (filter (\<lambda>c. \<not> ascii_space c) payload) in
                  case standard decoded of Some b \<Rightarrow> Some b | None \<Rightarrow> no_pad decoded
                else Some (percent_decode payload));
     let text = from_utf8_lossy bytes;
     let mime = trim (hd (split_on CHR '';'' (to_ascii_lowercase meta)));
     Some (if mime = ''text/html'' \<or> mime = ''application/xhtml+xml'' then text
           else text_head @ escape_markup text @ text_tail)
   }"

section \<open>What a document names\<close>

definition word_at :: "string \<Rightarrow> bool" where
  "word_at s \<longleftrightarrow> list_ex (has_prefix s) white_spaces"

text \<open>The value of an attribute in a tag, as the engine looks for it: after the first \<open>name=\<close>.\<close>

fun until_space_or_slash :: "string \<Rightarrow> string" where
  "until_space_or_slash [] = []"
| "until_space_or_slash (c # s) =
     (if word_at (c # s) \<or> c = CHR ''/'' then [] else c # until_space_or_slash s)"

definition tag_attr :: "string \<Rightarrow> string \<Rightarrow> string option" where
  "tag_attr tag name =
     (case split_once_str (name @ ''='') tag of
        None \<Rightarrow> None
      | Some (_, []) \<Rightarrow> None
      | Some (_, c # rest) \<Rightarrow>
          Some (trim (if c = CHR 0x22 \<or> c = CHR 0x27 then takeWhile (\<lambda>x. x \<noteq> c) rest
                      else until_space_or_slash (c # rest))))"

definition meta_policy :: "string \<Rightarrow> string option" where
  "meta_policy tag =
     (if tag_attr tag ''name'' = Some ''referrer''
      then Option.bind (tag_attr tag ''content'') referrer_policy_token else None)"

function meta_scan :: "string option \<Rightarrow> string \<Rightarrow> string option" where
  "meta_scan found lower =
     (case split_once_str ''<meta'' lower of
        None \<Rightarrow> found
      | Some (_, after) \<Rightarrow>
          let tag = takeWhile (\<lambda>c. c \<noteq> CHR ''>'') after;
              rest = dropWhile (\<lambda>c. c \<noteq> CHR ''>'') after
          in meta_scan (case meta_policy (''<meta'' @ tag) of Some p \<Rightarrow> Some p | None \<Rightarrow> found) rest)"
  by pat_completeness auto

termination meta_scan
  by (relation "measure (\<lambda>(_, s). length s)")
    (auto dest!: split_once_str_Some intro: le_less_trans [OF length_dropWhile_le])

declare meta_scan.simps [simp del]

definition meta_referrer :: "string \<Rightarrow> string option" where
  "meta_referrer html = meta_scan None (to_ascii_lowercase html)"

text \<open>The policy of a document, and the table of policies after it: \<open>header\<close> is its reply's header.\<close>

definition note_referrer_policy ::
    "nat \<Rightarrow> string option \<Rightarrow> string \<Rightarrow> (nat \<Rightarrow> string option) \<Rightarrow> (nat \<Rightarrow> string option)" where
  "note_referrer_policy index header html policies =
     policies(index := (case meta_referrer html of Some p \<Rightarrow> Some p | None \<Rightarrow> Option.bind header referrer_policy_token))"

definition document_charset :: "string \<Rightarrow> string option" where
  "document_charset content_type =
     (case split_once_str ''charset='' (to_ascii_lowercase content_type) of
        None \<Rightarrow> None
      | Some (_, rest) \<Rightarrow>
          let label = takeWhile (\<lambda>c. c \<noteq> CHR '';'' \<and> c \<noteq> CHR 0x22 \<and> c \<noteq> CHR '' '' \<and> c \<noteq> CHR '','')
                (trim_start_matches CHR 0x22 rest)
          in if label = [] then None else Some label)"

definition is_challenge_frame :: "string \<Rightarrow> bool" where
  "is_challenge_frame url \<longleftrightarrow> contains_str url ''challenges.cloudflare.com'' \<or> contains_str url ''/recaptcha/'' \<or>
     contains_str url ''captcha-delivery.com'' \<or> contains_str url ''hcaptcha.com''"

definition reason_phrases :: "(nat \<times> string) list" where
  "reason_phrases =
     [(200, ''OK''), (201, ''Created''), (204, ''No Content''), (301, ''Moved Permanently''), (302, ''Found''),
      (304, ''Not Modified''), (400, ''Bad Request''), (401, ''Unauthorized''), (403, ''Forbidden''), (404, ''Not Found''),
      (429, ''Too Many Requests''), (500, ''Internal Server Error''), (502, ''Bad Gateway''), (503, ''Service Unavailable'')]"

definition reason_phrase :: "nat \<Rightarrow> string" where
  "reason_phrase status = (case map_of reason_phrases status of Some p \<Rightarrow> p | None \<Rightarrow> [])"

section \<open>Internal fields\<close>

definition field_char :: "char \<Rightarrow> bool" where
  "field_char c \<longleftrightarrow> (let n = code c in 48 \<le> n \<and> n \<le> 57 \<or> 65 \<le> n \<and> n \<le> 90 \<or> 97 \<le> n \<and> n \<le> 122) \<or>
     c = CHR ''_'' \<or> c = CHR ''$''"

text \<open>Whether a name is assigned: an equals sign after blanks, and not \<open>==\<close> or \<open>=>\<close>.\<close>

definition assigned :: "string \<Rightarrow> bool" where
  "assigned rest =
     (case dropWhile (\<lambda>c. c = CHR '' '' \<or> c = CHR 0x09) rest of
        c # d # _ \<Rightarrow> c = CHR ''='' \<and> d \<noteq> CHR ''='' \<and> d \<noteq> CHR ''>''
      | [c] \<Rightarrow> c = CHR ''=''
      | [] \<Rightarrow> False)"

function field_names :: "string btree_set \<Rightarrow> string \<Rightarrow> string btree_set" where
  "field_names names src =
     (case split_once_str ''.__pt'' src of
        None \<Rightarrow> names
      | Some (_, after) \<Rightarrow>
          let name = ''__pt'' @ takeWhile field_char after;
              rest = dropWhile field_char after
          in field_names (if assigned rest then bs_insert name names else names) rest)"
  by pat_completeness auto
termination
  by (relation "measure (\<lambda>(_, s). length s)")
    (auto dest!: split_once_str_Some intro: le_less_trans [OF length_dropWhile_le])

declare field_names.simps [simp del]

definition internal_fields :: "string list \<Rightarrow> string btree_set" where
  "internal_fields sources = foldl field_names [] sources"

section \<open>A text reply cannot become markup\<close>

text \<open>Reading the character references of the markup back.\<close>

fun unescape_markup :: "string \<Rightarrow> string" where
  "unescape_markup [] = []"
| "unescape_markup (c # s) =
     (if c = CHR ''&'' then
        (case strip_prefix ''amp;'' s of Some r \<Rightarrow> CHR ''&'' # unescape_markup (drop 4 s)
         | None \<Rightarrow>
           (case strip_prefix ''lt;'' s of Some r \<Rightarrow> CHR ''<'' # unescape_markup (drop 3 s)
            | None \<Rightarrow>
              (case strip_prefix ''gt;'' s of Some r \<Rightarrow> CHR ''>'' # unescape_markup (drop 3 s)
               | None \<Rightarrow> c # unescape_markup s)))
      else c # unescape_markup s)"

lemma unescape_markup_char: "unescape_markup (markup_char c @ s) = c # unescape_markup s"
  by (simp add: markup_char_def)

lemma unescape_escape: "unescape_markup (escape_markup s) = s"
  by (induction s) (simp_all add: escape_markup_def unescape_markup_char)

lemma escape_markup_plain: "c \<in> set (escape_markup s) \<Longrightarrow> c \<noteq> CHR ''<'' \<and> c \<noteq> CHR ''>''"
  by (auto simp: escape_markup_def markup_char_def split: if_splits)

text \<open>
  Claim C23. A reply that is shown as text stays text. The document built for it is a fixed frame
  around an escaped copy of the body, which has no angle bracket and from which the body can be read
  back exactly, after the one line end the parser drops.
\<close>

theorem text_documents_are_inert:
  assumes "text_document_markup mime body = Some markup"
  shows "\<exists>head inner tail. markup = head @ inner @ tail \<and>
    (head, tail) \<in> {(text_head, text_tail), (json_head, json_tail)} \<and>
    CHR ''<'' \<notin> set inner \<and> CHR ''>'' \<notin> set inner \<and>
    unescape_markup (if has_prefix inner [CHR 0x0A] then tl inner else inner) = body"
proof -
  let ?inner = "(if has_prefix body [CHR 0x0A] then [CHR 0x0A] else []) @ escape_markup body"
  have frame: "markup = json_head @ ?inner @ json_tail \<or> markup = text_head @ ?inner @ text_tail"
    using assms by (auto simp: text_document_markup_def Let_def split: if_splits)
  have plain: "CHR ''<'' \<notin> set ?inner" "CHR ''>'' \<notin> set ?inner"
    using escape_markup_plain by auto
  have "has_prefix ?inner [CHR 0x0A] \<longleftrightarrow> has_prefix body [CHR 0x0A]"
    by (cases body) (auto simp: has_prefix_iff escape_markup_def markup_char_def)
  then have "unescape_markup (if has_prefix ?inner [CHR 0x0A] then tl ?inner else ?inner) = body"
    by (simp add: unescape_escape)
  with frame plain show ?thesis
    by blast
qed

theorem text_documents_are_inert_witness:
  "\<exists>head inner tail. json_head @ ''{&lt;/pre&gt;&amp;}'' @ json_tail = head @ inner @ tail \<and>
    (head, tail) \<in> {(text_head, text_tail), (json_head, json_tail)} \<and>
    CHR ''<'' \<notin> set inner \<and> CHR ''>'' \<notin> set inner \<and>
    unescape_markup (if has_prefix inner [CHR 0x0A] then tl inner else inner) = ''{</pre>&}''"
  by (rule text_documents_are_inert [of "''application/ld+json''"]) code_simp

section \<open>Escapes in addresses\<close>

text \<open>A byte as an address may carry it: as it is unless it is a percent sign, or by its digits.\<close>

definition hex_digits :: "string" where
  "hex_digits = ''0123456789abcdefABCDEF''"

inductive carries :: "char \<Rightarrow> string \<Rightarrow> bool" where
  plain: "c \<noteq> CHR ''%'' \<Longrightarrow> carries c [c]"
| escaped: "hex_digit_value x = Some a \<Longrightarrow> hex_digit_value y = Some b \<Longrightarrow> code c = a * 16 + b \<Longrightarrow> carries c [CHR ''%'', x, y]"

lemma percent_decode_carries: "carries c e \<Longrightarrow> percent_decode (e @ s) = c # percent_decode s"
proof (induction rule: carries.induct)
  case (escaped x a y b c)
  then have "char_of (a * 16 + b) = c"
    by (metis code_def char_of_char)
  with escaped show ?case
    by simp
qed simp

lemma percent_decode_all: "list_all2 carries bs es \<Longrightarrow> percent_decode (concat es) = bs"
  by (induction bs es rule: list_all2_induct) (simp_all add: percent_decode_carries)

end
