(* ===== verification/Sniff.thy ===== *)
theory Sniff
  imports Utf8
begin

text \<open>
  What a reply is by its bytes (\<open>crates/core/src/lib.rs\<close>): whether it opens as media or decodes as an
  image, and the size an image states in its header. \<open>Panics\<close> is an index out of range.
\<close>

unbundle bit_operations_syntax

section \<open>Reading bytes\<close>

datatype 'a outcome = Panics | Returns 'a

definition ascii_bytes :: "string \<Rightarrow> bytes" where
  "ascii_bytes s = map of_char s"

definition get_range :: "nat \<Rightarrow> nat \<Rightarrow> bytes \<Rightarrow> bytes option" where
  "get_range i n b = (if i + n \<le> length b then Some (take n (drop i b)) else None)"

definition be32 :: "bytes \<Rightarrow> nat \<Rightarrow> u32 option" where
  "be32 b i = map_option (\<lambda>r. of_nat (be_val r)) (get_range i 4 b)"

definition le32 :: "bytes \<Rightarrow> nat \<Rightarrow> u32 option" where
  "le32 b i = map_option (\<lambda>r. of_nat (be_val (rev r))) (get_range i 4 b)"

definition be16 :: "bytes \<Rightarrow> nat \<Rightarrow> u32 option" where
  "be16 b i = map_option (\<lambda>r. of_nat (be_val r)) (get_range i 2 b)"

definition le16 :: "bytes \<Rightarrow> nat \<Rightarrow> u32 option" where
  "le16 b i = map_option (\<lambda>r. of_nat (be_val (rev r))) (get_range i 2 b)"

definition swap_bytes :: "u32 \<Rightarrow> u32" where
  "swap_bytes w = of_nat (be_val (rev (be_digits 4 (unat w))))"

definition pair_opt :: "'a option \<Rightarrow> 'b option \<Rightarrow> ('a \<times> 'b) option" where
  "pair_opt x y = (case x of None \<Rightarrow> None | Some a \<Rightarrow> map_option (Pair a) y)"

section \<open>The size of an image\<close>

definition webp_extended :: "bytes \<Rightarrow> (u32 \<times> u32) option outcome" where
  "webp_extended b =
     (if length b < 30 then Panics
      else
        let w = ucast (b ! 24) OR push_bit 8 (ucast (b ! 25)) OR push_bit 16 (ucast (b ! 26));
            h = ucast (b ! 27) OR push_bit 8 (ucast (b ! 28)) OR push_bit 16 (ucast (b ! 29))
        in Returns (Some (w + 1, h + 1)))"

definition webp_lossy :: "bytes \<Rightarrow> (u32 \<times> u32) option" where
  "webp_lossy b =
     pair_opt (map_option (\<lambda>w. swap_bytes w AND 0x3FFF) (be16 b 26)) (map_option (\<lambda>h. swap_bytes h AND 0x3FFF) (be16 b 28))"

definition webp_lossless :: "bytes \<Rightarrow> (u32 \<times> u32) option" where
  "webp_lossless b = map_option (\<lambda>v. ((v AND 0x3FFF) + 1, (drop_bit 14 v AND 0x3FFF) + 1)) (le32 b 21)"

definition webp_size :: "bytes \<Rightarrow> (u32 \<times> u32) option outcome" where
  "webp_size b =
     (case get_range 12 4 b of
        None \<Rightarrow> Returns None
      | Some t \<Rightarrow>
          if t = ascii_bytes ''VP8 '' then Returns (webp_lossy b)
          else if t = ascii_bytes ''VP8L'' then Returns (webp_lossless b)
          else if t = ascii_bytes ''VP8X'' then webp_extended b
          else Returns None)"

definition standalone :: "u8 \<Rightarrow> bool" where
  "standalone marker \<longleftrightarrow> (0xD0 \<le> marker \<and> marker \<le> 0xD9) \<or> marker = 0x01 \<or> marker = 0xFF"

definition frame_header :: "u8 \<Rightarrow> bool" where
  "frame_header marker \<longleftrightarrow> 0xC0 \<le> marker \<and> marker \<le> 0xCF \<and> marker \<noteq> 0xC4 \<and> marker \<noteq> 0xCC"

function jpeg_walk :: "bytes \<Rightarrow> nat \<Rightarrow> (u32 \<times> u32) option" where
  "jpeg_walk b i =
     (if i + 9 < length b then
        if b ! i \<noteq> 0xFF then jpeg_walk b (i + 1)
        else
          let marker = b ! (i + 1) in
          if standalone marker then jpeg_walk b (i + 2)
          else
            case be16 b (i + 2) of
              None \<Rightarrow> None
            | Some len \<Rightarrow>
                if frame_header marker then pair_opt (be16 b (i + 7)) (be16 b (i + 5))
                else jpeg_walk b (i + (2 + max (unat len) 2))
      else None)"
  by pat_completeness auto
termination
  by (relation "measure (\<lambda>(b, i). length b - i)") auto

declare jpeg_walk.simps [simp del]

definition is_png :: "bytes \<Rightarrow> bool" where
  "is_png b \<longleftrightarrow> has_prefix b [0x89, 0x50, 0x4E, 0x47, 0x0D, 0x0A, 0x1A, 0x0A] \<and> get_range 12 4 b = Some (ascii_bytes ''IHDR'')"

definition is_webp :: "bytes \<Rightarrow> bool" where
  "is_webp b \<longleftrightarrow> has_prefix b (ascii_bytes ''RIFF'') \<and> get_range 8 4 b = Some (ascii_bytes ''WEBP'')"

definition image_size :: "bytes \<Rightarrow> (u32 \<times> u32) option outcome" where
  "image_size b =
     (if is_png b then Returns (pair_opt (be32 b 16) (be32 b 20))
      else if has_prefix b (ascii_bytes ''GIF87a'') \<or> has_prefix b (ascii_bytes ''GIF89a'') then
        Returns (pair_opt (le16 b 6) (le16 b 8))
      else if has_prefix b (ascii_bytes ''BM'') then
        Returns (pair_opt (le32 b 18) (map_option (\<lambda>h. of_int \<bar>sint h\<bar>) (le32 b 22)))
      else if is_webp b then webp_size b
      else if has_prefix b [0xFF, 0xD8] then Returns (jpeg_walk b 2)
      else Returns None)"

section \<open>Media and images\<close>

definition is_media_bytes :: "bytes \<Rightarrow> bool" where
  "is_media_bytes b \<longleftrightarrow>
     get_range 4 4 b = Some (ascii_bytes ''ftyp'') \<or>
     has_prefix b [0x1A, 0x45, 0xDF, 0xA3] \<or>
     has_prefix b (ascii_bytes ''ID3'') \<or>
     has_prefix b (ascii_bytes ''OggS'') \<or>
     has_prefix b (ascii_bytes ''fLaC'') \<or>
     (has_prefix b (ascii_bytes ''RIFF'') \<and> get_range 8 4 b = Some (ascii_bytes ''WAVE'')) \<or>
     (case b of x # y # _ \<Rightarrow> x = 0xFF \<and> y AND 0xE0 = 0xE0 | _ \<Rightarrow> False)"

definition svg_type :: "(string \<times> string) list \<Rightarrow> bool" where
  "svg_type headers =
     list_ex (\<lambda>(k, v). eq_ignore_ascii_case k ''content-type'' \<and> has_prefix (to_ascii_lowercase v) ''image/svg+xml'') headers"

definition is_image_bytes :: "bytes \<Rightarrow> (string \<times> string) list \<Rightarrow> bool outcome" where
  "is_image_bytes b headers =
     (case image_size b of
        Panics \<Rightarrow> Panics
      | Returns found \<Rightarrow>
          if found \<noteq> None \<or> has_prefix b [0, 0, 1, 0] \<or> has_prefix b [0xFF, 0x0A] \<or>
             has_prefix b ([0, 0, 0, 0x0C] @ ascii_bytes ''JXL '')
          then Returns True
          else if get_range 4 4 b = Some (ascii_bytes ''ftyp'') then
            Returns (case get_range 8 4 b of
              Some brand \<Rightarrow> List.member (map ascii_bytes [''avif'', ''avis'', ''heic'', ''heix'', ''mif1'', ''msf1'']) brand
            | None \<Rightarrow> False)
          else
            let text = to_ascii_lowercase (from_utf8_lossy (map (\<lambda>w. char_of (unat w)) (take 1024 b)))
            in Returns (svg_type headers \<and> contains_str text ''<svg''))"

section \<open>When the reader panics\<close>


section \<open>Sizes that are read wrongly and rightly\<close>

lemma be_digits_small:
  assumes "n < 65536"
  shows "be_digits 4 n = [0, 0, of_nat (n div 256), of_nat n]"
proof -
  have "n div 256 div 256 = 0"
    using assms by (simp add: div_mult2_eq [symmetric])
  moreover have "be_digits 4 n = be_digits (Suc (Suc (Suc (Suc 0)))) n"
    by (rule arg_cong [of _ _ "\<lambda>k. be_digits k n"]) simp
  ultimately show ?thesis
    by simp
qed

lemma be16_bound: "be16 b i = Some w \<Longrightarrow> unat w < 65536"
proof -
  assume "be16 b i = Some w"
  then obtain r where r: "get_range i 2 b = Some r" "w = of_nat (be_val r)"
    by (auto simp: be16_def)
  have "length r = 2"
    using r(1) by (auto simp: get_range_def split: if_splits)
  then have "be_val r < 65536"
    using be_val_bound [of r] by simp
  then show ?thesis
    by (simp add: r(2) unat_of_nat)
qed

lemma swapped_short:
  assumes "unat w < 65536"
  shows "swap_bytes w AND 0x3FFF = 0"
proof -
  define k where "k = unat (of_nat (unat w) :: u8) * 256 + unat (of_nat (unat w div 256) :: u8)"
  have "be_val (rev (be_digits 4 (unat w))) = 65536 * k"
    by (simp add: be_digits_small [OF assms] k_def)
  then have swap: "swap_bytes w = of_nat (65536 * k)"
    unfolding swap_bytes_def by (rule arg_cong)
  have "(of_nat (65536 * k) :: u32) AND mask 14 = of_nat (take_bit 14 (65536 * k))"
    by (simp only: take_bit_eq_mask [symmetric] take_bit_of_nat)
  also have "take_bit 14 (65536 * k) = 0"
    by (simp add: take_bit_eq_mod mod_eq_0_iff_dvd)
  finally show ?thesis
    by (simp add: swap mask_numeral)
qed

text \<open>
  A lossy WebP picture has no size: its two 16-bit numbers are read as 32-bit ones, and
  exchanging their bytes moves them out of the bits that are kept. Every such file of at least 30
  bytes is reported as 0 by 0.
\<close>

theorem lossy_webp_has_no_size:
  assumes "is_webp b" and "get_range 12 4 b = Some (ascii_bytes ''VP8 '')" and "30 \<le> length b"
  shows "image_size b = Returns (Some (0, 0))"
proof -
  obtain w h where wh: "be16 b 26 = Some w" "be16 b 28 = Some h"
    using assms(3) by (simp add: be16_def get_range_def)
  have "webp_size b = Returns (Some (0, 0))"
    using assms(2) swapped_short [OF be16_bound [OF wh(1)]] swapped_short [OF be16_bound [OF wh(2)]]
    by (simp add: webp_size_def webp_lossy_def pair_opt_def wh)
  moreover have "\<not> is_png b \<and> \<not> has_prefix b (ascii_bytes ''GIF87a'') \<and> \<not> has_prefix b (ascii_bytes ''GIF89a'') \<and>
      \<not> has_prefix b (ascii_bytes ''BM'')"
    using assms(1) by (auto simp: is_webp_def is_png_def has_prefix_iff ascii_bytes_def)
  ultimately show ?thesis
    using assms(1) by (simp add: image_size_def)
qed

theorem lossy_webp_has_no_size_witness:
  "image_size (ascii_bytes ''RIFF'' @ [0x10, 0, 0, 0] @ ascii_bytes ''WEBPVP8 '' @
     [0x10, 0, 0, 0, 0, 0, 0, 0x9D, 0x01, 0x2A, 0x40, 0x01, 0xF0, 0x00]) = Returns (Some (0, 0))"
  by (rule lossy_webp_has_no_size) (simp_all add: is_webp_def has_prefix_iff get_range_def ascii_bytes_def)












end
