(* ===== verification/PageNet.thy ===== *)
theory PageNet
  imports Documents Sniff Blocklist Intercept
begin

text \<open>
  A page's requests (\<open>crates/core/src/lib.rs\<close>): how a queued \<open>fetch\<close>, image or script becomes a
  request, the requests in flight, the log a driver reads, and how a reply settles what the page
  waits for. A call of a page function (\<open>__pt_fetchResolve(...)\<close> and the like) is a value of
  \<open>js_call\<close>; its text is the JSON printer's. Times are left out. \<open>Panics\<close> is an index out of range.
\<close>

unbundle bit_operations_syntax

section \<open>Frames on threads of their own\<close>

definition own_thread :: u64 where
  "own_thread = push_bit 48 1"

definition own_thread_index :: "u64 \<Rightarrow> u64 \<Rightarrow> u64" where
  "own_thread_index worker raw = own_thread OR (push_bit 32 (worker AND 0xFFFF) OR (raw AND 0xFFFFFFFF))"

definition route :: "u64 \<Rightarrow> u64 \<Rightarrow> u64 \<times> u64" where
  "route page_worker index =
     (if index AND own_thread \<noteq> 0 then (drop_bit 32 index AND 0xFFFF, index AND 0xFFFFFFFF)
      else (page_worker, index))"

lemma route_own_thread:
  assumes "worker < 0x10000" and "raw < 0x100000000"
  shows "route page_worker (own_thread_index worker raw) = (worker, raw)"
proof -
  have mask: "0xFFFF = (mask 16 :: u64)" "0xFFFFFFFF = (mask 32 :: u64)"
    by (simp_all add: mask_numeral)
  have small: "take_bit 16 worker = worker" "take_bit 32 raw = raw"
    using assms less_mask_eq [of worker 16] less_mask_eq [of raw 32] by (simp_all add: take_bit_eq_mask)
  let ?i = "push_bit 48 1 OR (push_bit 32 (take_bit 16 worker) OR take_bit 32 raw)"
  have "bit (?i AND push_bit 48 1) 48"
    by (simp add: bit_simps)
  then have tagged: "?i AND push_bit 48 1 \<noteq> 0"
    by (metis bit_0_eq bot_apply bot_bool_def)
  have "take_bit 16 (drop_bit 32 ?i) = take_bit 16 worker"
    by (rule bit_word_eqI) (auto simp: bit_simps)
  moreover have "take_bit 32 ?i = take_bit 32 raw"
    by (rule bit_word_eqI) (auto simp: bit_simps)
  ultimately show ?thesis
    using tagged small
    by (simp add: route_def own_thread_index_def own_thread_def mask take_bit_eq_mask [symmetric] del: push_bit_numeral)
qed

section \<open>What a page asks for\<close>

text \<open>An entry of the page's queue, as far as its fields have the expected types.\<close>

record js_request =
  jr_id :: int
  jr_url :: string
  jr_method :: "string option"
  jr_headers :: "(string \<times> string) list"
  jr_kind :: "string option"
  jr_no_referrer :: bool
  jr_referrer :: "string option"
  jr_body :: "string option"
  jr_body_base64 :: bool
  jr_storage_access :: bool
  jr_credentials :: "string option"
  jr_policy :: "string option"

text \<open>The destination, the urgency when it depends on context, and whether cookies stay away.\<close>

definition wire_kinds :: "(string list \<times> request_kind \<times> nat option \<times> bool) list" where
  "wire_kinds =
     [([''document''], Document, None, False),
      ([''iframe''], Iframe, None, False),
      ([''script''], Script, Some 1, False),
      ([''script-low''], Script, Some 3, False),
      ([''module'', ''link-module''], ModuleScript, Some 1, False),
      ([''worker''], Worker, None, False),
      ([''xhr'', ''fetch''], Xhr, None, False),
      ([''fetch-nocors''], XhrNoCors, None, False),
      ([''preflight''], Preflight, None, True),
      ([''beacon''], Beacon, None, False),
      ([''img'', ''image''], Subresource, Some 2, False),
      ([''image-low'', ''link-image'', ''css-image''], Subresource, Some 3, False),
      ([''image-cors''], ImageCors, Some 2, False),
      ([''video''], Video, Some 3, False),
      ([''audio''], Audio, Some 3, False),
      ([''image-cors-low''], ImageCors, Some 3, False),
      ([''css-mask''], ImageCors, Some 3, False),
      ([''icon''], Subresource, Some 1, False),
      ([''stylesheet'', ''link-style'', ''css''], Style, Some 0, False),
      ([''link-script''], Script, Some 1, False),
      ([''link-font''], Font, Some 1, False),
      ([''font''], Font, Some 0, False),
      ([''link-fetch''], PreloadFetch, None, False),
      ([''prefetch''], Prefetch, None, False),
      ([''prerender''], Prerender, None, False),
      ([''manifest''], Manifest, None, True)]"

definition wire_kind :: "string \<Rightarrow> request_kind \<times> nat option \<times> bool" where
  "wire_kind t =
     (case find (\<lambda>(names, _). List.member names t) wire_kinds of
        Some (_, k) \<Rightarrow> k
      | None \<Rightarrow> (Xhr, None, False))"

section \<open>State\<close>

datatype js_call =
    FetchReject int string
  | FetchResolve int nat string "(string, string) btree_map" string string "string option"
  | ImageMeta string u32 u32 bool
  | ImageBytes string string
  | MediaBad string
  | ImageBad string

datatype deliver = Frame nat | WorkerAt nat nat

record fetch_info =
  fi_context :: nat
  fi_id :: int
  fi_url :: string
  fi_method :: string
  fi_kind :: string
  fi_sent :: bytes

datatype prepared_fetch = Settled js_call | ToSend request fetch_info

text \<open>A request in flight; \<open>if_handle\<close> is the number of its task.\<close>

record in_flight =
  if_deliver :: deliver
  if_info :: fetch_info
  if_handle :: nat
  if_doc :: "u64 option"

record network_record =
  nr_request_id :: string
  nr_announced :: bool
  nr_headers :: "(string, string) btree_map"
  nr_method :: string
  nr_url :: string
  nr_status :: nat
  nr_resource_type :: string
  nr_body :: bytes
  nr_request_body :: bytes
  nr_encoded_len :: nat
  nr_content_encoding :: string
  nr_context :: nat
  nr_frame :: "nat option"

record page_env =
  pe_resolve :: "string \<Rightarrow> string \<Rightarrow> string option"
  pe_block_trackers :: bool
  pe_blocked :: "string \<Rightarrow> bool"
  pe_decode64 :: "string \<Rightarrow> bytes option"
  pe_encode64 :: "bytes \<Rightarrow> string"
  pe_error_text :: "net_error \<Rightarrow> string"
  pe_user_agent :: string
  pe_languages :: "string list"
  pe_storage :: u64

record page_net =
  pn_index :: nat
  pn_base :: string
  pn_client :: page_client
  pn_log :: "network_record list"
  pn_subscriber :: "network_record list option"
  pn_inflight :: "in_flight list"
  pn_next_handle :: nat
  pn_doc_gen :: u64
  pn_frames :: "(nat \<times> nat) list"
  pn_frame_docs :: "(string \<times> nat) list"
  pn_doc_types :: "(string \<times> string) list"
  pn_doc_hints :: "string list"
  pn_policies :: "nat \<Rightarrow> string option"
  pn_icons_failed :: "(u64 \<times> string) list"

definition worker_record_base :: nat where
  "worker_record_base = 2 ^ 40"

section \<open>The log\<close>

definition frame_of_context :: "nat \<Rightarrow> page_net \<Rightarrow> nat option" where
  "frame_of_context context pn = map_option fst (find (\<lambda>(_, index). index = context) (pn_frames pn))"

definition record_full ::
    "nat \<Rightarrow> string \<Rightarrow> string \<Rightarrow> string \<Rightarrow> nat \<Rightarrow> bytes \<Rightarrow> (string, string) btree_map \<Rightarrow> bytes \<Rightarrow> nat \<Rightarrow>
     string \<Rightarrow> page_net \<Rightarrow> page_net" where
  "record_full context meth url rtype status body headers sent encoded_len encoding pn =
     (let ((ident, announced), client) = record_id url (pn_client pn);
          document = (rtype = ''document'' \<or> rtype = ''iframe'');
          frame = (case frame_of_context context pn of
                     Some f \<Rightarrow> Some f
                   | None \<Rightarrow> if document then map_of (pn_frame_docs pn) url else None);
          docs = (if frame_of_context context pn = None \<and> document then AList.delete url (pn_frame_docs pn)
                  else pn_frame_docs pn);
          entry = \<lparr>nr_request_id = ident, nr_announced = announced, nr_headers = headers, nr_method = meth, nr_url = url,
            nr_status = status, nr_resource_type = rtype, nr_body = body, nr_request_body = sent,
            nr_encoded_len = encoded_len, nr_content_encoding = encoding, nr_context = context, nr_frame = frame\<rparr>
      in pn\<lparr>pn_client := client, pn_frame_docs := docs, pn_log := pn_log pn @ [entry],
            pn_subscriber := map_option (\<lambda>sent. sent @ [entry]) (pn_subscriber pn)\<rparr>)"

definition record_in :: "nat \<Rightarrow> string \<Rightarrow> string \<Rightarrow> string \<Rightarrow> nat \<Rightarrow> bytes \<Rightarrow> page_net \<Rightarrow> page_net" where
  "record_in context meth url rtype status body pn =
     record_full context meth url rtype status body [] [] (length body) [] pn"

section \<open>Making requests\<close>

definition doc_hints_of :: "nat \<Rightarrow> page_net \<Rightarrow> string list" where
  "doc_hints_of context pn = (if context \<noteq> pn_index pn then [] else pn_doc_hints pn)"

definition utf8_bytes :: "string \<Rightarrow> bytes" where
  "utf8_bytes s = map of_char s"

text \<open>The headers of an entry: the tag of its kind goes, a referrer comes, and who asks is noted.\<close>

definition kind_of :: "js_request \<Rightarrow> (string, string) btree_map \<Rightarrow> string \<times> (string, string) btree_map" where
  "kind_of r headers =
     (case jr_kind r of
        Some k \<Rightarrow> (k, headers)
      | None \<Rightarrow>
          (case bt_get headers ''x-pt-kind'' of
             Some k \<Rightarrow> (k, bt_remove ''x-pt-kind'' headers)
           | None \<Rightarrow> (''fetch'', headers)))"

definition add_referer ::
    "string \<Rightarrow> js_request \<Rightarrow> (string, string) btree_map \<Rightarrow> (string, string) btree_map \<times> string option" where
  "add_referer base r headers =
     (if jr_no_referrer r \<or> list_ex (\<lambda>(k, _). eq_ignore_ascii_case k ''referer'') headers then (headers, None)
      else
        case jr_referrer r of
          Some sheet \<Rightarrow>
            if has_prefix sheet ''http'' then (bt_insert ''Referer'' sheet headers, Some base)
            else if base \<noteq> [] \<and> base \<noteq> ''about:blank'' then (bt_insert ''Referer'' base headers, None)
            else (headers, None)
        | None \<Rightarrow>
            if base \<noteq> [] \<and> base \<noteq> ''about:blank'' then (bt_insert ''Referer'' base headers, None)
            else (headers, None))"

definition body_of :: "page_env \<Rightarrow> js_request \<Rightarrow> bytes option" where
  "body_of env r =
     map_option (\<lambda>s. if jr_body_base64 r then (case pe_decode64 env s of Some b \<Rightarrow> b | None \<Rightarrow> []) else utf8_bytes s)
       (jr_body r)"

definition prepare_fetch :: "page_env \<Rightarrow> nat \<Rightarrow> string \<Rightarrow> js_request \<Rightarrow> page_net \<Rightarrow> prepared_fetch \<times> page_net" where
  "prepare_fetch env context base r pn =
     (let url = (case pe_resolve env base (jr_url r) of Some u \<Rightarrow> u | None \<Rightarrow> jr_url r);
          meth = (case jr_method r of Some m \<Rightarrow> m | None \<Rightarrow> ''GET'');
          (kind, headers) = kind_of r (foldl (\<lambda>hs (k, v). bt_insert k v hs) [] (jr_headers r));
          (headers, initiator) = add_referer base r headers
      in if pe_block_trackers env \<and> pe_blocked env url then
           (Settled (FetchReject (jr_id r) ''blocked by tracker filter''), record_in context meth url kind 0 [] pn)
         else
           let body = body_of env r;
               (wire, urgency, omit) = wire_kind kind
           in (ToSend
                 \<lparr>rq_method = meth, rq_url = url, rq_headers = headers, rq_body = body, rq_kind = wire,
                  rq_user_activated = False, rq_third_party = jr_storage_access r, rq_context = Some context,
                  rq_doc_hints = doc_hints_of context pn, rq_urgency = urgency,
                  rq_omit_credentials = (omit \<or> jr_credentials r = Some ''omit''), rq_initiator = initiator,
                  rq_referrer_policy =
                    (case Option.bind (jr_policy r) referrer_policy_token of
                       Some p \<Rightarrow> Some p | None \<Rightarrow> pn_policies pn context),
                  rq_credentials_include = map_option (\<lambda>c. c = ''include'') (jr_credentials r)\<rparr>
                 \<lparr>fi_context = context, fi_id = jr_id r, fi_url = url, fi_method = meth, fi_kind = kind,
                  fi_sent = (case body of Some b \<Rightarrow> b | None \<Rightarrow> [])\<rparr>, pn))"

definition get_request :: "page_env \<Rightarrow> string \<Rightarrow> string \<Rightarrow> string option \<Rightarrow> page_net \<Rightarrow> request" where
  "get_request env url rtype referrer pn =
     (let from = (case referrer of
                    Some r \<Rightarrow>
                      if r \<noteq> [] \<and> r \<noteq> ''about:blank'' then Some r
                      else if rtype \<noteq> ''document'' \<and> pn_base pn \<noteq> [] \<and> pn_base pn \<noteq> ''about:blank'' then Some (pn_base pn)
                      else None
                  | None \<Rightarrow>
                      if rtype \<noteq> ''document'' \<and> pn_base pn \<noteq> [] \<and> pn_base pn \<noteq> ''about:blank'' then Some (pn_base pn)
                      else None);
          headers = [(''Accept-Language'', join '','' (pe_languages env)), (''User-Agent'', pe_user_agent env)];
          (wire, urgency, omit) = wire_kind rtype
      in \<lparr>rq_method = ''GET'', rq_url = url,
          rq_headers = (case from of Some r \<Rightarrow> bt_insert ''Referer'' r headers | None \<Rightarrow> headers), rq_body = None,
          rq_kind = wire, rq_user_activated = (rtype = ''document'' \<and> referrer = None), rq_third_party = False,
          rq_context = None, rq_doc_hints = [], rq_urgency = urgency, rq_omit_credentials = omit,
          rq_initiator = None, rq_referrer_policy = pn_policies pn (pn_index pn), rq_credentials_include = None\<rparr>)"

definition push_inflight :: "deliver \<Rightarrow> fetch_info \<Rightarrow> u64 option \<Rightarrow> page_net \<Rightarrow> page_net" where
  "push_inflight d info doc pn =
     pn\<lparr>pn_inflight := pn_inflight pn @ [\<lparr>if_deliver = d, if_info = info, if_handle = pn_next_handle pn, if_doc = doc\<rparr>],
       pn_next_handle := pn_next_handle pn + 1\<rparr>"

definition start_fetch ::
    "page_env \<Rightarrow> deliver \<Rightarrow> nat \<Rightarrow> string \<Rightarrow> js_request \<Rightarrow> page_net \<Rightarrow> js_call option \<times> page_net" where
  "start_fetch env d context base r pn =
     (case prepare_fetch env context base r pn of
        (Settled js, pn) \<Rightarrow> (Some js, pn)
      | (ToSend req info, pn) \<Rightarrow>
          let info = (case d of WorkerAt _ _ \<Rightarrow> info\<lparr>fi_context := worker_record_base + context\<rparr> | Frame _ \<Rightarrow> info)
          in (None, push_inflight d info None pn))"

fun send_early_fetches ::
    "page_env \<Rightarrow> nat \<Rightarrow> string \<Rightarrow> js_request list \<Rightarrow> page_net \<Rightarrow> js_call list \<times> page_net" where
  "send_early_fetches env index base [] pn = ([], pn)"
| "send_early_fetches env index base (r # rs) pn =
     (case prepare_fetch env index base r pn of
        (Settled js, pn) \<Rightarrow>
          (case send_early_fetches env index base rs pn of (calls, pn) \<Rightarrow> (js # calls, pn))
      | (ToSend req info, pn) \<Rightarrow>
          send_early_fetches env index base rs (push_inflight (Frame index) info (Some (pn_doc_gen pn)) pn))"

definition inflight_awaited :: "page_net \<Rightarrow> bool" where
  "inflight_awaited pn = list_ex (\<lambda>f. if_doc f = None) (pn_inflight pn)"

section \<open>Settling replies\<close>

definition text_of :: "bytes \<Rightarrow> string" where
  "text_of b = map (\<lambda>w. char_of (unat w)) b"

definition image_kinds :: "string list" where
  "image_kinds = [''img'', ''image'', ''image-low'', ''css-image'', ''css-mask'', ''image-cors'', ''image-cors-low'']"

text \<open>What the page is told of the bytes before it gets the reply.\<close>

definition reply_meta :: "page_env \<Rightarrow> string \<Rightarrow> string \<Rightarrow> response \<Rightarrow> js_call list outcome" where
  "reply_meta env url kind resp =
     (case image_size (rs_body resp) of
        Panics \<Rightarrow> Panics
      | Returns (Some (w, h)) \<Rightarrow>
          Returns
            (ImageMeta url w h (list_ex (\<lambda>(k, _). eq_ignore_ascii_case k ''access-control-allow-origin'') (rs_headers resp)) #
             (if length (rs_body resp) \<le> 4 * 1024 * 1024 then [ImageBytes url (pe_encode64 env (rs_body resp))] else []))
      | Returns None \<Rightarrow>
          if (kind = ''video'' \<or> kind = ''audio'') \<and> \<not> is_media_bytes (rs_body resp) then Returns [MediaBad url]
          else if List.member image_kinds kind then
            (case is_image_bytes (rs_body resp) (rs_headers resp) of
               Panics \<Rightarrow> Panics
             | Returns True \<Rightarrow> Returns []
             | Returns False \<Rightarrow> Returns [ImageBad url])
          else Returns [])"

definition note_icon :: "page_env \<Rightarrow> fetch_info \<Rightarrow> net_error + response \<Rightarrow> page_net \<Rightarrow> page_net" where
  "note_icon env info res pn =
     (if fi_kind info = ''icon'' \<and> \<not> (case res of Inr resp \<Rightarrow> rs_status resp < 400 | Inl _ \<Rightarrow> False)
      then pn\<lparr>pn_icons_failed := List.insert (pe_storage env, fi_url info) (pn_icons_failed pn)\<rparr>
      else pn)"

definition settle_fetch ::
    "page_env \<Rightarrow> fetch_info \<Rightarrow> net_error + response \<Rightarrow> page_net \<Rightarrow> js_call list outcome \<times> page_net" where
  "settle_fetch env info res pn =
     (let pn = note_icon env info res pn; url = fi_url info in
      case res of
        Inr resp \<Rightarrow>
          let pn = record_full (fi_context info) (fi_method info) url (fi_kind info) (rs_status resp) (rs_body resp)
                (rs_headers resp) (fi_sent info) (rs_encoded_len resp) (rs_content_encoding resp) pn;
              text = text_of (rs_body resp);
              final_url = (if rs_url resp = [] then url else rs_url resp)
          in (case reply_meta env url (fi_kind info) resp of
                Panics \<Rightarrow> Panics
              | Returns calls \<Rightarrow>
                  Returns (calls @ [FetchResolve (fi_id info) (rs_status resp) (reason_phrase (rs_status resp))
                    (rs_headers resp) (from_utf8_lossy text) final_url
                    (if well_formed text then None else Some (pe_encode64 env (rs_body resp)))]), pn)
      | Inl e \<Rightarrow>
          let pn = (if e \<noteq> NetUnimplemented
                    then record_in (fi_context info) (fi_method info) url (fi_kind info) 0 [] pn else pn)
          in (Returns [FetchReject (fi_id info) (pe_error_text env e)], pn))"

text \<open>
  What becomes of a finished task: its calls are delivered, it is dropped because its document is
  gone, settling it panics, or it is lost to the panic of one before it.
\<close>

datatype fate = Delivered deliver "js_call list" | Dropped | Panicked | Lost

text \<open>\<open>Inl\<close> is the text of a task that ended without a result.\<close>

definition joined :: "string + (net_error + response) \<Rightarrow> net_error + response" where
  "joined r = (case r of Inr res \<Rightarrow> res | Inl e \<Rightarrow> Inl (NetConnect (''fetch task failed: '' @ e)))"

fun settle_all ::
    "page_env \<Rightarrow> u64 \<Rightarrow> (in_flight \<times> (string + (net_error + response))) list \<Rightarrow> page_net \<Rightarrow>
     (nat \<times> fate) list \<times> page_net" where
  "settle_all env doc_now [] pn = ([], pn)"
| "settle_all env doc_now ((f, r) # fs) pn =
     (if if_doc f \<noteq> None \<and> if_doc f \<noteq> Some doc_now then
        (case settle_all env doc_now fs pn of (fates, pn) \<Rightarrow> ((if_handle f, Dropped) # fates, pn))
      else
        case settle_fetch env (if_info f) (joined r) pn of
          (Panics, pn) \<Rightarrow> ((if_handle f, Panicked) # map (\<lambda>(g, _). (if_handle g, Lost)) fs, pn)
        | (Returns calls, pn) \<Rightarrow>
            (case settle_all env doc_now fs pn of
               (fates, pn) \<Rightarrow> ((if_handle f, Delivered (if_deliver f) calls) # fates, pn)))"

text \<open>\<open>arrived\<close> are the results of the tasks that have ended, by their numbers.\<close>

definition settle_inflight ::
    "page_env \<Rightarrow> (nat \<Rightarrow> (string + (net_error + response)) option) \<Rightarrow> page_net \<Rightarrow> (nat \<times> fate) list \<times> page_net" where
  "settle_inflight env arrived pn =
     (let ended = List.map_filter (\<lambda>f. map_option (Pair f) (arrived (if_handle f))) (pn_inflight pn)
      in settle_all env (pn_doc_gen pn) ended
           (pn\<lparr>pn_inflight := filter (\<lambda>f. arrived (if_handle f) = None) (pn_inflight pn)\<rparr>))"

definition new_document :: "string \<Rightarrow> page_net \<Rightarrow> page_net" where
  "new_document base pn = pn\<lparr>pn_base := base, pn_doc_hints := [], pn_doc_gen := pn_doc_gen pn + 1\<rparr>"

section \<open>Documents and scripts\<close>

definition mime_of :: "(string, string) btree_map \<Rightarrow> string" where
  "mime_of headers =
     (case find (\<lambda>(k, _). eq_ignore_ascii_case k ''content-type'') headers of
        Some (_, v) \<Rightarrow> to_ascii_lowercase (trim (hd (split_on CHR '';'' v)))
      | None \<Rightarrow> [])"

datatype page_error = NotImplemented | NetError net_error | ScriptAnswered string nat

definition finish_text ::
    "nat \<Rightarrow> string \<Rightarrow> string \<Rightarrow> net_error + response \<Rightarrow> page_net \<Rightarrow> (page_error + string \<times> string) \<times> page_net" where
  "finish_text context url rtype sent pn =
     (case sent of
        Inr resp \<Rightarrow>
          let pn = record_full context ''GET'' url rtype (rs_status resp) (rs_body resp) (rs_headers resp) []
                (rs_encoded_len resp) (rs_content_encoding resp) pn;
              final_url = (if rs_url resp = [] then url else rs_url resp)
          in if List.member [''script'', ''script-low'', ''module''] rtype \<and> \<not> (200 \<le> rs_status resp \<and> rs_status resp < 300)
             then (Inl (ScriptAnswered url (rs_status resp)), pn)
             else
               let body = from_utf8_lossy (text_of (rs_body resp)); mime = mime_of (rs_headers resp) in
               (case (if rtype = ''document'' \<or> rtype = ''iframe'' then text_document_markup mime body else None) of
                  Some markup \<Rightarrow>
                    (Inr (final_url, markup), pn\<lparr>pn_doc_types := AList.update final_url mime (pn_doc_types pn)\<rparr>)
                | None \<Rightarrow> (Inr (final_url, body), pn))
      | Inl NetUnimplemented \<Rightarrow> (Inl NotImplemented, pn)
      | Inl e \<Rightarrow> (Inl (NetError e), record_in context ''GET'' url rtype 0 [] pn))"

text \<open>
  The attempts to get a document: \<open>attempt k\<close> is the outcome of the \<open>k\<close>-th. After a failed
  connection there are two more, and no more than that.
\<close>

definition retryable :: "page_error + 'r \<Rightarrow> bool" where
  "retryable r = (case r of Inl (NetError (NetConnect _)) \<Rightarrow> True | Inl (NetError NetTimeout) \<Rightarrow> True | _ \<Rightarrow> False)"

function fetch_document_retrying :: "(nat \<Rightarrow> page_error + 'r) \<Rightarrow> nat \<Rightarrow> page_error + 'r" where
  "fetch_document_retrying attempt k =
     (if retryable (attempt k) \<and> k < 2 then fetch_document_retrying attempt (k + 1) else attempt k)"
  by pat_completeness auto
termination
  by (relation "measure (\<lambda>(_, k). 2 - k)") auto

declare fetch_document_retrying.simps [simp del]

end
