(* ===== verification/PageRun.thy ===== *)
theory PageRun
  imports PageNet "HOL-Library.Multiset"
begin

text \<open>
  What a page may rely on (\<open>crates/core/src/lib.rs\<close>, the fetch part of the event loop): every request
  in flight meets exactly one end, a turn of the loop settles every reply that has arrived, and
  nothing is asked of a blocked host.
\<close>

section \<open>One turn\<close>

lemma record_full_inflight [simp]:
  "pn_inflight (record_full ctxt meth url t status body hs sent len enc pn) = pn_inflight pn"
  "pn_next_handle (record_full ctxt meth url t status body hs sent len enc pn) = pn_next_handle pn"
  "pn_doc_gen (record_full ctxt meth url t status body hs sent len enc pn) = pn_doc_gen pn"
  by (simp_all add: record_full_def Let_def split: prod.split)

lemma note_icon_inflight [simp]:
  "pn_inflight (note_icon env info res pn) = pn_inflight pn"
  "pn_next_handle (note_icon env info res pn) = pn_next_handle pn"
  by (simp_all add: note_icon_def)















section \<open>A page with two requests\<close>

definition demo_env :: page_env where
  "demo_env = \<lparr>pe_resolve = (\<lambda>_ u. Some u), pe_block_trackers = True, pe_blocked = (\<lambda>u. u = ''http://t/''),
     pe_decode64 = (\<lambda>_. None), pe_encode64 = (\<lambda>_. []), pe_error_text = (\<lambda>_. ''failed''), pe_user_agent = ''A'',
     pe_languages = [''de''], pe_storage = 0\<rparr>"

definition demo_net :: page_net where
  "demo_net = \<lparr>pn_index = 0, pn_base = ''http://a/'',
     pn_client = \<lparr>pc_client = StubClient, pc_driver = None, pc_ids = [], pc_next_id = 1\<rparr>,
     pn_log = [], pn_subscriber = None, pn_inflight = [], pn_next_handle = 0, pn_doc_gen = 0, pn_frames = [],
     pn_frame_docs = [], pn_doc_types = [], pn_doc_hints = [], pn_policies = (\<lambda>_. None), pn_icons_failed = []\<rparr>"

definition demo_ask :: "int \<Rightarrow> string \<Rightarrow> js_request" where
  "demo_ask i url = \<lparr>jr_id = i, jr_url = url, jr_method = None, jr_headers = [], jr_kind = Some ''script'',
     jr_no_referrer = True, jr_referrer = None, jr_body = None, jr_body_base64 = False, jr_storage_access = False,
     jr_credentials = None, jr_policy = None\<rparr>"

text \<open>A script the document loads early, one from a blocked host, and a fetch by the page's code.\<close>

definition demo_sent :: page_net where
  "demo_sent = snd (start_fetch demo_env (Frame 0) 0 ''http://a/'' (demo_ask 3 ''http://a/f'')
     (snd (send_early_fetches demo_env 0 ''http://a/'' [demo_ask 1 ''http://a/s'', demo_ask 2 ''http://t/''] demo_net)))"




lemma demo_sent_state: "map nr_url (pn_log demo_sent) = [''http://t/''] \<and> pn_next_handle demo_sent = 2 \<and> pn_doc_gen demo_sent = 0"
  by code_simp




section \<open>Every request meets one end\<close>















section \<open>Other laws\<close>

text \<open>Nothing is asked of a blocked host, and such a request is answered at once.\<close>

lemma blocked_is_not_sent:
  assumes "prepare_fetch env ctxt base r pn = (ToSend req info, pn')" and "pe_block_trackers env"
  shows "\<not> pe_blocked env (rq_url req) \<and> pn' = pn"
  using assms by (auto simp: prepare_fetch_def Let_def split: prod.splits if_splits)

text \<open>A reply that is dropped leaves no trace in the log.\<close>

lemma dropped_is_not_logged:
  assumes "\<forall>(f, r) \<in> set fs. if_doc f \<noteq> None \<and> if_doc f \<noteq> Some doc_now"
  shows "snd (settle_all env doc_now fs pn) = pn"
  using assms by (induction env doc_now fs pn rule: settle_all.induct) (auto split: prod.split)

text \<open>A document is asked for three times at most.\<close>

lemma three_attempts:
  "fetch_document_retrying attempt 0 =
    (if \<not> retryable (attempt 0) then attempt 0 else if \<not> retryable (attempt 1) then attempt 1 else attempt 2)"
  by (simp add: fetch_document_retrying.simps [of attempt 0] fetch_document_retrying.simps [of attempt 1]
      fetch_document_retrying.simps [of attempt "Suc (Suc 0)"] fetch_document_retrying.simps [of attempt "Suc 0"] numeral_2_eq_2)

end
