(* ===== verification/Sockets.thy ===== *)
theory Sockets
  imports PageRun
begin

text \<open>
  The sockets of a page: the task that owns one connection (\<open>crates/net/src/websocket.rs\<close>), and the
  page's table and queue (\<open>crates/core/src/lib.rs\<close>, \<open>PageSockets\<close>). A page and its frames share one
  table, keyed by the number a script gave its socket, and one queue of events. The connection and
  the order in which its task sees commands and frames are inputs.
\<close>

section \<open>The task of a connection\<close>

datatype ws_event =
    WsOpen string
  | WsText string
  | WsBinary bytes
  | WsClosed u16 string bool
  | WsError string

datatype ws_command = SendText string | SendBinary bytes | SendClose u16 string








section \<open>The page's table\<close>

record connection =
  cn_url :: string
  cn_protocols :: "string list"
  cn_origin :: string
  cn_commands :: "ws_command list"
  cn_held :: bool

text \<open>The table maps a script's number to a connection; the connections are listed as they were opened.\<close>

record page_sockets =
  so_open :: "(u32 \<times> nat) list"
  so_conns :: "connection list"
  so_queue :: "(u32 \<times> ws_event) list"

definition no_sockets :: page_sockets where
  "no_sockets = \<lparr>so_open = [], so_conns = [], so_queue = []\<rparr>"

definition max_sockets :: nat where
  "max_sockets = 64"

text \<open>An operation a script has queued, as far as its fields have the expected types.\<close>

record ws_op =
  wo_id :: "nat option"
  wo_op :: "string option"
  wo_url :: "string option"
  wo_protocols :: "string option list option"
  wo_bytes :: "nat option list option"
  wo_data :: "string option"
  wo_code :: "nat option"
  wo_reason :: "string option"

definition or_else :: "'a \<Rightarrow> 'a option \<Rightarrow> 'a" where
  "or_else d x = (case x of Some v \<Rightarrow> v | None \<Rightarrow> d)"

definition op_number :: "ws_op \<Rightarrow> u32" where
  "op_number op = of_nat (or_else 0 (wo_id op))"

definition queue_event :: "u32 \<Rightarrow> ws_event \<Rightarrow> page_sockets \<Rightarrow> page_sockets" where
  "queue_event i e so = so\<lparr>so_queue := so_queue so @ [(i, e)]\<rparr>"

definition let_go :: "u32 \<Rightarrow> page_sockets \<Rightarrow> page_sockets" where
  "let_go i so =
     (case map_of (so_open so) i of
        Some c \<Rightarrow> so\<lparr>so_open := AList.delete i (so_open so), so_conns := (so_conns so)[c := (so_conns so ! c)\<lparr>cn_held := False\<rparr>]\<rparr>
      | None \<Rightarrow> so)"

definition command_to :: "u32 \<Rightarrow> ws_command \<Rightarrow> page_sockets \<Rightarrow> page_sockets" where
  "command_to i cmd so =
     (case map_of (so_open so) i of
        Some c \<Rightarrow> so\<lparr>so_conns := (so_conns so)[c := (so_conns so ! c)\<lparr>cn_commands := cn_commands (so_conns so ! c) @ [cmd]\<rparr>]\<rparr>
      | None \<Rightarrow> so)"

text \<open>Putting a handle under a number lets go of the one that was there; its command channel closes.\<close>

definition open_websocket :: "page_env \<Rightarrow> any_client \<Rightarrow> u32 \<Rightarrow> string \<Rightarrow> string list \<Rightarrow> string \<Rightarrow> page_sockets \<Rightarrow> page_sockets" where
  "open_websocket env client i url protocols origin so =
     (let so = (if client = StubClient then queue_event i (WsError (pe_error_text env NetUnimplemented)) so else so);
          so = let_go i so;
          c = \<lparr>cn_url = url, cn_protocols = protocols, cn_origin = origin, cn_commands = [], cn_held = True\<rparr>
      in so\<lparr>so_open := (i, length (so_conns so)) # so_open so, so_conns := so_conns so @ [c]\<rparr>)"

definition command_of :: "ws_op \<Rightarrow> ws_command" where
  "command_of op =
     (case wo_bytes op of
        Some b \<Rightarrow> SendBinary (map (\<lambda>v. of_nat (or_else 0 v)) b)
      | None \<Rightarrow> SendText (or_else [] (wo_data op)))"

definition apply_ws_op ::
    "page_env \<Rightarrow> (string \<Rightarrow> string) \<Rightarrow> string \<Rightarrow> ws_op \<Rightarrow> page_sockets \<times> page_net \<Rightarrow> page_sockets \<times> page_net" where
  "apply_ws_op env origin base op = (\<lambda>(so, pn).
     (let i = op_number op; kind = or_else [] (wo_op op) in
      if kind = ''open'' then
        (let raw = or_else [] (wo_url op);
             url = or_else raw (pe_resolve env base raw);
             protocols = List.map_filter (\<lambda>v. v) (or_else [] (wo_protocols op))
         in if max_sockets \<le> length (so_open so) then (queue_event i (WsError ''too many open WebSockets'') so, pn)
            else if pe_block_trackers env \<and> pe_blocked env url then
              (queue_event i (WsError ''blocked by tracker filter'') so,
               record_in (pn_index pn) ''WS'' url ''websocket'' 0 [] pn)
            else
              (open_websocket env (pc_client (pn_client pn)) i url protocols (origin base) so,
               record_in (pn_index pn) ''WS'' url ''websocket'' 101 [] pn))
      else if kind = ''send'' then (command_to i (command_of op) so, pn)
      else if kind = ''close'' then
        (command_to i (SendClose (of_nat (or_else 1000 (wo_code op))) (or_else [] (wo_reason op))) so, pn)
      else (so, pn)))"

definition apply_ws_ops ::
    "page_env \<Rightarrow> (string \<Rightarrow> string) \<Rightarrow> string \<Rightarrow> ws_op list \<Rightarrow> page_sockets \<times> page_net \<Rightarrow> page_sockets \<times> page_net" where
  "apply_ws_ops env origin base ops s = foldl (\<lambda>s op. apply_ws_op env origin base op s) s ops"

section \<open>Delivery\<close>

datatype socket_call =
    CallOpen u32 string
  | CallMessage u32 string
  | CallBinary u32 bytes
  | CallClose u32 u16 string bool
  | CallError u32 string

fun call_of :: "u32 \<Rightarrow> ws_event \<Rightarrow> socket_call" where
  "call_of i (WsOpen p) = CallOpen i p"
| "call_of i (WsText t) = CallMessage i t"
| "call_of i (WsBinary b) = CallBinary i b"
| "call_of i (WsClosed n reason clean) = CallClose i n reason clean"
| "call_of i (WsError e) = CallError i e"

fun terminal :: "ws_event \<Rightarrow> bool" where
  "terminal (WsClosed _ _ _) = True"
| "terminal (WsError _) = True"
| "terminal _ = False"

fun take_events :: "nat \<Rightarrow> page_sockets \<Rightarrow> socket_call list \<times> page_sockets" where
  "take_events 0 so = ([], so)"
| "take_events (Suc n) so =
     (case so_queue so of
        [] \<Rightarrow> ([], so)
      | (i, e) # rest \<Rightarrow>
          let so = so\<lparr>so_queue := rest\<rparr>;
              so = (if terminal e then let_go i so else so);
              (calls, so) = take_events n so
          in (call_of i e # calls, so))"

definition max_per_round :: nat where
  "max_per_round = 256"

text \<open>The calls go to the page or frame for which the round is run.\<close>

definition deliver_ws_events :: "nat \<Rightarrow> page_sockets \<Rightarrow> (nat \<times> socket_call) list \<times> page_sockets" where
  "deliver_ws_events index so = (case take_events max_per_round so of (calls, so) \<Rightarrow> (map (Pair index) calls, so))"

text \<open>An idle page waits for an event: it is taken from the queue, and put back at its end.\<close>

definition await_ws_event :: "page_sockets \<Rightarrow> bool \<times> page_sockets" where
  "await_ws_event so =
     (case so_queue so of [] \<Rightarrow> (False, so) | e # rest \<Rightarrow> (True, so\<lparr>so_queue := rest @ [e]\<rparr>))"

definition has_open_sockets :: "bool \<Rightarrow> page_sockets \<Rightarrow> bool" where
  "has_open_sockets held so = (held \<or> so_open so \<noteq> [])"

section \<open>The life of a connection\<close>








section \<open>The table stays within its bound\<close>

text \<open>
  A step is a batch of operations from the page or a frame, an event of any task, a delivery, or a
  wait. The connections still held are those in the table, each once.
\<close>

inductive socket_step :: "page_env \<Rightarrow> (string \<Rightarrow> string) \<Rightarrow> page_sockets \<times> page_net \<Rightarrow> page_sockets \<times> page_net \<Rightarrow> bool" for env origin where
  s_ops: "socket_step env origin (so, pn) (apply_ws_ops env origin base ops (so, pn))"
| s_event: "socket_step env origin (so, pn) (queue_event i e so, pn)"
| s_deliver: "socket_step env origin (so, pn) (snd (deliver_ws_events index so), pn)"
| s_wait: "socket_step env origin (so, pn) (snd (await_ws_event so), pn)"

inductive socket_reachable :: "page_env \<Rightarrow> (string \<Rightarrow> string) \<Rightarrow> page_net \<Rightarrow> page_sockets \<times> page_net \<Rightarrow> bool" for env origin pn where
  s_begin: "socket_reachable env origin pn (no_sockets, pn)"
| s_more: "socket_reachable env origin pn s \<Longrightarrow> socket_step env origin s s' \<Longrightarrow> socket_reachable env origin pn s'"

definition held :: "page_sockets \<Rightarrow> nat set" where
  "held so = {c. c < length (so_conns so) \<and> cn_held (so_conns so ! c)}"

definition table_ok :: "page_sockets \<Rightarrow> bool" where
  "table_ok so \<longleftrightarrow> distinct (map fst (so_open so)) \<and> distinct (map snd (so_open so)) \<and>
     snd ` set (so_open so) = held so \<and> length (so_open so) \<le> max_sockets"

lemma table_ok_held: "table_ok so \<Longrightarrow> (i, c) \<in> set (so_open so) \<Longrightarrow> c < length (so_conns so) \<and> cn_held (so_conns so ! c)"
  unfolding table_ok_def held_def by force

lemma table_ok_queue [simp]: "table_ok (so\<lparr>so_queue := q\<rparr>) = table_ok so"
  by (simp add: table_ok_def held_def)

lemma queue_event_table [simp]: "table_ok (queue_event i e so) = table_ok so" "so_open (queue_event i e so) = so_open so"
  by (simp_all add: queue_event_def)

lemma distinct_map_delete: "distinct (map f xs) \<Longrightarrow> distinct (map f (AList.delete i xs))"
  by (simp add: AList.delete_eq distinct_map_filter)

lemma snd_delete:
  assumes "distinct (map fst xs)" and "distinct (map snd xs)" and "map_of xs i = Some c"
  shows "snd ` set (AList.delete i xs) = snd ` set xs - {c}"
proof -
  note mem = map_of_SomeD [OF assms(3)]
  have inj: "inj_on fst (set xs)" "inj_on snd (set xs)"
    using assms(1,2) by (simp_all add: distinct_map)
  have fst: "fst e = i \<longleftrightarrow> e = (i, c)" if "e \<in> set xs" for e
    using inj_on_eq_iff [OF inj(1) that mem] by simp
  have snd: "snd e = c \<longleftrightarrow> e = (i, c)" if "e \<in> set xs" for e
    using inj_on_eq_iff [OF inj(2) that mem] by simp
  have "set (AList.delete i xs) = set xs - {(i, c)}"
    using fst by (fastforce simp: AList.delete_eq)
  then show ?thesis
    using snd by auto
qed

lemma let_go_table:
  assumes "table_ok so"
  shows "table_ok (let_go i so) \<and> i \<notin> fst ` set (so_open (let_go i so)) \<and>
    length (so_open (let_go i so)) \<le> length (so_open so)"
proof (cases "map_of (so_open so) i")
  case None
  then have "i \<notin> fst ` set (so_open so)"
    by (simp add: map_of_eq_None_iff)
  with None assms show ?thesis
    by (simp add: let_go_def)
next
  case (Some c)
  note ok = assms [unfolded table_ok_def]
  have c: "c < length (so_conns so)"
    using table_ok_held [OF assms map_of_SomeD [OF Some]] by simp
  have opened: "so_open (let_go i so) = AList.delete i (so_open so)"
    by (simp add: let_go_def Some)
  have "held (let_go i so) = held so - {c}"
    using c by (auto simp: held_def let_go_def Some nth_list_update)
  moreover have "length (AList.delete i (so_open so)) \<le> length (so_open so)"
    by (simp add: length_delete_le)
  moreover have "snd ` set (AList.delete i (so_open so)) = held so - {c}"
    using ok snd_delete [OF _ _ Some] by simp
  moreover have "distinct (map fst (AList.delete i (so_open so)))" "distinct (map snd (AList.delete i (so_open so)))"
    using ok by (simp_all add: distinct_map_delete)
  moreover have "length (AList.delete i (so_open so)) \<le> max_sockets"
    using ok length_delete_le [of i "so_open so"] by linarith
  moreover have "i \<notin> fst ` set (AList.delete i (so_open so))"
    by (auto simp: AList.delete_eq)
  ultimately show ?thesis
    using ok by (auto simp only: table_ok_def opened)
qed

lemma command_to_table: "table_ok so \<Longrightarrow> table_ok (command_to i cmd so)"
proof (cases "map_of (so_open so) i")
  case (Some c)
  assume ok: "table_ok so"
  have "cn_held ((so_conns so)[c := (so_conns so ! c)\<lparr>cn_commands := cs\<rparr>] ! x) = cn_held (so_conns so ! x)" for cs x
    by (cases "c < length (so_conns so)"; cases "x = c") (simp_all add: list_update_beyond)
  then have "held (command_to i cmd so) = held so"
    by (simp add: held_def command_to_def Some)
  with ok show ?thesis
    by (simp add: table_ok_def) (simp add: command_to_def Some)
qed (simp add: command_to_def)

lemma open_websocket_table:
  assumes "table_ok so" and "length (so_open so) < max_sockets"
  shows "table_ok (open_websocket env client i url protocols origin so)"
proof -
  let ?q = "if client = StubClient then queue_event i (WsError (pe_error_text env NetUnimplemented)) so else so"
  have q: "table_ok ?q" "so_open ?q = so_open so"
    using assms(1) by simp_all
  let ?s = "let_go i ?q"
  let ?new = "open_websocket env client i url protocols origin so"
  have s: "table_ok ?s" "i \<notin> fst ` set (so_open ?s)" "length (so_open ?s) < max_sockets"
    using let_go_table [OF q(1), of i] assms(2) by (auto simp only: q(2) intro: le_less_trans)
  have "held ?new = insert (length (so_conns ?s)) (held ?s)"
    by (auto simp: held_def open_websocket_def Let_def nth_append less_Suc_eq)
  moreover have "length (so_conns ?s) \<notin> snd ` set (so_open ?s)"
    using s(1) by (auto simp: table_ok_def held_def)
  moreover have "so_open ?new = (i, length (so_conns ?s)) # so_open ?s"
    by (simp add: open_websocket_def Let_def)
  ultimately show ?thesis
    using s by (simp add: table_ok_def)
qed

lemma apply_ws_op_table: "table_ok so \<Longrightarrow> table_ok (fst (apply_ws_op env origin base op (so, pn)))"
  by (simp add: apply_ws_op_def Let_def command_to_table open_websocket_table not_le)

lemma apply_ws_ops_table: "table_ok (fst s) \<Longrightarrow> table_ok (fst (apply_ws_ops env origin base ops s))"
proof (induction ops arbitrary: s)
  case (Cons op ops)
  then show ?case
    using apply_ws_op_table [of "fst s" env origin base op "snd s"] by (simp add: apply_ws_ops_def)
qed (simp add: apply_ws_ops_def)

lemma take_events_table: "table_ok so \<Longrightarrow> table_ok (snd (take_events n so))"
proof (induction n so rule: take_events.induct)
  case (2 n so)
  show ?case
  proof (cases "so_queue so")
    case (Cons x rest)
    obtain i e where x: "x = (i, e)"
      by force
    have "table_ok (if terminal e then let_go i (so\<lparr>so_queue := rest\<rparr>) else so\<lparr>so_queue := rest\<rparr>)"
      using 2(2) let_go_table [of "so\<lparr>so_queue := rest\<rparr>" i] by simp
    with 2(1) [OF Cons [unfolded x] refl refl refl] show ?thesis
      by (cases "terminal e") (simp_all add: Cons x Let_def case_prod_unfold)
  qed (use 2(2) in simp)
qed simp

lemma socket_step_table: "socket_step env origin s s' \<Longrightarrow> table_ok (fst s) \<Longrightarrow> table_ok (fst s')"
proof (induction rule: socket_step.induct)
  case (s_ops so pn base ops)
  then show ?case
    using apply_ws_ops_table [of "(so, pn)"] by simp
next
  case (s_deliver so pn index)
  then show ?case
    using take_events_table by (simp add: deliver_ws_events_def split: prod.split) (metis snd_conv)
next
  case (s_wait so pn)
  then show ?case
    by (simp add: await_ws_event_def split: list.split)
qed simp

lemma socket_reachable_table: "socket_reachable env origin pn s \<Longrightarrow> table_ok (fst s)"
  by (induction rule: socket_reachable.induct)
    (simp add: table_ok_def held_def no_sockets_def max_sockets_def, rule socket_step_table)

text \<open>A page that has opened its first socket, and the operation a frame's first socket makes.\<close>

definition demo_opens :: "string \<Rightarrow> ws_op" where
  "demo_opens url = \<lparr>wo_id = Some 1, wo_op = Some ''open'', wo_url = Some url, wo_protocols = Some [], wo_bytes = None,
     wo_data = None, wo_code = None, wo_reason = None\<rparr>"


definition demo_opened :: "page_sockets \<times> page_net" where
  "demo_opened = apply_ws_ops demo_env (\<lambda>b. b) ''http://a/'' [demo_opens ''ws://a/''] (no_sockets, demo_net)"

lemma demo_opened_reachable: "socket_reachable demo_env (\<lambda>b. b) demo_net demo_opened"
  unfolding demo_opened_def by (rule s_more [OF s_begin s_ops])

text \<open>
  Claim C25. A page cannot hold more than 64 sockets, counting those of its frames. Whatever the order of
  operations, events, deliveries and waits, the connections whose command channel is still open
  are exactly those in the table, no number stands for two of them, and no connection has two numbers.
\<close>

theorem sockets_stay_in_bounds:
  assumes "socket_reachable env origin pn (so, pn')"
  shows "card (held so) \<le> 64 \<and> snd ` set (so_open so) = held so \<and>
    distinct (map fst (so_open so)) \<and> distinct (map snd (so_open so))"
proof -
  have ok: "table_ok so"
    using socket_reachable_table [OF assms] by simp
  then have "card (held so) \<le> length (so_open so)"
    by (metis table_ok_def card_length length_map list.set_map)
  with ok show ?thesis
    by (simp add: table_ok_def max_sockets_def)
qed

theorem sockets_stay_in_bounds_witness:
  "card (held (fst demo_opened)) \<le> 64 \<and> snd ` set (so_open (fst demo_opened)) = held (fst demo_opened) \<and>
    distinct (map fst (so_open (fst demo_opened))) \<and> distinct (map snd (so_open (fst demo_opened)))"
proof -
  have "socket_reachable demo_env (\<lambda>b. b) demo_net (fst demo_opened, snd demo_opened)"
    using demo_opened_reachable by simp
  then show ?thesis
    by (rule sockets_stay_in_bounds)
qed

section \<open>Numbers are shared with frames\<close>




section \<open>Delivery\<close>

text \<open>A round hands on the first 256 events in the order in which they were queued.\<close>

lemma let_go_queue [simp]: "so_queue (let_go i so) = so_queue so"
  by (simp add: let_go_def split: option.split)

lemma take_events_order:
  "fst (take_events n so) = map (\<lambda>(i, e). call_of i e) (take n (so_queue so)) \<and>
   so_queue (snd (take_events n so)) = drop n (so_queue so)"
proof (induction n so rule: take_events.induct)
  case (2 n so)
  show ?case
  proof (cases "so_queue so")
    case (Cons x rest)
    obtain i e where x: "x = (i, e)"
      by force
    from 2 [OF Cons [unfolded x] refl refl refl] show ?thesis
      by (cases "terminal e") (simp_all add: Cons x Let_def case_prod_unfold)
  qed simp
qed simp

text \<open>
  Events do not always come in the order of arrival. A round delivers the oldest 256 in order,
  to the page or to whichever frame runs it; but when an idle page waits while two or more events
  are queued, the oldest goes to the end and is delivered after the others, a close before
  the message that preceded it included.
\<close>

theorem waiting_lets_events_overtake:
  "fst (deliver_ws_events index so) = map (\<lambda>(i, e). (index, call_of i e)) (take 256 (so_queue so)) \<and>
   so_queue (snd (deliver_ws_events index so)) = drop 256 (so_queue so) \<and>
   so_queue (snd (await_ws_event so)) = rotate1 (so_queue so)"
  using take_events_order [of max_per_round so]
  by (auto simp: deliver_ws_events_def max_per_round_def await_ws_event_def case_prod_unfold split: list.split)

end
