(* ===== verification/PageCookies.thy ===== *)
theory PageCookies
  imports Blocklist ClientHints
begin

text \<open>
  The cookies of a page (\<open>crates/core/src/lib.rs\<close>): the cookies reported for addresses, what
  \<open>document.cookie\<close> reads, and a script's writes to it. The URL parser and the cookie store are
  arguments; the store's list is \<open>report\<close> and storing a header is \<open>store\<close>.
\<close>

section \<open>Which cookies\<close>

record cookie_url =
  cu_scheme :: string
  cu_host :: "string option"
  cu_path :: string

definition or_blank :: "string option \<Rightarrow> string" where
  "or_blank x = (case x of Some s \<Rightarrow> s | None \<Rightarrow> [])"

definition cookie_path :: "cookie_record \<Rightarrow> string" where
  "cookie_path c = (case cr_path c of Some p \<Rightarrow> p | None \<Rightarrow> ''/'')"

definition cookie_fits :: "string \<Rightarrow> string \<Rightarrow> cookie_record \<Rightarrow> bool" where
  "cookie_fits host path c =
     (let domain = dropWhile (\<lambda>x. x = CHR ''.'') (or_blank (cr_domain c));
          host_ok = (domain = [] \<or> host = domain \<or> has_suffix host (CHR ''.'' # domain));
          path_ok = has_prefix path (cookie_path c)
      in host_ok \<and> path_ok)"

definition cookies_for :: "(string \<Rightarrow> cookie_url option) \<Rightarrow> string list \<Rightarrow> cookie_record list \<Rightarrow> cookie_record list" where
  "cookies_for parse urls jar =
     (if urls = [] then jar
      else
        let targets = map (\<lambda>u. (to_ascii_lowercase (or_blank (cu_host u)), cu_path u)) (List.map_filter parse urls)
        in filter (\<lambda>c. list_ex (\<lambda>(host, path). cookie_fits host path c) targets) jar)"

section \<open>\<open>document.cookie\<close>\<close>

definition document_cookie_for :: "(string \<Rightarrow> cookie_url option) \<Rightarrow> string \<Rightarrow> cookie_record list \<Rightarrow> string" where
  "document_cookie_for parse url jar =
     (case parse url of
        None \<Rightarrow> []
      | Some u \<Rightarrow>
          if \<not> (cu_scheme u = ''http'' \<or> cu_scheme u = ''https'') then []
          else
            let https = (cu_scheme u = ''https'');
                v = filter (\<lambda>c. \<not> cr_http_only c \<and> (https \<or> \<not> cr_secure c)) (cookies_for parse [url] jar);
                v = sort_key (\<lambda>c. - int (length (cookie_path c))) v
            in join ''; '' (map (\<lambda>c. cr_name c @ ''='' @ cr_value c) v))"

definition written_name :: "string \<Rightarrow> string" where
  "written_name raw = trim (hd (split_on CHR ''='' (hd (split_on CHR '';'' raw))))"

definition guarded :: "(string \<Rightarrow> cookie_url option) \<Rightarrow> string \<Rightarrow> string \<Rightarrow> cookie_record list \<Rightarrow> bool" where
  "guarded parse url name jar = list_ex (\<lambda>c. cr_http_only c \<and> cr_name c = name) (cookies_for parse [url] jar)"

text \<open>A write that is no string is \<open>None\<close>. The result says whether anything was stored.\<close>

fun apply_writes ::
    "(string \<Rightarrow> cookie_url option) \<Rightarrow> ('j \<Rightarrow> cookie_record list) \<Rightarrow> (string \<Rightarrow> string \<Rightarrow> 'j \<Rightarrow> 'j) \<Rightarrow> string \<Rightarrow>
     string list \<Rightarrow> bool \<times> 'j \<Rightarrow> bool \<times> 'j" where
  "apply_writes parse report store url [] s = s"
| "apply_writes parse report store url (raw # raws) (stored, j) =
     (if guarded parse url (written_name raw) (report j) then apply_writes parse report store url raws (stored, j)
      else apply_writes parse report store url raws (True, store raw url j))"

definition apply_cookie_ops ::
    "(string \<Rightarrow> cookie_url option) \<Rightarrow> ('j \<Rightarrow> cookie_record list) \<Rightarrow> (string \<Rightarrow> string \<Rightarrow> 'j \<Rightarrow> 'j) \<Rightarrow> string \<Rightarrow>
     string option list \<Rightarrow> 'j \<Rightarrow> bool \<times> 'j" where
  "apply_cookie_ops parse report store url ops j =
     (if \<not> has_prefix url ''http'' then (False, j)
      else apply_writes parse report store url (List.map_filter (\<lambda>v. v) ops) (False, j))"

section \<open>What a script cannot replace\<close>








text \<open>Only the cookies that match the document's address are looked at before a write.\<close>

lemma unmatched_http_only_is_not_guarded:
  assumes "has_prefix url ''http''" and "\<not> guarded parse url (written_name raw) (report j)"
  shows "apply_cookie_ops parse report store url [Some raw] j = (True, store raw url j)"
  using assms by (simp add: apply_cookie_ops_def List.map_filter_simps)

section \<open>What a document can read\<close>

lemma cookies_for_filter: "cookies_for parse urls (filter P jar) = filter P (cookies_for parse urls jar)"
  by (simp add: cookies_for_def Let_def filter_filter conj_commute)

text \<open>A document reads nothing of an HttpOnly cookie, and nothing of a Secure one over plain http.\<close>

lemma hidden_cookies_are_not_read:
  assumes "parse url = Some u"
  shows "document_cookie_for parse url jar =
    document_cookie_for parse url (filter (\<lambda>c. \<not> cr_http_only c \<and> (cu_scheme u = ''https'' \<or> \<not> cr_secure c)) jar)"
  using assms by (simp add: document_cookie_for_def Let_def cookies_for_filter filter_filter conj_ac)

text \<open>A cookie for one host made one for its subdomains too.\<close>

definition widen :: "stored_cookie \<Rightarrow> stored_cookie" where
  "widen c = c\<lparr>sc_domain := (case sc_domain c of HostOnly h \<Rightarrow> Suffix h | d \<Rightarrow> d)\<rparr>"

lemma widen_same:
  "cookie_fits h p (cookie_record_of (widen c)) = cookie_fits h p (cookie_record_of c)"
  "cookie_path (cookie_record_of (widen c)) = cookie_path (cookie_record_of c)"
  "cr_name (cookie_record_of (widen c)) = cr_name (cookie_record_of c)"
  "cr_value (cookie_record_of (widen c)) = cr_value (cookie_record_of c)"
  "cr_http_only (cookie_record_of (widen c)) = cr_http_only (cookie_record_of c)"
  "cr_secure (cookie_record_of (widen c)) = cr_secure (cookie_record_of c)"
  by (auto simp: cookie_fits_def widen_def cookie_record_of_def or_blank_def cookie_path_def split: cookie_domain.split)

lemma sort_key_map: "sort_key k (map f xs) = map f (sort_key (\<lambda>x. k (f x)) xs)"
proof -
  have "insort_key k (f x) (map f ys) = map f (insort_key (\<lambda>x. k (f x)) x ys)" for x ys
    by (induction ys) auto
  then show ?thesis
    by (induction xs) auto
qed

lemma cookies_for_snapshot:
  "cookies_for parse urls (map f cs) = map f (filter (\<lambda>c. urls = [] \<or>
     list_ex (\<lambda>u. cookie_fits (to_ascii_lowercase (or_blank (cu_host u))) (cu_path u) (f c)) (List.map_filter parse urls)) cs)"
  by (auto simp: cookies_for_def filter_map comp_def list_ex_iff)

text \<open>
  Claim C28. What \<open>document.cookie\<close> reads does not tell a cookie of one host from one for its
  subdomains: for every jar and address it is the same when each host-only cookie is made a domain cookie,
  so a document of a subdomain reads the parent's host-only cookies.
\<close>

theorem host_only_is_not_honoured:
  "document_cookie_for parse url (jar_snapshot (map widen cs)) = document_cookie_for parse url (jar_snapshot cs)"
proof -
  have "jar_snapshot (map widen cs) = map (\<lambda>c. cookie_record_of (widen c)) cs"
    by (simp add: jar_snapshot_def)
  then show ?thesis
    by (simp add: document_cookie_for_def jar_snapshot_def cookies_for_snapshot filter_map sort_key_map comp_def
        widen_same Let_def split: option.split)
qed

text \<open>The same at work: a cookie that belongs to \<open>a\<close> alone, read from \<open>b.a\<close>.\<close>

lemma subdomain_reads_host_only:
  "document_cookie_for (\<lambda>u. Some \<lparr>cu_scheme = ''https'', cu_host = Some ''b.a'', cu_path = ''/''\<rparr>) ''https://b.a/''
    (jar_snapshot [\<lparr>sc_name = ''s'', sc_value = ''1'', sc_domain = HostOnly ''a'', sc_path = Some ''/'', sc_secure = None,
       sc_http_only = None, sc_expires = SessionEnd, sc_same_site = None\<rparr>]) = ''s=1''"
  by code_simp

end
