(* ===== verification/Spec2Isabelle.thy ===== *)
theory Spec2Isabelle
  imports IdbWorld Pool ImportMap CdpBrowser EngineRun Sockets PageCookies
begin

text \<open>
  A verification library for nokk. (The header is completed as the library grows.)
\<close>

end
